theory Spec2Isabelle
  imports Main "HOL-Library.Char_ord" "HOL-Library.List_Lexorder"
    "HOL-Library.Code_Target_Numeral"
begin

section \<open>Strings, byte arrays and variants\<close>

text \<open>
  The plugin works on Qt values. A \<open>QString\<close> and a \<open>QByteArray\<close> are both modelled
  as \<open>string\<close> (a list of 8-bit characters), so the conversions between the two that
  the code applies silently (\<open>QVariant::toString\<close>, \<open>toByteArray\<close>) are the identity.
\<close>

type_synonym QString = string
type_synonym QByteArray = string

text \<open>\<open>QString::endsWith\<close>, \<open>startsWith\<close>, \<open>left\<close>, \<open>mid\<close> and \<open>lastIndexOf\<close>.\<close>

definition endsWith :: "QString \<Rightarrow> QString \<Rightarrow> bool" where
  "endsWith s e = (length e \<le> length s \<and> drop (length s - length e) s = e)"

definition startsWith :: "QString \<Rightarrow> QString \<Rightarrow> bool" where
  "startsWith s p = (take (length p) s = p)"

text \<open>
  \<open>QString::left(n)\<close>: the whole string when \<open>n\<close> is negative or not below its size.
\<close>

definition left :: "QString \<Rightarrow> int \<Rightarrow> QString" where
  "left s n = (if n < 0 \<or> n \<ge> int (length s) then s else take (nat n) s)"

text \<open>
  \<open>lastIndexOf(c)\<close>: the index of the last occurrence of \<open>c\<close>, \<open>None\<close> for Qt's -1.
\<close>

fun lastIndexOf :: "QString \<Rightarrow> char \<Rightarrow> nat option" where
  "lastIndexOf [] c = None"
| "lastIndexOf (x # xs) c =
     (case lastIndexOf xs c of
        Some i \<Rightarrow> Some (Suc i)
      | None \<Rightarrow> (if x = c then Some 0 else None))"

text \<open>Decimal digits: \<open>\d\<close> of the regular expressions, \<open>QString::toInt\<close> and \<open>QString::arg\<close>.\<close>

definition isDigit :: "char \<Rightarrow> bool" where
  "isDigit c = (48 \<le> (of_char c :: nat) \<and> (of_char c :: nat) \<le> 57)"

definition digitVal :: "char \<Rightarrow> nat" where
  "digitVal c = (of_char c :: nat) - 48"

definition digitChar :: "nat \<Rightarrow> char" where
  "digitChar d = char_of (48 + d)"

definition decimalValue :: "QString \<Rightarrow> nat" where
  "decimalValue s = foldl (\<lambda>a c. 10 * a + digitVal c) 0 s"

text \<open>
  \<open>QString::toInt\<close> on a run of decimal digits: the value when it fits a 32-bit
  \<open>int\<close>, and 0 (the conversion failed) when it does not.
\<close>

definition toInt_digits :: "QString \<Rightarrow> nat" where
  "toInt_digits s = (if decimalValue s \<le> 2147483647 then decimalValue s else 0)"

fun showNat :: "nat \<Rightarrow> QString" where
  "showNat n = (if n < 10 then [digitChar n] else showNat (n div 10) @ [digitChar (n mod 10)])"

declare showNat.simps [simp del]

text \<open>
  \<open>QString("%1").arg(i, fieldWidth, 10, QChar('0'))\<close>: the decimal digits of \<open>i\<close>,
  padded on the left with \<open>0\<close> to at least \<open>fieldWidth\<close> characters.
\<close>

definition arg_padded :: "nat \<Rightarrow> nat \<Rightarrow> QString" where
  "arg_padded i fieldWidth = replicate (fieldWidth - length (showNat i)) (CHR ''0'') @ showNat i"

section \<open>File formats\<close>

record FileFormat =
  extensions :: "QString list"
  itemMime :: QString
  icon :: QString

definition isValid :: "FileFormat \<Rightarrow> bool" where
  "isValid f = (extensions f \<noteq> [])"

definition emptyFileFormat :: FileFormat where
  "emptyFileFormat = \<lparr>extensions = [], itemMime = [], icon = []\<rparr>"

text \<open>
  \<open>getFormatSettingsFromFileName\<close>: the first format, in the order of the settings, with
  an extension the file name ends with. The third argument is the value of \<open>*foundExt\<close>
  before the call; the result carries its value after it.
\<close>

fun firstExtensionMatch :: "QString \<Rightarrow> QString list \<Rightarrow> QString option" where
  "firstExtensionMatch fileName [] = None"
| "firstExtensionMatch fileName (ext # exts) =
     (if endsWith fileName ext then Some ext else firstExtensionMatch fileName exts)"

fun getFormatSettingsFromFileName ::
  "QString \<Rightarrow> FileFormat list \<Rightarrow> QString \<Rightarrow> FileFormat \<times> QString" where
  "getFormatSettingsFromFileName fileName [] foundExt = (emptyFileFormat, foundExt)"
| "getFormatSettingsFromFileName fileName (format # formatSettings) foundExt =
     (case firstExtensionMatch fileName (extensions format) of
        Some ext \<Rightarrow> (format, ext)
      | None \<Rightarrow> getFormatSettingsFromFileName fileName formatSettings foundExt)"

section \<open>The base-name allocator\<close>

text \<open>
  \<open>name->replace(QRegExp("/|\\\\|^\\."), "_")\<close>: every slash and backslash, and a dot
  at the very start of the name, become an underscore.
\<close>

definition unsafeChar :: "char \<Rightarrow> bool" where
  "unsafeChar c = (c = CHR ''/'' \<or> c = CHR 0x5C)"

fun replaceUnsafe :: "QString \<Rightarrow> QString" where
  "replaceUnsafe [] = []"
| "replaceUnsafe (c # cs) =
     (if c = CHR ''.'' \<or> unsafeChar c then CHR ''_'' else c)
       # map (\<lambda>x. if unsafeChar x then CHR ''_'' else x) cs"

text \<open>\<open>name->remove(QRegExp("\\n|\\r"))\<close>: line feeds and carriage returns are dropped.\<close>

definition removeNewlines :: "QString \<Rightarrow> QString" where
  "removeNewlines s = filter (\<lambda>c. c \<noteq> CHR 0x0A \<and> c \<noteq> CHR 0x0D) s"

text \<open>
  The match of \<open>QRegExp("\\d+$")\<close> in the base name: the longest run of digits at its
  end (\<open>re.cap(0)\<close>), empty when \<open>indexOf\<close> returns -1.
\<close>

definition trailingDigits :: "QString \<Rightarrow> QString" where
  "trailingDigits s = rev (takeWhile isDigit (rev s))"

text \<open>
  The \<open>do ... while\<close> loop of \<open>renameToUnique\<close>: \<open>i\<close> is the counter before the
  increment. The loop gives up (\<open>return false\<close>) once \<open>i\<close> has reached 99999.
\<close>

function nextFreeName ::
  "QString \<Rightarrow> nat \<Rightarrow> QString \<Rightarrow> QString list \<Rightarrow> nat \<Rightarrow> QString option" where
  "nextFreeName baseName fieldWidth ext usedNames i =
     (if i \<ge> 99999 then None
      else let newName = baseName @ arg_padded (i + 1) fieldWidth @ ext
           in if newName \<in> set usedNames
              then nextFreeName baseName fieldWidth ext usedNames (i + 1)
              else Some newName)"
  by pat_completeness auto
termination
  by (relation "measure (\<lambda>(b, w, e, u, i). 99999 - i)") auto

declare nextFreeName.simps [simp del]

text \<open>
  The extension split off a used name: the extension of the first user format that
  matches, else everything from the last dot on; a dot left at the end of the base moves
  to the front of the extension.
\<close>

definition splitExtension :: "QString \<Rightarrow> FileFormat list \<Rightarrow> QString \<times> QString" where
  "splitExtension name formatSettings =
     (let (fileFormat, ext0) = getFormatSettingsFromFileName name formatSettings [];
          ext1 = (if \<not> isValid fileFormat
                  then (case lastIndexOf name (CHR ''.'') of
                          Some i \<Rightarrow> drop i name
                        | None \<Rightarrow> ext0)
                  else ext0);
          baseName = left name (int (length name) - int (length ext1))
      in if endsWith baseName ''.''
         then (butlast baseName, CHR ''.'' # ext1)
         else (baseName, ext1))"

text \<open>
  \<open>renameToUnique(QString *name, QStringList *usedNames, formatSettings)\<close>. The result
  is \<open>None\<close> where the code returns \<open>false\<close>, and the new name with the extended list
  of used names where it returns \<open>true\<close>.
\<close>

definition sanitizeName :: "QString \<Rightarrow> QString" where
  "sanitizeName name =
     (if name = [] then ''copyq_0000'' else removeNewlines (replaceUnsafe name))"

definition renameToUnique ::
  "QString \<Rightarrow> QString list \<Rightarrow> FileFormat list \<Rightarrow> (QString \<times> QString list) option" where
  "renameToUnique name0 usedNames formatSettings =
     (let name = sanitizeName name0
      in if name \<notin> set usedNames then Some (name, usedNames @ [name])
         else
           let (baseName0, ext) = splitExtension name formatSettings;
               num = trailingDigits baseName0;
               (i, fieldWidth, baseName) =
                 (if num \<noteq> []
                  then (toInt_digits num, length num,
                        take (length baseName0 - length num) baseName0)
                  else (0, 0, baseName0 @ ''-''))
           in case nextFreeName baseName fieldWidth ext usedNames i of
                None \<Rightarrow> None
              | Some newName \<Rightarrow> Some (newName, usedNames @ [newName]))"

section \<open>Variants and maps\<close>

text \<open>
  A \<open>QVariant\<close> with the kinds of value the plugin stores, and a \<open>QMap\<close> with string
  keys as an association list kept in the order of the keys, which is the order in which
  \<open>keys()\<close> and \<open>values()\<close> enumerate it. \<open>insert\<close> replaces the value of a key that is
  present.
\<close>

datatype QVariant =
    QVInvalid
  | QVByteArray QByteArray
  | QVString QString
  | QVInt int
  | QVStringList "QString list"
  | QVMap "(QString \<times> QVariant) list"

type_synonym 'v QMap = "(QString \<times> 'v) list"
type_synonym QVariantMap = "QVariant QMap"

fun qinsert :: "QString \<Rightarrow> 'v \<Rightarrow> 'v QMap \<Rightarrow> 'v QMap" where
  "qinsert k v [] = [(k, v)]"
| "qinsert k v ((k', v') # m) =
     (if k = k' then (k, v) # m
      else if k < k' then (k, v) # (k', v') # m
      else (k', v') # qinsert k v m)"

definition qremove :: "QString \<Rightarrow> 'v QMap \<Rightarrow> 'v QMap" where
  "qremove k m = filter (\<lambda>kv. fst kv \<noteq> k) m"

definition qcontains :: "'v QMap \<Rightarrow> QString \<Rightarrow> bool" where
  "qcontains m k = (map_of m k \<noteq> None)"

definition qvalue :: "'v QMap \<Rightarrow> QString \<Rightarrow> 'v \<Rightarrow> 'v" where
  "qvalue m k d = (case map_of m k of Some v \<Rightarrow> v | None \<Rightarrow> d)"

definition qkeys :: "'v QMap \<Rightarrow> QString list" where
  "qkeys m = map fst m"

definition qvalues :: "'v QMap \<Rightarrow> 'v list" where
  "qvalues m = map snd m"

text \<open>\<open>QVariantMap::value(key)\<close>: an invalid variant when the key is absent.\<close>

definition mapValue :: "QVariantMap \<Rightarrow> QString \<Rightarrow> QVariant" where
  "mapValue m k = qvalue m k QVInvalid"

fun toMap :: "QVariant \<Rightarrow> QVariantMap" where
  "toMap (QVMap m) = m"
| "toMap _ = []"

fun toString :: "QVariant \<Rightarrow> QString" where
  "toString (QVString s) = s"
| "toString (QVByteArray b) = b"
| "toString (QVInt n) = (if n < 0 then CHR ''-'' # showNat (nat (- n)) else showNat (nat n))"
| "toString _ = []"

fun toByteArray :: "QVariant \<Rightarrow> QByteArray" where
  "toByteArray (QVByteArray b) = b"
| "toByteArray (QVString s) = s"
| "toByteArray (QVInt n) = (if n < 0 then CHR ''-'' # showNat (nat (- n)) else showNat (nat n))"
| "toByteArray _ = []"

fun toStringList :: "QVariant \<Rightarrow> QString list" where
  "toStringList (QVStringList l) = l"
| "toStringList (QVString s) = [s]"
| "toStringList (QVByteArray s) = [s]"
| "toStringList _ = []"

text \<open>
  \<open>QString::toInt\<close>: white space around the number is skipped, a sign is allowed, and the
  result is 0 when the text is not a number or does not fit a 32-bit \<open>int\<close>.
\<close>

definition isSpace :: "char \<Rightarrow> bool" where
  "isSpace c = (c = CHR '' '' \<or> (9 \<le> (of_char c :: nat) \<and> (of_char c :: nat) \<le> 13))"

definition trimmed :: "QString \<Rightarrow> QString" where
  "trimmed s = rev (dropWhile isSpace (rev (dropWhile isSpace s)))"

definition stringToInt :: "QString \<Rightarrow> int" where
  "stringToInt s0 =
     (let s = trimmed s0;
          neg = (s \<noteq> [] \<and> hd s = CHR ''-'');
          ds = (if s \<noteq> [] \<and> (hd s = CHR ''-'' \<or> hd s = CHR ''+'') then tl s else s);
          v = int (decimalValue ds)
      in if ds = [] \<or> \<not> list_all isDigit ds then 0
         else if neg then (if v \<le> 2147483648 then - v else 0)
         else (if v \<le> 2147483647 then v else 0))"

fun toInt :: "QVariant \<Rightarrow> int" where
  "toInt (QVInt n) = n"
| "toInt (QVString s) = stringToInt s"
| "toInt (QVByteArray s) = stringToInt s"
| "toInt _ = 0"

section \<open>Constants\<close>

text \<open>
  Modelled from the spec: the MIME constants of \<open>common/common.h\<close>, which is not among
  the sources: the reserved prefix of internal keys (\<open>MIME_PREFIX\<close>), \<open>mimeText\<close>,
  \<open>mimeHtml\<close>, \<open>mimeUriList\<close> and \<open>mimeItemNotes\<close> (the "notes" and "html" rows of the
  built-in table).
\<close>

definition MIME_PREFIX :: QString where
  "MIME_PREFIX = ''application/x-copyq-''"

definition mimeText :: QString where
  "mimeText = ''text/plain''"

definition mimeHtml :: QString where
  "mimeHtml = ''text/html''"

definition mimeUriList :: QString where
  "mimeUriList = ''text/uri-list''"

definition mimeItemNotes :: QString where
  "mimeItemNotes = MIME_PREFIX @ ''item-notes''"

definition currentVersion :: int where
  "currentVersion = 1"

definition dataFileHeader :: QString where
  "dataFileHeader = ''CopyQ_itemsync_tab''"

definition configVersion :: QString where
  "configVersion = ''copyq_itemsync_version''"

definition tabConfigSavedFiles :: QString where
  "tabConfigSavedFiles = ''saved_files''"

definition dataFileSuffix :: QString where
  "dataFileSuffix = ''_copyq.dat''"

definition MIME_PREFIX_ITEMSYNC :: QString where
  "MIME_PREFIX_ITEMSYNC = MIME_PREFIX @ ''itemsync-''"

definition mimeExtensionMap :: QString where
  "mimeExtensionMap = MIME_PREFIX_ITEMSYNC @ ''mime-to-extension-map''"

definition mimeBaseName :: QString where
  "mimeBaseName = MIME_PREFIX_ITEMSYNC @ ''basename''"

definition mimeNoSave :: QString where
  "mimeNoSave = MIME_PREFIX_ITEMSYNC @ ''no-save''"

definition mimeSyncPath :: QString where
  "mimeSyncPath = MIME_PREFIX_ITEMSYNC @ ''sync-path''"

text \<open>\<open>sizeLimit = 10 << 20\<close>, in bytes.\<close>

definition sizeLimit :: nat where
  "sizeLimit = 10 * 2 ^ 20"

section \<open>Host services\<close>

text \<open>
  What the plugin calls and does not define is a parameter of the model: the SHA-1 digest
  of \<open>QCryptographicHash\<close>, the codecs of \<open>item/serialize.h\<close> and of \<open>QDataStream\<close>,
  \<open>QUrl::fromLocalFile(...).toEncoded()\<close>, and whether \<open>QDir::mkpath\<close> and the model's
  \<open>insertRow\<close> succeed. \<open>deserializeData\<close> takes the map it writes into and the bytes.
\<close>

type_synonym Hash = QByteArray

record Host =
  sha1 :: "QByteArray \<Rightarrow> Hash"
  serializeData :: "QVariantMap \<Rightarrow> QByteArray"
  deserializeData :: "QVariantMap \<Rightarrow> QByteArray \<Rightarrow> bool \<times> QVariantMap"
  readQString :: "QByteArray \<Rightarrow> QString \<times> QByteArray"
  readQVariantMap :: "QByteArray \<Rightarrow> QVariantMap \<times> QByteArray"
  writeQString :: "QString \<Rightarrow> QByteArray"
  writeQVariantMap :: "QVariantMap \<Rightarrow> QByteArray"
  urlFromLocalFile :: "QString \<Rightarrow> QByteArray"
  mkpath :: "QString \<Rightarrow> bool"
  insertRowOk :: "nat \<Rightarrow> bool"

section \<open>The manifest codec\<close>

text \<open>\<open>readConfigHeader\<close>: the header read, and the rest of the stream.\<close>

definition readConfigHeader :: "Host \<Rightarrow> QByteArray \<Rightarrow> bool \<times> QByteArray" where
  "readConfigHeader h stream =
     (let (header, rest) = readQString h stream in (header = dataFileHeader, rest))"

text \<open>
  \<open>readConfig\<close>: the result and the value left in \<open>*config\<close>, which the caller passes in
  empty.
\<close>

definition readConfig :: "Host \<Rightarrow> QByteArray \<Rightarrow> bool \<times> QVariantMap" where
  "readConfig h file =
     (let (ok, rest) = readConfigHeader h file
      in if \<not> ok then (False, [])
         else let (config, rest') = readQVariantMap h rest
              in (toInt (qvalue config configVersion (QVInt 0)) = currentVersion, config))"

definition writeConfiguration :: "Host \<Rightarrow> QString list \<Rightarrow> QByteArray" where
  "writeConfiguration h savedFiles =
     (let config = qinsert tabConfigSavedFiles (QVStringList savedFiles)
                     (qinsert configVersion (QVInt currentVersion) [])
      in writeQString h dataFileHeader @ writeQVariantMap h config)"

section \<open>The file system\<close>

text \<open>
  A file has its bytes, the time of its last write and the permissions the code asks
  about. The file system maps absolute paths to files and carries a clock that every
  write advances.
\<close>

record QFile =
  contents :: QByteArray
  lastModified :: nat
  readable :: bool
  writable :: bool
  hidden :: bool

record FileSystem =
  files :: "QFile QMap"
  clock :: nat

definition lookupFile :: "FileSystem \<Rightarrow> QString \<Rightarrow> QFile option" where
  "lookupFile fs path = map_of (files fs) path"

definition fileExists :: "FileSystem \<Rightarrow> QString \<Rightarrow> bool" where
  "fileExists fs path = (lookupFile fs path \<noteq> None)"

text \<open>\<open>QFile::open(QIODevice::ReadOnly)\<close>: the file when it exists and may be read.\<close>

definition openReadOnly :: "FileSystem \<Rightarrow> QString \<Rightarrow> QFile option" where
  "openReadOnly fs path =
     (case lookupFile fs path of
        Some f \<Rightarrow> (if readable f then Some f else None)
      | None \<Rightarrow> None)"

text \<open>
  \<open>f.open(QIODevice::WriteOnly)\<close> followed by \<open>f.write(bytes)\<close>: the file is truncated
  and holds exactly \<open>bytes\<close> afterwards. Opening fails, and nothing changes, when the
  file exists and is not writable.
\<close>

definition writeFile :: "FileSystem \<Rightarrow> QString \<Rightarrow> QByteArray \<Rightarrow> FileSystem option" where
  "writeFile fs path bytes =
     (case lookupFile fs path of
        Some f \<Rightarrow>
          (if writable f
           then Some \<lparr>files = qinsert path (f\<lparr>contents := bytes, lastModified := clock fs\<rparr>) (files fs),
                      clock = clock fs + 1\<rparr>
           else None)
      | None \<Rightarrow>
          Some \<lparr>files = qinsert path
                          \<lparr>contents = bytes, lastModified = clock fs, readable = True,
                           writable = True, hidden = False\<rparr> (files fs),
                     clock = clock fs + 1\<rparr>)"

text \<open>
  \<open>QFile::remove\<close>, \<open>QFile::rename\<close> and \<open>QFile::copy\<close>; the last two do nothing when
  the source is missing or the target exists.
\<close>

definition removeFile :: "FileSystem \<Rightarrow> QString \<Rightarrow> FileSystem" where
  "removeFile fs path = fs\<lparr>files := qremove path (files fs)\<rparr>"

definition renameFile :: "FileSystem \<Rightarrow> QString \<Rightarrow> QString \<Rightarrow> FileSystem" where
  "renameFile fs oldPath newPath =
     (case lookupFile fs oldPath of
        Some f \<Rightarrow>
          (if fileExists fs newPath then fs
           else fs\<lparr>files := qinsert newPath f (qremove oldPath (files fs))\<rparr>)
      | None \<Rightarrow> fs)"

definition copyFile :: "FileSystem \<Rightarrow> QString \<Rightarrow> QString \<Rightarrow> FileSystem" where
  "copyFile fs oldPath newPath =
     (case lookupFile fs oldPath of
        Some f \<Rightarrow>
          (if fileExists fs newPath \<or> \<not> readable f then fs
           else \<lparr>files = qinsert newPath (f\<lparr>lastModified := clock fs\<rparr>) (files fs),
                 clock = clock fs + 1\<rparr>)
      | None \<Rightarrow> fs)"

text \<open>
  \<open>QDir::absoluteFilePath\<close> for a directory given by its absolute path, and
  \<open>QFileInfo::fileName\<close>: the part of a path after its last slash.
\<close>

definition absoluteFilePath :: "QString \<Rightarrow> QString \<Rightarrow> QString" where
  "absoluteFilePath dir fileName =
     (if startsWith fileName ''/'' then fileName
      else if fileName = [] then dir
      else if endsWith dir ''/'' then dir @ fileName
      else dir @ ''/'' @ fileName)"

definition fileNameOf :: "QString \<Rightarrow> QString" where
  "fileNameOf path =
     (case lastIndexOf path (CHR ''/'') of Some i \<Rightarrow> drop (Suc i) path | None \<Rightarrow> path)"

text \<open>
  \<open>dir.entryList(itemFileFilter(), sort)\<close>: the names of the files directly in the
  directory that are readable and writable. The filter has no \<open>QDir::Hidden\<close>, so hidden
  files are not listed. By name they come in the order of the paths; by
  \<open>QDir::Time | QDir::Reversed\<close> the oldest comes first.
\<close>

definition inDirectory :: "QString \<Rightarrow> QString \<Rightarrow> bool" where
  "inDirectory dir path =
     (startsWith path (dir @ ''/'') \<and> length dir + 1 < length path
      \<and> CHR ''/'' \<notin> set (drop (length dir + 1) path))"

definition itemFiles :: "FileSystem \<Rightarrow> QString \<Rightarrow> (QString \<times> QFile) list" where
  "itemFiles fs dir =
     filter (\<lambda>pf. inDirectory dir (fst pf) \<and> readable (snd pf) \<and> writable (snd pf)
                  \<and> \<not> hidden (snd pf))
       (files fs)"

definition entryList :: "FileSystem \<Rightarrow> QString \<Rightarrow> QString list" where
  "entryList fs dir = map (\<lambda>pf. fileNameOf (fst pf)) (itemFiles fs dir)"

definition entryListByTimeReversed :: "FileSystem \<Rightarrow> QString \<Rightarrow> QString list" where
  "entryListByTimeReversed fs dir =
     map (\<lambda>pf. fileNameOf (fst pf)) (sort_key (\<lambda>pf. lastModified (snd pf)) (itemFiles fs dir))"

section \<open>Content hashes and write elision\<close>

definition calculateHash :: "Host \<Rightarrow> QByteArray \<Rightarrow> Hash" where
  "calculateHash h bytes = sha1 h bytes"

text \<open>\<open>calculateHash(QFile *)\<close>: no digest for a file above the size limit.\<close>

definition calculateHash_file :: "Host \<Rightarrow> QFile \<Rightarrow> Hash" where
  "calculateHash_file h file =
     (if length (contents file) > sizeLimit then [] else sha1 h (contents file))"

text \<open>
  A \<open>QMultiMap<Hash, QString>\<close> as a list of pairs: \<open>values(hash)\<close> are the paths paired
  with the hash, and \<open>remove(hash, path)\<close> drops every such pair.
\<close>

type_synonym ExistingFiles = "(Hash \<times> QString) list"

definition multiValues :: "ExistingFiles \<Rightarrow> Hash \<Rightarrow> QString list" where
  "multiValues m hash = map snd (filter (\<lambda>e. fst e = hash) m)"

definition multiRemove :: "ExistingFiles \<Rightarrow> Hash \<Rightarrow> QString \<Rightarrow> ExistingFiles" where
  "multiRemove m hash path = filter (\<lambda>e. e \<noteq> (hash, path)) m"

text \<open>
  \<open>saveItemFile\<close>: the result, the multimap and the file system after the call. The
  file is written only when the pair of its hash and path is not among the existing
  files.
\<close>

definition saveItemFile ::
  "Host \<Rightarrow> QString \<Rightarrow> QByteArray \<Rightarrow> ExistingFiles \<Rightarrow> FileSystem
     \<Rightarrow> bool \<times> ExistingFiles \<times> FileSystem" where
  "saveItemFile h filePath bytes existingFiles fs =
     (let hash = calculateHash h bytes;
          fileNames = multiValues existingFiles hash
      in if filePath \<in> set fileNames
         then (True, multiRemove existingFiles hash filePath, fs)
         else (case writeFile fs filePath bytes of
                 None \<Rightarrow> (False, existingFiles, fs)
               | Some fs' \<Rightarrow> (True, existingFiles, fs')))"

text \<open>\<open>listFiles(const QDir &)\<close>: the hash of every file of the directory that opens.\<close>

definition listFiles_dir :: "Host \<Rightarrow> FileSystem \<Rightarrow> QString \<Rightarrow> ExistingFiles" where
  "listFiles_dir h fs dir =
     concat (map (\<lambda>fileName.
                let path = absoluteFilePath dir fileName
                in case openReadOnly fs path of
                     Some f \<Rightarrow> [(calculateHash_file h f, path)]
                   | None \<Rightarrow> [])
             (entryList fs dir))"

section \<open>The format registry and the directory scanner\<close>

record Ext =
  extension :: QString
  format :: QString

definition mkExt :: "QString \<Rightarrow> QString \<Rightarrow> Ext" where
  "mkExt e f = \<lparr>extension = e, format = f\<rparr>"

definition fileExtensionsAndFormats :: "Ext list" where
  "fileExtensionsAndFormats =
     [mkExt ''_note.txt'' mimeItemNotes,
      mkExt ''.bmp'' ''image/bmp'',
      mkExt ''.gif'' ''image/gif'',
      mkExt ''.html'' mimeHtml,
      mkExt ''_inkscape.svg'' ''image/x-inkscape-svg-compressed'',
      mkExt ''.jpg'' ''image/jpeg'',
      mkExt ''.jpg'' ''image/jpeg'',
      mkExt ''.png'' ''image/png'',
      mkExt ''.txt'' mimeText,
      mkExt ''.uri'' mimeUriList,
      mkExt ''.xml'' ''application/xml'',
      mkExt ''_xml.svg'' ''image/svg+xml'',
      mkExt ''.xml'' ''text/xml'',
      mkExt dataFileSuffix []]"

fun findByFormat_list :: "QString \<Rightarrow> Ext list \<Rightarrow> Ext" where
  "findByFormat_list fmt [] = mkExt [] []"
| "findByFormat_list fmt (ext # rest) =
     (if format ext = fmt then ext else findByFormat_list fmt rest)"

definition findByFormat :: "QString \<Rightarrow> Ext list \<Rightarrow> QVariantMap \<Rightarrow> Ext" where
  "findByFormat fmt extList userExtension =
     (if qcontains userExtension fmt
      then mkExt (toString (mapValue userExtension fmt)) fmt
      else findByFormat_list fmt extList)"

fun findByExtension :: "QString \<Rightarrow> Ext list \<Rightarrow> Ext" where
  "findByExtension fileName [] = mkExt [] []"
| "findByExtension fileName (ext # rest) =
     (if endsWith fileName (extension ext) then ext else findByExtension fileName rest)"

record BaseNameExtensions =
  baseName :: QString
  exts :: "Ext list"

type_synonym BaseNameExtensionsList = "BaseNameExtensions list"

text \<open>
  \<open>QFileInfo\<close> of a path: a file that does not exist is neither hidden nor readable.
\<close>

definition isHidden :: "FileSystem \<Rightarrow> QString \<Rightarrow> bool" where
  "isHidden fs path = (case lookupFile fs path of Some f \<Rightarrow> hidden f | None \<Rightarrow> False)"

definition isReadable :: "FileSystem \<Rightarrow> QString \<Rightarrow> bool" where
  "isReadable fs path = (case lookupFile fs path of Some f \<Rightarrow> readable f | None \<Rightarrow> False)"

definition userExtsOf :: "FileFormat list \<Rightarrow> Ext list" where
  "userExtsOf formatSettings =
     concat (map (\<lambda>fmt. map (\<lambda>e. mkExt e (itemMime fmt)) (extensions fmt)) formatSettings)"

text \<open>
  The extension and MIME the scanner settles on for one path, \<open>None\<close> where the loop
  body runs into a \<open>continue\<close>.
\<close>

definition scanFile :: "FileSystem \<Rightarrow> Ext list \<Rightarrow> QString \<Rightarrow> Ext option" where
  "scanFile fs userExts filePath =
     (if isHidden fs filePath \<or> startsWith (fileNameOf filePath) ''.''
         \<or> \<not> isReadable fs filePath
      then None
      else let ext = findByExtension filePath userExts
           in if extension ext = []
              then (let ext' = findByExtension filePath fileExtensionsAndFormats
                    in if format ext' = [] then None else Some ext')
              else if format ext = ''-'' then None
              else if format ext = [] then Some (findByExtension filePath fileExtensionsAndFormats)
              else Some (ext\<lparr>extension := []\<rparr>))"

text \<open>
  One round of the loop of \<open>listFiles\<close>: the list of buckets and the map from base
  names to their positions in it.
\<close>

definition listFiles_step ::
  "FileSystem \<Rightarrow> Ext list \<Rightarrow> QString
     \<Rightarrow> BaseNameExtensionsList \<times> nat QMap \<Rightarrow> BaseNameExtensionsList \<times> nat QMap" where
  "listFiles_step fs userExts filePath acc =
     (case scanFile fs userExts filePath of
        None \<Rightarrow> acc
      | Some ext \<Rightarrow>
          let (fileList, fileMap) = acc;
              fileName = fileNameOf filePath;
              bn = left fileName (int (length fileName) - int (length (extension ext)))
          in (case map_of fileMap bn of
                Some i \<Rightarrow>
                  (fileList[i := (fileList ! i)\<lparr>exts := exts (fileList ! i) @ [ext]\<rparr>], fileMap)
              | None \<Rightarrow>
                  (fileList @ [\<lparr>baseName = bn, exts = [ext]\<rparr>],
                   qinsert bn (length fileList) fileMap)))"

definition listFiles ::
  "FileSystem \<Rightarrow> QString list \<Rightarrow> FileFormat list \<Rightarrow> BaseNameExtensionsList" where
  "listFiles fs filePaths formatSettings =
     fst (fold (listFiles_step fs (userExtsOf formatSettings)) filePaths ([], []))"

section \<open>The watcher\<close>

text \<open>
  A row of the model holds the item's data. \<open>m_indexToBaseName\<close> is keyed by persistent
  model indexes, which follow their rows when others are inserted or removed, so its
  entry for a row is kept with the row: \<open>indexBaseName\<close>, empty when the map has no entry
  (what \<open>value(index)\<close> returns then).
\<close>

record Row =
  rowData :: QVariantMap
  indexBaseName :: QString

record FileWatcher =
  m_path :: QString
  m_formatSettings :: "FileFormat list"
  m_valid :: bool
  m_model :: "Row list"
  maxItems :: int
  modelDisabled :: bool
  watchedFiles :: "QString list"

text \<open>
  The data at \<open>m_model->index(i, 0)\<close>, empty for an index outside the model, and
  \<open>setData(index, itemData, contentType::data)\<close>, which replaces the data of the row
  and does nothing for an index outside the model.
\<close>

definition dataAt :: "Row list \<Rightarrow> nat \<Rightarrow> QVariantMap" where
  "dataAt rows i = (if i < length rows then rowData (rows ! i) else [])"

definition setData :: "nat \<Rightarrow> QVariantMap \<Rightarrow> Row list \<Rightarrow> Row list" where
  "setData i itemData rows =
     (if i < length rows then rows[i := (rows ! i)\<lparr>rowData := itemData\<rparr>] else rows)"

definition indexValue :: "Row list \<Rightarrow> nat \<Rightarrow> QString" where
  "indexValue rows i = (if i < length rows then indexBaseName (rows ! i) else [])"

definition indexInsert :: "nat \<Rightarrow> QString \<Rightarrow> Row list \<Rightarrow> Row list" where
  "indexInsert i name rows =
     (if i < length rows then rows[i := (rows ! i)\<lparr>indexBaseName := name\<rparr>] else rows)"

definition getBaseName :: "QVariantMap \<Rightarrow> QString" where
  "getBaseName itemData = toString (mapValue itemData mimeBaseName)"

definition watchPath :: "QString \<Rightarrow> FileWatcher \<Rightarrow> FileWatcher" where
  "watchPath path w =
     (if path \<in> set (watchedFiles w) then w else w\<lparr>watchedFiles := watchedFiles w @ [path]\<rparr>)"

definition connectModel :: "FileWatcher \<Rightarrow> FileWatcher" where
  "connectModel w = w\<lparr>m_valid := True\<rparr>"

definition disconnectModel :: "FileWatcher \<Rightarrow> FileWatcher" where
  "disconnectModel w = w\<lparr>m_valid := False\<rparr>"

subsection \<open>Files of an item\<close>

definition removeFormatFiles :: "QString \<Rightarrow> QVariantMap \<Rightarrow> FileSystem \<Rightarrow> FileSystem" where
  "removeFormatFiles path mimeToExtension fs =
     fold (\<lambda>fmt fs'. removeFile fs' (path @ toString (mapValue mimeToExtension fmt)))
       (qkeys mimeToExtension) fs"

definition moveFormatFiles ::
  "QString \<Rightarrow> QString \<Rightarrow> QVariantMap \<Rightarrow> FileSystem \<Rightarrow> FileSystem" where
  "moveFormatFiles oldPath newPath mimeToExtension fs =
     fold (\<lambda>fmt fs'. let ext = toString (mapValue mimeToExtension fmt)
                     in renameFile fs' (oldPath @ ext) (newPath @ ext))
       (qkeys mimeToExtension) fs"

definition copyFormatFiles ::
  "QString \<Rightarrow> QString \<Rightarrow> QVariantMap \<Rightarrow> FileSystem \<Rightarrow> FileSystem" where
  "copyFormatFiles oldPath newPath mimeToExtension fs =
     fold (\<lambda>fmt fs'. let ext = toString (mapValue mimeToExtension fmt)
                     in copyFile fs' (oldPath @ ext) (newPath @ ext))
       (qkeys mimeToExtension) fs"

subsection \<open>Renaming the rows of a range\<close>

text \<open>
  The base names of the rows outside \<open>first..last\<close>, in row order: the first loop of
  \<open>FileWatcher::renameToUnique\<close>.
\<close>

definition usedBaseNamesOutside :: "Row list \<Rightarrow> nat \<Rightarrow> nat \<Rightarrow> QString list" where
  "usedBaseNamesOutside rows firstRow lastRow =
     map (\<lambda>i. getBaseName (dataAt rows i))
       (filter (\<lambda>i. \<not> (firstRow \<le> i \<and> i \<le> lastRow)) [0..<length rows])"

text \<open>
  The body of the second loop for row \<open>i\<close>: \<open>None\<close> where the allocator fails and the
  function returns \<open>false\<close>.
\<close>

definition renameRow ::
  "nat \<Rightarrow> QString list \<times> FileWatcher \<times> FileSystem
     \<Rightarrow> (QString list \<times> FileWatcher \<times> FileSystem) option" where
  "renameRow i st =
     (let (usedBaseNames, w, fs) = st;
          oldBaseName = getBaseName (dataAt (m_model w) i)
      in case renameToUnique oldBaseName usedBaseNames (m_formatSettings w) of
           None \<Rightarrow> None
         | Some (newBaseName, usedBaseNames') \<Rightarrow>
             let itemData = dataAt (m_model w) i;
                 syncPath = toString (mapValue itemData mimeSyncPath);
                 copyFilesFromOtherTab = (syncPath \<noteq> [] \<and> syncPath \<noteq> m_path w)
             in if copyFilesFromOtherTab \<or> newBaseName \<noteq> oldBaseName
                then
                  let mimeToExtension = toMap (mapValue itemData mimeExtensionMap);
                      newBasePath = m_path w @ ''/'' @ newBaseName;
                      olderBaseName = indexValue (m_model w) i;
                      fs' = (if syncPath \<noteq> []
                             then copyFormatFiles (syncPath @ ''/'' @ oldBaseName) newBasePath
                                    mimeToExtension fs
                             else if olderBaseName \<noteq> []
                             then moveFormatFiles (m_path w @ ''/'' @ olderBaseName) newBasePath
                                    mimeToExtension fs
                             else fs);
                      rows1 = (if syncPath \<noteq> [] then m_model w
                               else indexInsert i newBaseName (m_model w));
                      itemData' = qinsert mimeBaseName (QVString newBaseName)
                                    (qremove mimeSyncPath itemData)
                  in Some (usedBaseNames', w\<lparr>m_model := setData i itemData' rows1\<rparr>, fs')
                else Some (usedBaseNames', w, fs))"

fun renameRows ::
  "nat list \<Rightarrow> QString list \<times> FileWatcher \<times> FileSystem
     \<Rightarrow> bool \<times> QString list \<times> FileWatcher \<times> FileSystem" where
  "renameRows [] st = (True, st)"
| "renameRows (i # rest) st =
     (case renameRow i st of
        None \<Rightarrow> (False, st)
      | Some st' \<Rightarrow> renameRows rest st')"

text \<open>\<open>FileWatcher::renameToUnique(first, last)\<close>.\<close>

definition watcher_renameToUnique ::
  "nat \<Rightarrow> nat \<Rightarrow> FileWatcher \<Rightarrow> FileSystem \<Rightarrow> bool \<times> FileWatcher \<times> FileSystem" where
  "watcher_renameToUnique firstRow lastRow w fs =
     (let usedBaseNames = usedBaseNamesOutside (m_model w) firstRow lastRow;
          (ok, used', w', fs') = renameRows [firstRow..<Suc lastRow] (usedBaseNames, w, fs)
      in (ok, w', fs'))"

subsection \<open>Direction W: writing rows to the directory\<close>

text \<open>
  The state of the loop over the formats of one item: the item's data, the new map from
  MIME to extension, the data with no extension, the multimap of existing files and the
  file system.
\<close>

type_synonym SaveState =
  "QVariantMap \<times> QVariantMap \<times> QVariantMap \<times> ExistingFiles \<times> FileSystem"

definition saveFormat ::
  "Host \<Rightarrow> QString \<Rightarrow> QVariantMap \<Rightarrow> QVariantMap \<Rightarrow> QString \<Rightarrow> SaveState
     \<Rightarrow> bool \<times> SaveState" where
  "saveFormat h filePath oldMimeToExtension noSaveData fmt st =
     (let (itemData, mimeToExtension, dataMapUnknown, existingFiles, fs) = st
      in if startsWith fmt MIME_PREFIX_ITEMSYNC then (True, st)
         else
           let bytes = toByteArray (mapValue itemData fmt)
           in if qcontains noSaveData fmt
                 \<and> toByteArray (mapValue noSaveData fmt) = calculateHash h bytes
              then (True, qremove fmt itemData, mimeToExtension, dataMapUnknown,
                    existingFiles, fs)
              else
                let hasFile = qcontains oldMimeToExtension fmt;
                    ext = extension (findByFormat fmt fileExtensionsAndFormats oldMimeToExtension)
                in if \<not> hasFile \<and> ext = []
                   then (True, itemData, mimeToExtension,
                         qinsert fmt (QVByteArray bytes) dataMapUnknown, existingFiles, fs)
                   else
                     let (ok, existingFiles', fs') =
                           saveItemFile h (filePath @ ext) bytes existingFiles fs
                     in (ok, itemData, qinsert fmt (QVString ext) mimeToExtension,
                         dataMapUnknown, existingFiles', fs'))"

fun saveFormats ::
  "Host \<Rightarrow> QString \<Rightarrow> QVariantMap \<Rightarrow> QVariantMap \<Rightarrow> QString list \<Rightarrow> SaveState
     \<Rightarrow> bool \<times> SaveState" where
  "saveFormats h filePath oldMimeToExtension noSaveData [] st = (True, st)"
| "saveFormats h filePath oldMimeToExtension noSaveData (fmt # fmts) st =
     (case saveFormat h filePath oldMimeToExtension noSaveData fmt st of
        (False, st') \<Rightarrow> (False, st')
      | (True, st') \<Rightarrow> saveFormats h filePath oldMimeToExtension noSaveData fmts st')"

text \<open>
  The extension that the loop of \<open>saveItems\<close> finds for a format, and the formats for
  which its body reaches \<open>saveItemFile\<close>: those that are not internal data, are not left
  out by their hash in the no-save map, and have a file already or an extension.
\<close>

definition formatExtension :: "QVariantMap \<Rightarrow> QString \<Rightarrow> QString" where
  "formatExtension oldMimeToExtension fmt =
     extension (findByFormat fmt fileExtensionsAndFormats oldMimeToExtension)"

definition formatIsSaved ::
  "Host \<Rightarrow> QVariantMap \<Rightarrow> QVariantMap \<Rightarrow> QVariantMap \<Rightarrow> QString \<Rightarrow> bool" where
  "formatIsSaved h oldMimeToExtension noSaveData itemData fmt =
     (\<not> startsWith fmt MIME_PREFIX_ITEMSYNC
      \<and> \<not> (qcontains noSaveData fmt
             \<and> toByteArray (mapValue noSaveData fmt)
                 = calculateHash h (toByteArray (mapValue itemData fmt)))
      \<and> \<not> (\<not> qcontains oldMimeToExtension fmt
             \<and> formatExtension oldMimeToExtension fmt = []))"

text \<open>
  The body of the loop of \<open>saveItems\<close> for one row; the first component is \<open>False\<close> where
  the function returns early because a file could not be written.
\<close>

definition saveRow ::
  "Host \<Rightarrow> nat \<Rightarrow> FileWatcher \<times> ExistingFiles \<times> FileSystem
     \<Rightarrow> bool \<times> FileWatcher \<times> ExistingFiles \<times> FileSystem" where
  "saveRow h row st =
     (let (w, existingFiles, fs) = st;
          itemData0 = dataAt (m_model w) row;
          bn = getBaseName itemData0;
          filePath = absoluteFilePath (m_path w) bn;
          oldMimeToExtension = toMap (mapValue itemData0 mimeExtensionMap);
          noSaveData = toMap (mapValue itemData0 mimeNoSave);
          (ok, itemData, mimeToExtension0, dataMapUnknown, existingFiles1, fs1) =
            saveFormats h filePath oldMimeToExtension noSaveData (qkeys itemData0)
              (itemData0, [], [], existingFiles, fs)
      in if \<not> ok then (False, w, existingFiles1, fs1)
         else
           let mimeToExtension1 =
                 (if mimeToExtension0 = [] then qinsert [] (QVString []) mimeToExtension0
                  else mimeToExtension0);
               mimeToExtension =
                 (if dataMapUnknown \<noteq> []
                  then qinsert [] (QVString dataFileSuffix) mimeToExtension1
                  else mimeToExtension1);
               (ok2, existingFiles2, fs2) =
                 (if dataMapUnknown \<noteq> []
                  then saveItemFile h (filePath @ dataFileSuffix)
                         (serializeData h dataMapUnknown) existingFiles1 fs1
                  else (True, existingFiles1, fs1))
           in if \<not> ok2 then (False, w, existingFiles2, fs2)
              else if noSaveData \<noteq> [] \<or> mimeToExtension \<noteq> oldMimeToExtension
              then
                let removedFormats = fold qremove (qkeys mimeToExtension) oldMimeToExtension;
                    itemData' = qinsert mimeExtensionMap (QVMap mimeToExtension)
                                  (qremove mimeNoSave itemData);
                    rows' = indexInsert row bn (setData row itemData' (m_model w))
                in (True, w\<lparr>m_model := rows'\<rparr>, existingFiles2,
                    removeFormatFiles filePath removedFormats fs2)
              else (True, w, existingFiles2, fs2))"

fun saveRows ::
  "Host \<Rightarrow> nat list \<Rightarrow> FileWatcher \<times> ExistingFiles \<times> FileSystem
     \<Rightarrow> bool \<times> FileWatcher \<times> ExistingFiles \<times> FileSystem" where
  "saveRows h [] st = (True, st)"
| "saveRows h (row # rest) st =
     (case saveRow h row st of
        (False, st') \<Rightarrow> (False, st')
      | (True, st') \<Rightarrow> saveRows h rest st')"

text \<open>
  \<open>FileWatcher::saveItems(first, last)\<close>. Every early \<open>return\<close> leaves the watcher
  disconnected, with \<open>m_valid\<close> false; only the end of the function connects it again.
\<close>

definition saveItems ::
  "Host \<Rightarrow> nat \<Rightarrow> nat \<Rightarrow> FileWatcher \<Rightarrow> FileSystem \<Rightarrow> FileWatcher \<times> FileSystem" where
  "saveItems h firstRow lastRow w0 fs0 =
     (let (renamed, w1, fs1) = watcher_renameToUnique firstRow lastRow (disconnectModel w0) fs0
      in if \<not> renamed then (w1, fs1)
         else if m_path w1 = [] then (w1, fs1)
         else if \<not> mkpath h (m_path w1) then (w1, fs1)
         else
           let existingFiles = listFiles_dir h fs1 (m_path w1);
               (ok, w2, existingFiles', fs2) =
                 saveRows h [firstRow..<Suc lastRow] (w1, existingFiles, fs1)
           in if \<not> ok then (w2, fs2) else (connectModel w2, fs2))"

subsection \<open>Direction R: reading the directory into the model\<close>

text \<open>
  One file of a bucket in \<open>updateDataAndWatchFile\<close>. A file that does not open is
  passed over. \<open>deserializeData\<close> is called only for a name with the sidecar suffix, and
  what it did to the data stays also when it reports failure; it has then read the file
  to its end, so the second \<open>f.readAll()\<close>, in the last branch, yields no bytes.
\<close>

definition updateDataFromFile ::
  "Host \<Rightarrow> FileSystem \<Rightarrow> QString \<Rightarrow> QString \<Rightarrow> Ext
     \<Rightarrow> QVariantMap \<times> QVariantMap \<times> FileWatcher \<Rightarrow> QVariantMap \<times> QVariantMap \<times> FileWatcher" where
  "updateDataFromFile h fs dir basePath ext st =
     (let (dataMap, mimeToExtension, w) = st;
          fileName = basePath @ extension ext
      in case openReadOnly fs (absoluteFilePath dir fileName) of
           None \<Rightarrow> st
         | Some f \<Rightarrow>
             let (isData, dataMap1) =
                   (if endsWith fileName dataFileSuffix
                    then deserializeData h dataMap (contents f)
                    else (False, dataMap))
             in if isData
                then (dataMap1, qinsert [] (QVString dataFileSuffix) mimeToExtension,
                      watchPath fileName w)
                else if length (contents f) > sizeLimit \<or> format ext = []
                then (dataMap1, qinsert [] (QVString []) mimeToExtension, watchPath fileName w)
                else (qinsert (format ext)
                        (QVByteArray (if endsWith fileName dataFileSuffix then []
                                      else contents f)) dataMap1,
                      qinsert (format ext) (QVString (extension ext)) mimeToExtension,
                      watchPath fileName w))"

definition updateDataAndWatchFile ::
  "Host \<Rightarrow> FileSystem \<Rightarrow> QString \<Rightarrow> BaseNameExtensions
     \<Rightarrow> QVariantMap \<times> QVariantMap \<times> FileWatcher \<Rightarrow> QVariantMap \<times> QVariantMap \<times> FileWatcher" where
  "updateDataAndWatchFile h fs dir baseNameWithExts st =
     fold (updateDataFromFile h fs dir (absoluteFilePath dir (baseName baseNameWithExts)))
       (exts baseNameWithExts) st"

text \<open>
  Modelled from the spec: the host collection's \<open>setData\<close> in its merge mode
  (\<open>contentType::updateData\<close>), which is not among the sources: every entry of the new
  map is stored into the row's data.
\<close>

definition updateData :: "QVariantMap \<Rightarrow> QVariantMap \<Rightarrow> QVariantMap" where
  "updateData newData oldData = fold (\<lambda>kv m. qinsert (fst kv) (snd kv) m) newData oldData"

text \<open>
  \<open>createItem\<close>: a new first row with the data, and its base name recorded for the row;
  \<open>None\<close> where \<open>insertRow(0)\<close> fails.
\<close>

definition createItem :: "Host \<Rightarrow> QVariantMap \<Rightarrow> FileWatcher \<Rightarrow> FileWatcher option" where
  "createItem h dataMap w =
     (if insertRowOk h (length (m_model w))
      then let itemData = updateData dataMap []
           in Some (w\<lparr>m_model := \<lparr>rowData = itemData, indexBaseName = getBaseName itemData\<rparr>
                                   # m_model w\<rparr>)
      else None)"

text \<open>
  The loop of \<open>createItemsFromFiles\<close>: the first component tells whether the function
  went on to its end (after the list or a \<open>break\<close>) rather than returning from inside the
  loop.
\<close>

fun createItemsLoop ::
  "Host \<Rightarrow> FileSystem \<Rightarrow> QString \<Rightarrow> BaseNameExtensionsList \<Rightarrow> FileWatcher
     \<Rightarrow> bool \<times> FileWatcher" where
  "createItemsLoop h fs dir [] w = (True, w)"
| "createItemsLoop h fs dir (baseNameWithExts # fileList) w =
     (let (dataMap, mimeToExtension, w1) =
            updateDataAndWatchFile h fs dir baseNameWithExts ([], [], w)
      in if mimeToExtension \<noteq> []
         then
           let dataMap' = qinsert mimeExtensionMap (QVMap mimeToExtension)
                            (qinsert mimeBaseName
                               (QVString (fileNameOf (baseName baseNameWithExts))) dataMap)
           in case createItem h dataMap' w1 of
                None \<Rightarrow> (False, w1)
              | Some w2 \<Rightarrow>
                  (if int (length (m_model w2)) \<ge> maxItems w2 then (True, w2)
                   else createItemsLoop h fs dir fileList w2)
         else createItemsLoop h fs dir fileList w1)"

definition createItemsFromFiles ::
  "Host \<Rightarrow> FileSystem \<Rightarrow> QString \<Rightarrow> BaseNameExtensionsList \<Rightarrow> FileWatcher \<Rightarrow> FileWatcher" where
  "createItemsFromFiles h fs dir fileList w =
     (let (finished, w') = createItemsLoop h fs dir fileList (disconnectModel w)
      in if finished then connectModel w' else w')"

text \<open>
  The position of the first bucket with the base name, the size of the list when there
  is none: the inner \<open>for\<close> loop of \<open>updateItems\<close>.
\<close>

fun findBucket :: "BaseNameExtensionsList \<Rightarrow> QString \<Rightarrow> nat" where
  "findBucket [] bn = 0"
| "findBucket (b # bs) bn = (if baseName b \<noteq> bn then Suc (findBucket bs bn) else 0)"

definition removeAt :: "nat \<Rightarrow> 'a list \<Rightarrow> 'a list" where
  "removeAt i xs = take i xs @ drop (Suc i) xs"

text \<open>
  The loop of \<open>updateItems\<close> over the rows, in row order: the rows still to visit, the
  buckets not yet taken, and the rows already visited and kept.
\<close>

fun updateRows ::
  "Host \<Rightarrow> FileSystem \<Rightarrow> QString \<Rightarrow> Row list \<Rightarrow> BaseNameExtensionsList \<times> FileWatcher
     \<Rightarrow> Row list \<times> BaseNameExtensionsList \<times> FileWatcher" where
  "updateRows h fs dir [] st = ([], st)"
| "updateRows h fs dir (r # rows) st =
     (let (fileList, w) = st;
          bn = getBaseName (rowData r);
          i = findBucket fileList bn;
          (dataMap, mimeToExtension, w1) =
            (if i < length fileList
             then updateDataAndWatchFile h fs dir (fileList ! i) ([], [], w)
             else ([], [], w));
          fileList1 = (if i < length fileList then removeAt i fileList else fileList)
      in if mimeToExtension = []
         then updateRows h fs dir rows (fileList1, w1)
         else
           let dataMap' = qinsert mimeExtensionMap (QVMap mimeToExtension)
                            (qinsert mimeBaseName (QVString bn) dataMap);
               (kept, st') = updateRows h fs dir rows (fileList1, w1)
           in (r\<lparr>rowData := dataMap'\<rparr> # kept, st'))"

text \<open>
  \<open>FileWatcher::updateItems\<close>, for a model that is alive. The directory is the one the
  watcher was made for.
\<close>

definition updateItems :: "Host \<Rightarrow> FileWatcher \<Rightarrow> FileSystem \<Rightarrow> FileWatcher" where
  "updateItems h w0 fs =
     (let w1 = (disconnectModel w0)\<lparr>modelDisabled := True\<rparr>;
          dir = m_path w1;
          filePaths = map (absoluteFilePath dir) (entryListByTimeReversed fs dir);
          fileList = listFiles fs filePaths (m_formatSettings w1);
          (rows, fileList', w2) = updateRows h fs dir (m_model w1) (fileList, w1);
          w3 = createItemsFromFiles h fs dir fileList' (w2\<lparr>m_model := rows\<rparr>);
          w4 = fold (\<lambda>fileName. watchPath (absoluteFilePath dir fileName)) filePaths w3
      in connectModel (w4\<lparr>modelDisabled := False\<rparr>))"

text \<open>
  The constructor: the watcher for a model, a directory and the paths saved for the
  tab. It reads the saved files into the model and then writes every row.
\<close>

definition newFileWatcher ::
  "Host \<Rightarrow> QString \<Rightarrow> QString list \<Rightarrow> Row list \<Rightarrow> int \<Rightarrow> FileFormat list \<Rightarrow> FileSystem
     \<Rightarrow> FileWatcher \<times> FileSystem" where
  "newFileWatcher h path paths model maxIt formatSettings fs =
     (let w0 = \<lparr>m_path = path, m_formatSettings = formatSettings, m_valid = False,
                m_model = model, maxItems = maxIt, modelDisabled = False,
                watchedFiles = filter (fileExists fs) paths\<rparr>;
          w1 = createItemsFromFiles h fs path (listFiles fs paths formatSettings)
                 (connectModel w0);
          itemCount = length (m_model w1)
      in if itemCount > 0 then saveItems h 0 (itemCount - 1) w1 fs else (w1, fs))"

section \<open>The loader\<close>

text \<open>
  \<open>ItemSyncLoader::saveItems\<close>: the watcher found for the model, if any. The result is
  paired with what was written to the tab's file, \<open>None\<close> when nothing was.
\<close>

definition savedFilesOfRow :: "QString \<Rightarrow> QVariantMap \<Rightarrow> QString list \<Rightarrow> QString list" where
  "savedFilesOfRow path itemData savedFiles =
     (let mimeToExtension = toMap (mapValue itemData mimeExtensionMap);
          filePath = absoluteFilePath path (getBaseName itemData)
      in fold (\<lambda>ext acc. (filePath @ toString ext) # acc) (qvalues mimeToExtension) savedFiles)"

definition loader_saveItems :: "Host \<Rightarrow> FileWatcher option \<Rightarrow> bool \<times> QByteArray option" where
  "loader_saveItems h watcher =
     (case watcher of
        None \<Rightarrow> (False, None)
      | Some w \<Rightarrow>
          if m_path w \<noteq> []
          then (if \<not> m_valid w then (False, None)
                else (True, Some (writeConfiguration h
                        (fold (\<lambda>r acc. savedFilesOfRow (m_path w) (rowData r) acc)
                           (m_model w) []))))
          else (True, Some (writeConfiguration h [])))"

text \<open>The text that \<open>copyItem\<close> makes of a file path: backslashes and line ends escaped.\<close>

definition escapeFilePath :: "QString \<Rightarrow> QString" where
  "escapeFilePath s =
     concat (map (\<lambda>c. if c = CHR 0x5C then [CHR 0x5C, CHR 0x5C]
                       else if c = CHR 0x0A then [CHR 0x5C, CHR ''n'']
                       else if c = CHR 0x0D then [CHR 0x5C, CHR ''r'']
                       else [c]) s)"

definition appendLine :: "QByteArray \<Rightarrow> QByteArray \<Rightarrow> QByteArray" where
  "appendLine acc line = (if acc \<noteq> [] then acc @ [CHR 0x0A] @ line else acc @ line)"

text \<open>
  \<open>ItemSyncLoader::copyItem\<close>; \<open>syncPath\<close> is \<open>tabPath(model)\<close>, the path configured for
  the tab the item is copied from.
\<close>

definition copyItem :: "Host \<Rightarrow> QString \<Rightarrow> QVariantMap \<Rightarrow> QVariantMap" where
  "copyItem h syncPath itemData =
     (let copied0 = qinsert mimeSyncPath (QVString syncPath) itemData;
          updateUriData = \<not> qcontains copied0 mimeUriList;
          updateTextData = \<not> qcontains copied0 mimeText
      in if updateUriData \<or> updateTextData
         then
           let mimeToExtension = toMap (mapValue itemData mimeExtensionMap);
               basePath = syncPath @ ''/'' @ toString (mapValue itemData mimeBaseName);
               filePaths = map (\<lambda>fmt. basePath @ toString (mapValue mimeToExtension fmt))
                             (qkeys mimeToExtension);
               uriData = (if updateUriData
                          then foldl (\<lambda>acc p. appendLine acc (urlFromLocalFile h p)) [] filePaths
                          else []);
               textData = (if updateTextData
                           then foldl (\<lambda>acc p. appendLine acc (escapeFilePath p)) [] filePaths
                           else []);
               noSaveData1 = (if updateUriData
                              then qinsert mimeUriList (QVByteArray (calculateHash h uriData)) []
                              else []);
               copied1 = (if updateUriData
                          then qinsert mimeUriList (QVByteArray uriData) copied0
                          else copied0);
               noSaveData = (if updateTextData
                             then qinsert mimeText (QVByteArray (calculateHash h textData)) noSaveData1
                             else noSaveData1);
               copied2 = (if updateTextData
                          then qinsert mimeText (QVByteArray textData) copied1
                          else copied1)
           in qinsert mimeNoSave (QVMap noSaveData) copied2
         else copied0)"

section \<open>Concrete instances\<close>

text \<open>
  A host with simple services, and watchers, used where a theorem is instantiated at a
  concrete input. The digest has 20 bytes, as a SHA-1 digest has.
\<close>

definition exampleHost :: Host where
  "exampleHost =
     \<lparr>sha1 = (\<lambda>b. take 20 (b @ replicate 20 (CHR ''#''))),
      serializeData = (\<lambda>m. concat (map (\<lambda>kv. fst kv @ ''='' @ toByteArray (snd kv) @ '';'') m)),
      deserializeData = (\<lambda>m b. (b \<noteq> [], qinsert ''application/octet-stream'' (QVByteArray b) m)),
      readQString = (\<lambda>s. (takeWhile (\<lambda>c. c \<noteq> CHR '';'') s,
                            drop 1 (dropWhile (\<lambda>c. c \<noteq> CHR '';'') s))),
      readQVariantMap = (\<lambda>s. (if s = [] then [] else [(configVersion, QVString s)], [])),
      writeQString = (\<lambda>s. s @ '';''),
      writeQVariantMap = (\<lambda>m. toString (mapValue m configVersion)
                               @ concat (map (\<lambda>f. CHR ''|'' # f)
                                           (toStringList (mapValue m tabConfigSavedFiles)))),
      urlFromLocalFile = (\<lambda>p. ''file://'' @ p),
      mkpath = (\<lambda>p. True),
      insertRowOk = (\<lambda>n. True)\<rparr>"

definition unboundWatcher :: FileWatcher where
  "unboundWatcher =
     \<lparr>m_path = [], m_formatSettings = [], m_valid = False, m_model = [], maxItems = 200,
      modelDisabled = False, watchedFiles = []\<rparr>"

definition boundWatcher :: FileWatcher where
  "boundWatcher =
     \<lparr>m_path = ''/d'', m_formatSettings = [], m_valid = True,
      m_model = [\<lparr>rowData = [(mimeBaseName, QVString ''a''),
                              (mimeExtensionMap,
                               QVMap [(''text/html'', QVString ''.html''),
                                      (''text/plain'', QVString ''.txt'')])],
                  indexBaseName = ''a''\<rparr>],
      maxItems = 200, modelDisabled = False, watchedFiles = []\<rparr>"

definition exampleFs :: FileSystem where
  "exampleFs =
     \<lparr>files = [(''/d/a.txt'', \<lparr>contents = ''hello'', lastModified = 3, readable = True,
                                 writable = True, hidden = False\<rparr>),
               (''/d/locked.txt'', \<lparr>contents = ''old'', lastModified = 5, readable = True,
                                      writable = False, hidden = False\<rparr>)],
      clock = 7\<rparr>"

definition bigFile :: QFile where
  "bigFile = \<lparr>contents = replicate 10485761 (CHR ''x''), lastModified = 1, readable = True,
               writable = True, hidden = False\<rparr>"

definition bigFs :: FileSystem where
  "bigFs = \<lparr>files = [(''/d/big.txt'', bigFile)], clock = 2\<rparr>"

definition ignoreTmp :: "FileFormat list" where
  "ignoreTmp = [\<lparr>extensions = [''.tmp''], itemMime = ''-'', icon = []\<rparr>]"

definition tmpFs :: FileSystem where
  "tmpFs =
     \<lparr>files = [(''/d/a.txt'', \<lparr>contents = ''hello'', lastModified = 3, readable = True,
                                 writable = True, hidden = False\<rparr>),
               (''/d/b.tmp'', \<lparr>contents = ''junk'', lastModified = 5, readable = True,
                                 writable = True, hidden = False\<rparr>)],
      clock = 7\<rparr>"

definition emptyWatcher :: FileWatcher where
  "emptyWatcher =
     \<lparr>m_path = ''/d'', m_formatSettings = [], m_valid = True, m_model = [], maxItems = 200,
      modelDisabled = False, watchedFiles = []\<rparr>"

definition hiddenFs :: FileSystem where
  "hiddenFs =
     \<lparr>files = [(''/d/.x.txt'', \<lparr>contents = ''secret'', lastModified = 1, readable = True,
                                  writable = True, hidden = True\<rparr>),
               (''/d/a.txt'', \<lparr>contents = ''hello'', lastModified = 3, readable = True,
                                 writable = True, hidden = False\<rparr>)],
      clock = 7\<rparr>"

definition note42 :: QVariantMap where
  "note42 =
     [(mimeBaseName, QVString ''note42''),
      (mimeExtensionMap, QVMap [(''text/plain'', QVString ''.txt'')]),
      (''text/plain'', QVByteArray ''hi'')]"

definition emptyDir :: FileSystem where
  "emptyDir = \<lparr>files = [], clock = 0\<rparr>"

definition newlineWatcher :: FileWatcher where
  "newlineWatcher =
     \<lparr>m_path = ''/d'', m_formatSettings = [], m_valid = True,
      m_model = [\<lparr>rowData = [(mimeBaseName, QVString [CHR 0x0A]),
                              (''text/plain'', QVByteArray ''x'')],
                  indexBaseName = []\<rparr>],
      maxItems = 200, modelDisabled = False, watchedFiles = []\<rparr>"

definition textWatcher :: FileWatcher where
  "textWatcher =
     \<lparr>m_path = ''/d'', m_formatSettings = [], m_valid = True,
      m_model = [\<lparr>rowData = [(''text/plain'', QVByteArray ''hello'')], indexBaseName = []\<rparr>],
      maxItems = 200, modelDisabled = False, watchedFiles = []\<rparr>"

definition customWatcher :: FileWatcher where
  "customWatcher =
     \<lparr>m_path = ''/d'', m_formatSettings = [], m_valid = True,
      m_model = [\<lparr>rowData = [(''application/x-custom'', QVByteArray ''abc'')],
                  indexBaseName = []\<rparr>],
      maxItems = 200, modelDisabled = False, watchedFiles = []\<rparr>"

text \<open>
  Two user formats of which the first, for \<open>.txt\<close>, comes before one that ignores
  \<open>.bak.txt\<close>, a directory with one file that ends in both, and an item that already
  carries a sync path.
\<close>

definition shadowedIgnore :: "FileFormat list" where
  "shadowedIgnore = [\<lparr>extensions = [''.txt''], itemMime = ''text/x-foo'', icon = []\<rparr>,
                     \<lparr>extensions = [''.bak.txt''], itemMime = ''-'', icon = []\<rparr>]"

definition bakFs :: FileSystem where
  "bakFs =
     \<lparr>files = [(''/d/a.bak.txt'', \<lparr>contents = ''old'', lastModified = 3, readable = True,
                                     writable = True, hidden = False\<rparr>)],
      clock = 7\<rparr>"

definition syncedNote :: QVariantMap where
  "syncedNote =
     [(mimeBaseName, QVString ''n''),
      (mimeSyncPath, QVString ''/old''),
      (''text/plain'', QVByteArray ''hi''),
      (''text/uri-list'', QVByteArray ''file:///old/n.txt'')]"

text \<open>
  A directory with one XML file and an item with two formats that are both saved to it,
  and a watcher with one text item of a given base name and payload.
\<close>

definition xmlFs :: FileSystem where
  "xmlFs =
     \<lparr>files = [(''/d/a.xml'', \<lparr>contents = ''<a/>'', lastModified = 3, readable = True,
                                 writable = True, hidden = False\<rparr>)],
      clock = 7\<rparr>"

definition xmlWatcher :: FileWatcher where
  "xmlWatcher =
     \<lparr>m_path = ''/d'', m_formatSettings = [], m_valid = True,
      m_model = [\<lparr>rowData = [(mimeBaseName, QVString ''a''),
                              (mimeExtensionMap,
                               QVMap [(''application/xml'', QVString ''.xml''),
                                      (''text/xml'', QVString ''.xml'')]),
                              (''application/xml'', QVByteArray ''<a/>''),
                              (''text/xml'', QVByteArray ''<a/>'')],
                  indexBaseName = ''a''\<rparr>],
      maxItems = 200, modelDisabled = False, watchedFiles = []\<rparr>"

definition noteWatcher :: "QString \<Rightarrow> QByteArray \<Rightarrow> FileWatcher" where
  "noteWatcher bn bytes =
     \<lparr>m_path = ''/d'', m_formatSettings = [], m_valid = True,
      m_model = [\<lparr>rowData = [(mimeBaseName, QVString bn),
                              (mimeExtensionMap, QVMap [(''text/plain'', QVString ''.txt'')]),
                              (''text/plain'', QVByteArray bytes)],
                  indexBaseName = bn\<rparr>],
      maxItems = 200, modelDisabled = False, watchedFiles = []\<rparr>"

section \<open>Properties\<close>

subsection \<open>Reading the manifest\<close>

text \<open>
  C7. Reading the manifest succeeds exactly when the header string read from the stream
  is \<open>CopyQ_itemsync_tab\<close> and the version stored in the map read after it, taken as an
  integer (0 when the key is absent), is 1. This holds for every byte stream and
  whatever the stream decoders are.
\<close>

theorem readConfig_succeeds_iff:
  "fst (readConfig h file) \<longleftrightarrow>
     fst (readQString h file) = dataFileHeader
     \<and> toInt (qvalue (fst (readQVariantMap h (snd (readQString h file)))) configVersion (QVInt 0))
         = 1"
  by (simp add: readConfig_def readConfigHeader_def currentVersion_def split: prod.splits)

theorem readConfig_succeeds_iff_witness:
  "fst (readConfig exampleHost ''CopyQ_itemsync_tab;1'')
   \<and> \<not> fst (readConfig exampleHost ''CopyQ_itemsync_tab;2'')
   \<and> \<not> fst (readConfig exampleHost ''CopyQ_itemsync_tab;'')
   \<and> \<not> fst (readConfig exampleHost ''CopyQ_itemsync_tabs;1'')"
  unfolding readConfig_succeeds_iff by code_simp

subsection \<open>Saving a tab\<close>

text \<open>
  C4, as stated, fails: for a watcher whose path is empty, and which is not valid,
  saving the tab succeeds and writes a manifest that lists no file.
\<close>

theorem loader_saveItems_empty_path_succeeds:
  "m_path unboundWatcher = [] \<and> \<not> m_valid unboundWatcher
   \<and> loader_saveItems exampleHost (Some unboundWatcher)
       = (True, Some (writeConfiguration exampleHost []))"
  by (simp add: loader_saveItems_def unboundWatcher_def)

text \<open>The files of the manifest, as a list: the rows' files, the last row's first.\<close>

lemma fold_cons_rev: "fold (\<lambda>x acc. g x # acc) xs acc0 = rev (map g xs) @ acc0"
  by (induction xs arbitrary: acc0) auto

lemma savedFilesOfRow_eq:
  "savedFilesOfRow path itemData savedFiles
     = rev (map (\<lambda>ext. absoluteFilePath path (getBaseName itemData) @ toString ext)
              (qvalues (toMap (mapValue itemData mimeExtensionMap)))) @ savedFiles"
  by (simp add: savedFilesOfRow_def Let_def fold_cons_rev)

lemma savedFiles_fold:
  "fold (\<lambda>r acc. savedFilesOfRow path (rowData r) acc) rows acc0
     = rev (concat (map (\<lambda>r. map (\<lambda>ext. absoluteFilePath path (getBaseName (rowData r))
                                           @ toString ext)
                                 (qvalues (toMap (mapValue (rowData r) mimeExtensionMap))))
                        rows)) @ acc0"
  by (induction rows arbitrary: acc0) (auto simp add: savedFilesOfRow_eq)

text \<open>
  C4, amended. Saving a tab fails exactly when no watcher is found for the model, or the
  watcher's path is not empty and the watcher is not valid; it then writes nothing. A
  manifest is written exactly when it succeeds. With an empty path it succeeds, valid
  or not, and the manifest lists no file. With a path that is not empty and a valid
  watcher it succeeds and the manifest lists, for every row and every extension stored
  in the row's extension map (in the order of the map's keys), the absolute path of the
  row's base name followed by the extension, the files of a later row before those of
  an earlier one and, within a row, in reverse order. The manifest is the header string
  followed by the map of the version, 1, and of the list of files.
\<close>

theorem loader_saveItems_result:
  "(fst (loader_saveItems h watcher) \<longleftrightarrow>
      (\<exists>w. watcher = Some w \<and> (m_path w = [] \<or> m_valid w)))
   \<and> (snd (loader_saveItems h watcher) \<noteq> None \<longleftrightarrow> fst (loader_saveItems h watcher))
   \<and> (\<forall>w. watcher = Some w \<and> m_path w = [] \<longrightarrow>
         loader_saveItems h watcher = (True, Some (writeConfiguration h [])))
   \<and> (\<forall>w. watcher = Some w \<and> m_path w \<noteq> [] \<and> m_valid w \<longrightarrow>
         loader_saveItems h watcher
           = (True, Some (writeConfiguration h
                (rev (concat (map (\<lambda>r. map (\<lambda>ext. absoluteFilePath (m_path w)
                                                      (getBaseName (rowData r)) @ toString ext)
                                          (qvalues (toMap (mapValue (rowData r)
                                                             mimeExtensionMap))))
                                 (m_model w)))))))
   \<and> (\<forall>w. watcher = Some w \<and> m_path w \<noteq> [] \<and> \<not> m_valid w \<longrightarrow>
         loader_saveItems h watcher = (False, None))
   \<and> (watcher = None \<longrightarrow> loader_saveItems h watcher = (False, None))
   \<and> writeConfiguration h savedFiles
       = writeQString h dataFileHeader
         @ writeQVariantMap h [(configVersion, QVInt 1),
                               (tabConfigSavedFiles, QVStringList savedFiles)]"
proof -
  have lt: "configVersion < tabConfigSavedFiles"
    by (simp add: configVersion_def tabConfigSavedFiles_def less_char_def)
  have wc: "writeConfiguration h savedFiles
       = writeQString h dataFileHeader
         @ writeQVariantMap h [(configVersion, QVInt 1),
                               (tabConfigSavedFiles, QVStringList savedFiles)]"
    using lt by (auto simp add: writeConfiguration_def currentVersion_def)
  have a: "(fst (loader_saveItems h watcher) \<longleftrightarrow>
      (\<exists>w. watcher = Some w \<and> (m_path w = [] \<or> m_valid w)))
   \<and> (snd (loader_saveItems h watcher) \<noteq> None \<longleftrightarrow> fst (loader_saveItems h watcher))
   \<and> (\<forall>w. watcher = Some w \<and> m_path w = [] \<longrightarrow>
         loader_saveItems h watcher = (True, Some (writeConfiguration h [])))
   \<and> (\<forall>w. watcher = Some w \<and> m_path w \<noteq> [] \<and> \<not> m_valid w \<longrightarrow>
         loader_saveItems h watcher = (False, None))
   \<and> (watcher = None \<longrightarrow> loader_saveItems h watcher = (False, None))"
    by (auto simp add: loader_saveItems_def split: option.splits)
  have b: "\<forall>w. watcher = Some w \<and> m_path w \<noteq> [] \<and> m_valid w \<longrightarrow>
         loader_saveItems h watcher
           = (True, Some (writeConfiguration h
                (rev (concat (map (\<lambda>r. map (\<lambda>ext. absoluteFilePath (m_path w)
                                                      (getBaseName (rowData r)) @ toString ext)
                                          (qvalues (toMap (mapValue (rowData r)
                                                             mimeExtensionMap))))
                                 (m_model w))))))"
    by (auto simp add: loader_saveItems_def savedFiles_fold)
  show ?thesis using a b wc by blast
qed

theorem loader_saveItems_result_witness:
  "\<not> fst (loader_saveItems exampleHost None)
   \<and> \<not> fst (loader_saveItems exampleHost (Some (boundWatcher\<lparr>m_valid := False\<rparr>)))
   \<and> snd (loader_saveItems exampleHost (Some (boundWatcher\<lparr>m_valid := False\<rparr>))) = None
   \<and> loader_saveItems exampleHost (Some boundWatcher)
       = (True, Some ''CopyQ_itemsync_tab;1|/d/a.txt|/d/a.html'')
   \<and> loader_saveItems exampleHost (Some unboundWatcher)
       = (True, Some ''CopyQ_itemsync_tab;1'')"
proof -
  have p: "m_path boundWatcher = ''/d''" "m_valid boundWatcher" "m_path unboundWatcher = []"
    by (simp_all add: boundWatcher_def unboundWatcher_def)
  have f: "writeConfiguration exampleHost
             (rev (concat (map (\<lambda>r. map (\<lambda>ext. absoluteFilePath (m_path boundWatcher)
                                                   (getBaseName (rowData r)) @ toString ext)
                                       (qvalues (toMap (mapValue (rowData r)
                                                          mimeExtensionMap))))
                              (m_model boundWatcher))))
           = ''CopyQ_itemsync_tab;1|/d/a.txt|/d/a.html''" by code_simp
  have e: "writeConfiguration exampleHost [] = ''CopyQ_itemsync_tab;1''" by code_simp
  note t0 = loader_saveItems_result [of exampleHost None "[]"]
  note t1 = loader_saveItems_result [of exampleHost "Some (boundWatcher\<lparr>m_valid := False\<rparr>)" "[]"]
  note t2 = loader_saveItems_result [of exampleHost "Some boundWatcher" "[]"]
  note t3 = loader_saveItems_result [of exampleHost "Some unboundWatcher" "[]"]
  have a0: "\<not> fst (loader_saveItems exampleHost None)" using t0 by simp
  have a1: "loader_saveItems exampleHost (Some (boundWatcher\<lparr>m_valid := False\<rparr>)) = (False, None)"
    using t1 p by simp
  have a2: "loader_saveItems exampleHost (Some boundWatcher)
       = (True, Some ''CopyQ_itemsync_tab;1|/d/a.txt|/d/a.html'')"
    using t2 p f by simp
  have a3: "loader_saveItems exampleHost (Some unboundWatcher)
       = (True, Some ''CopyQ_itemsync_tab;1'')"
    using t3 p e by simp
  show ?thesis using a0 a1 a2 a3 by simp
qed

subsection \<open>The base-name allocator\<close>

text \<open>Decimal counters: what \<open>arg_padded\<close> prints reads back as the counter.\<close>

lemma digitChar_props:
  assumes "d < 10"
  shows "isDigit (digitChar d)" "digitVal (digitChar d) = d"
  using assms by (simp_all add: isDigit_def digitVal_def digitChar_def)

lemma decimalValue_snoc: "decimalValue (s @ [c]) = 10 * decimalValue s + digitVal c"
  by (simp add: decimalValue_def)

lemma showNat_digits: "list_all isDigit (showNat n)"
proof (induction n rule: showNat.induct)
  case (1 n)
  show ?case
  proof (cases "n < 10")
    case True
    then show ?thesis by (subst showNat.simps) (simp add: digitChar_props)
  next
    case False
    then have "list_all isDigit (showNat (n div 10))" using 1 by simp
    moreover have "isDigit (digitChar (n mod 10))" by (simp add: digitChar_props)
    ultimately show ?thesis using False by (subst showNat.simps) simp
  qed
qed

lemma decimalValue_showNat: "decimalValue (showNat n) = n"
proof (induction n rule: showNat.induct)
  case (1 n)
  show ?case
  proof (cases "n < 10")
    case True
    then show ?thesis
      by (subst showNat.simps) (simp add: decimalValue_def digitChar_props)
  next
    case False
    then have "decimalValue (showNat (n div 10)) = n div 10" using 1 by simp
    then show ?thesis using False
      by (subst showNat.simps) (simp add: decimalValue_snoc digitChar_props)
  qed
qed

lemma decimalValue_zeros: "decimalValue (replicate k (CHR ''0'') @ s) = decimalValue s"
proof (induction k)
  case 0
  then show ?case by simp
next
  case (Suc k)
  have "foldl (\<lambda>a c. 10 * a + digitVal c) 0 (CHR ''0'' # replicate k (CHR ''0'') @ s)
        = foldl (\<lambda>a c. 10 * a + digitVal c) 0 (replicate k (CHR ''0'') @ s)"
    by (simp add: digitVal_def)
  then show ?case using Suc by (simp add: decimalValue_def)
qed

lemma arg_padded_value: "decimalValue (arg_padded j w) = j"
  by (simp add: arg_padded_def decimalValue_zeros decimalValue_showNat)

lemma arg_padded_length: "length (arg_padded j w) = max w (length (showNat j))"
  by (simp add: arg_padded_def)

lemma zeros_digits: "list_all isDigit (replicate k (CHR ''0''))"
  by (simp add: list_all_iff isDigit_def)

lemma arg_padded_digits: "list_all isDigit (arg_padded j w)"
  by (simp add: arg_padded_def showNat_digits zeros_digits)

lemma nextFreeName_Some:
  "nextFreeName b w e used i = Some n \<Longrightarrow>
     n \<notin> set used
     \<and> (\<exists>j. i < j \<and> j \<le> 99999 \<and> n = b @ arg_padded j w @ e
            \<and> (\<forall>k. i < k \<and> k < j \<longrightarrow> b @ arg_padded k w @ e \<in> set used))"
proof (induction b w e used i rule: nextFreeName.induct)
  case (1 b w e used i)
  show ?case
  proof (cases "i \<ge> 99999")
    case True
    then show ?thesis using "1.prems" by (simp add: nextFreeName.simps)
  next
    case False
    show ?thesis
    proof (cases "b @ arg_padded (i + 1) w @ e \<in> set used")
      case True
      then have "nextFreeName b w e used (i + 1) = Some n"
        using "1.prems" False by (subst (asm) nextFreeName.simps) (simp add: Let_def)
      then obtain j where j: "n \<notin> set used" "i + 1 < j" "j \<le> 99999" "n = b @ arg_padded j w @ e"
        "\<forall>k. i + 1 < k \<and> k < j \<longrightarrow> b @ arg_padded k w @ e \<in> set used"
        using "1.IH" False True by auto
      have "\<forall>k. i < k \<and> k < j \<longrightarrow> b @ arg_padded k w @ e \<in> set used"
      proof (intro allI impI)
        fix k assume "i < k \<and> k < j"
        then have "k = i + 1 \<or> (i + 1 < k \<and> k < j)" by arith
        then show "b @ arg_padded k w @ e \<in> set used" using True j(5) by auto
      qed
      then show ?thesis using j by (intro conjI exI[of _ j]) auto
    next
      case notin: False
      then have "n = b @ arg_padded (i + 1) w @ e"
        using "1.prems" False by (subst (asm) nextFreeName.simps) (simp add: Let_def)
      then show ?thesis using notin False by (intro conjI exI[of _ "i + 1"]) auto
    qed
  qed
qed

lemma nextFreeName_None:
  "nextFreeName b w e used i = None \<longleftrightarrow>
     (\<forall>j. i < j \<and> j \<le> 99999 \<longrightarrow> b @ arg_padded j w @ e \<in> set used)"
proof (induction b w e used i rule: nextFreeName.induct)
  case (1 b w e used i)
  show ?case
  proof (cases "i \<ge> 99999")
    case True
    then show ?thesis by (subst nextFreeName.simps) auto
  next
    case False
    show ?thesis
    proof (cases "b @ arg_padded (i + 1) w @ e \<in> set used")
      case True
      then have eq: "nextFreeName b w e used i = nextFreeName b w e used (i + 1)"
        using False by (subst nextFreeName.simps) (simp add: Let_def)
      have ih: "nextFreeName b w e used (i + 1) = None \<longleftrightarrow>
         (\<forall>j. i + 1 < j \<and> j \<le> 99999 \<longrightarrow> b @ arg_padded j w @ e \<in> set used)"
        using "1.IH" False True by simp
      have "(\<forall>j. i + 1 < j \<and> j \<le> 99999 \<longrightarrow> b @ arg_padded j w @ e \<in> set used)
            \<longleftrightarrow> (\<forall>j. i < j \<and> j \<le> 99999 \<longrightarrow> b @ arg_padded j w @ e \<in> set used)"
      proof
        assume a: "\<forall>j. i + 1 < j \<and> j \<le> 99999 \<longrightarrow> b @ arg_padded j w @ e \<in> set used"
        show "\<forall>j. i < j \<and> j \<le> 99999 \<longrightarrow> b @ arg_padded j w @ e \<in> set used"
        proof (intro allI impI)
          fix j assume "i < j \<and> j \<le> 99999"
          then have "j = i + 1 \<or> (i + 1 < j \<and> j \<le> 99999)" by arith
          then show "b @ arg_padded j w @ e \<in> set used" using True a by auto
        qed
      next
        assume "\<forall>j. i < j \<and> j \<le> 99999 \<longrightarrow> b @ arg_padded j w @ e \<in> set used"
        then show "\<forall>j. i + 1 < j \<and> j \<le> 99999 \<longrightarrow> b @ arg_padded j w @ e \<in> set used" by auto
      qed
      then show ?thesis using eq ih by simp
    next
      case notin: False
      then have "nextFreeName b w e used i \<noteq> None"
        using False by (subst nextFreeName.simps) (simp add: Let_def)
      moreover have "\<not> (\<forall>j. i < j \<and> j \<le> 99999 \<longrightarrow> b @ arg_padded j w @ e \<in> set used)"
        using notin False by (intro notI) (auto dest: spec[of _ "i + 1"])
      ultimately show ?thesis by blast
    qed
  qed
qed

lemma trailingDigits_split:
  "take (length s - length (trailingDigits s)) s @ trailingDigits s = s"
proof -
  have "rev s = takeWhile isDigit (rev s) @ dropWhile isDigit (rev s)" by simp
  then have "s = rev (dropWhile isDigit (rev s)) @ rev (takeWhile isDigit (rev s))"
    by (metis rev_append rev_rev_ident)
  moreover have "length (rev (dropWhile isDigit (rev s))) = length s - length (trailingDigits s)"
    by (simp add: trailingDigits_def length_dropWhile_le) (metis length_rev length_append takeWhile_dropWhile_id add_diff_cancel_left')
  ultimately show ?thesis
    by (metis append_eq_conv_conj trailingDigits_def)
qed

lemma trailingDigits_digits: "list_all isDigit (trailingDigits s)"
  by (auto simp add: trailingDigits_def list_all_iff dest: set_takeWhileD)


lemma renameToUnique_used_eq:
  assumes "sanitizeName name0 \<in> set usedNames"
    and "splitExtension (sanitizeName name0) formatSettings = (base0, ext)"
    and "trailingDigits base0 = num"
    and "(if num \<noteq> [] then take (length base0 - length num) base0 else base0 @ ''-'') = stem"
    and "(if num \<noteq> [] then toInt_digits num else 0) = start"
  shows "renameToUnique name0 usedNames formatSettings =
           (case nextFreeName stem (length num) ext usedNames start of
              None \<Rightarrow> None
            | Some n \<Rightarrow> Some (n, usedNames @ [n]))"
  using assms by (auto simp add: renameToUnique_def Let_def)

lemma renameToUnique_fresh:
  assumes "renameToUnique name0 usedNames formatSettings = Some (n, used')"
  shows "n \<notin> set usedNames \<and> used' = usedNames @ [n]"
proof (cases "sanitizeName name0 \<in> set usedNames")
  case False
  then show ?thesis using assms by (auto simp add: renameToUnique_def Let_def)
next
  case True
  obtain base0 ext where sp: "splitExtension (sanitizeName name0) formatSettings = (base0, ext)"
    by (cases "splitExtension (sanitizeName name0) formatSettings")
  from renameToUnique_used_eq [OF True sp refl refl refl] assms
  show ?thesis by (auto split: option.splits dest: nextFreeName_Some)
qed

text \<open>The base and the extension split off a name make up the name.\<close>

lemma firstExtensionMatch_endsWith:
  "firstExtensionMatch fileName es = Some e \<Longrightarrow> endsWith fileName e"
  by (induction es) (auto split: if_splits)

lemma getFormatSettingsFromFileName_endsWith:
  "getFormatSettingsFromFileName fileName formatSettings e0 = (f, e) \<Longrightarrow>
     e = e0 \<or> endsWith fileName e"
  by (induction formatSettings)
    (auto split: option.splits dest: firstExtensionMatch_endsWith)

lemma left_endsWith: "endsWith s e \<Longrightarrow> left s (int (length s) - int (length e)) @ e = s"
proof -
  assume a: "endsWith s e"
  then have le: "length e \<le> length s" and d: "drop (length s - length e) s = e"
    by (simp_all add: endsWith_def)
  show ?thesis
  proof (cases "e = []")
    case True
    then show ?thesis by (simp add: left_def)
  next
    case False
    then have "left s (int (length s) - int (length e)) = take (length s - length e) s"
      using le by (auto simp add: left_def nat_diff_distrib')
    then show ?thesis using d by (metis append_take_drop_id)
  qed
qed

lemma lastIndexOf_less: "lastIndexOf s c = Some i \<Longrightarrow> i < length s"
  by (induction s arbitrary: i) (auto split: option.splits if_splits)

lemma endsWith_drop: "i \<le> length s \<Longrightarrow> endsWith s (drop i s)"
  by (simp add: endsWith_def)

lemma endsWith_Nil: "endsWith s []"
  by (simp add: endsWith_def)

lemma splitExtension_concat:
  assumes "splitExtension name formatSettings = (base0, ext)"
  shows "base0 @ ext = name"
proof -
  obtain f e0 where g: "getFormatSettingsFromFileName name formatSettings [] = (f, e0)"
    by (cases "getFormatSettingsFromFileName name formatSettings []")
  define e1 where "e1 = (if \<not> isValid f
                  then (case lastIndexOf name (CHR ''.'') of
                          Some i \<Rightarrow> drop i name
                        | None \<Rightarrow> e0)
                  else e0)"
  have e0: "endsWith name e0"
    using getFormatSettingsFromFileName_endsWith [OF g] endsWith_Nil by auto
  have e1: "endsWith name e1"
    unfolding e1_def using e0
    by (auto split: option.splits dest!: lastIndexOf_less intro!: endsWith_drop)
  define b where "b = left name (int (length name) - int (length e1))"
  have c: "b @ e1 = name" unfolding b_def using e1 by (rule left_endsWith)
  have s: "splitExtension name formatSettings
             = (if endsWith b ''.'' then (butlast b, CHR ''.'' # e1) else (b, e1))"
    by (simp add: splitExtension_def g Let_def e1_def b_def)
  show ?thesis
  proof (cases "endsWith b ''.''")
    case True
    then have "b \<noteq> []" by (auto simp add: endsWith_def)
    moreover from True have "last b = CHR ''.''"
      by (auto simp add: endsWith_def last_drop dest!: arg_cong [where f = last])
    ultimately have "butlast b @ [CHR ''.''] = b" by (metis append_butlast_last_id)
    then have "butlast b @ CHR ''.'' # e1 = name"
      using c by (metis append.assoc append_Cons append_Nil)
    then show ?thesis using assms s True by auto
  next
    case False
    then show ?thesis using assms s c by auto
  qed
qed

text \<open>A name without unsafe characters is left as it is.\<close>

lemma replaceUnsafe_clean:
  assumes "name \<noteq> []" "hd name \<noteq> CHR ''.''" "\<forall>c \<in> set name. \<not> unsafeChar c"
  shows "replaceUnsafe name = name"
proof (cases name)
  case Nil
  then show ?thesis using assms by simp
next
  case (Cons c cs)
  then have "map (\<lambda>x. if unsafeChar x then CHR ''_'' else x) cs = cs"
    using assms by (simp add: map_idI)
  then show ?thesis using Cons assms by simp
qed

lemma sanitizeName_clean:
  assumes "name \<noteq> []" "hd name \<noteq> CHR ''.''"
    and "\<forall>c \<in> set name. \<not> unsafeChar c \<and> c \<noteq> CHR 0x0A \<and> c \<noteq> CHR 0x0D"
  shows "sanitizeName name = name"
proof -
  have "replaceUnsafe name = name" using assms by (simp add: replaceUnsafe_clean)
  moreover have "removeNewlines name = name"
    unfolding removeNewlines_def using assms by (simp add: filter_id_conv)
  ultimately show ?thesis using assms by (simp add: sanitizeName_def)
qed

lemma renameToUnique_unused:
  "sanitizeName name0 \<notin> set usedNames \<Longrightarrow>
     renameToUnique name0 usedNames formatSettings
       = Some (sanitizeName name0, usedNames @ [sanitizeName name0])"
  by (simp add: renameToUnique_def Let_def)

text \<open>
  C6, as stated, fails: the name \<open>foo99999.txt\<close> is used and its base ends in digits,
  yet the allocator returns no name at all, since the counter has reached 99999.
\<close>

theorem renameToUnique_counter_exhausted:
  "sanitizeName ''foo99999.txt'' \<in> set [''foo99999.txt'']
   \<and> renameToUnique ''foo99999.txt'' [''foo99999.txt''] [] = None"
  by code_simp

text \<open>
  C6, amended. The allocator first sanitises the proposed name: the empty name becomes
  \<open>copyq_0000\<close>; in any other name every slash and backslash and a dot at the very
  start become an underscore, and line feeds and carriage returns are removed. A name
  that is not empty, does not start with a dot and has none of these characters is
  left as it is. When the sanitised name is not among the used names, it is returned as
  it is, with no counter, and appended to the used names. When the sanitised name is
  used, let \<open>base0\<close> and \<open>ext\<close> be the base and the extension split off it (together
  they make up the sanitised name), \<open>num\<close> the run of digits at the end of \<open>base0\<close>,
  \<open>stem\<close> the base without that run (or the base followed by a dash when there is no
  run) and \<open>start\<close> the counter read from the run as a 32-bit integer (0 when there is
  no run or it does not fit). The allocator then fails exactly when every counter above
  \<open>start\<close> up to 99999 gives a used name; otherwise it returns \<open>stem\<close>, the first such
  counter whose name is free, padded with zeros to the width of \<open>num\<close>, and \<open>ext\<close>.
  Whenever the allocator returns a name, the name is not among the used names, and it
  is appended to them.
\<close>

theorem renameToUnique_disambiguates:
  assumes split: "splitExtension (sanitizeName name0) formatSettings = (base0, ext)"
    and num: "trailingDigits base0 = num"
    and stem: "(if num \<noteq> [] then take (length base0 - length num) base0 else base0 @ ''-'') = stem"
    and start: "(if num \<noteq> [] then toInt_digits num else 0) = start"
  shows "(\<forall>n used'. renameToUnique name0 usedNames formatSettings = Some (n, used') \<longrightarrow>
            n \<notin> set usedNames \<and> used' = usedNames @ [n])
       \<and> (sanitizeName name0 \<in> set usedNames \<longrightarrow>
            (renameToUnique name0 usedNames formatSettings = None \<longleftrightarrow>
               (\<forall>j. start < j \<and> j \<le> 99999 \<longrightarrow>
                    stem @ arg_padded j (length num) @ ext \<in> set usedNames))
            \<and> (\<forall>n used'. renameToUnique name0 usedNames formatSettings = Some (n, used') \<longrightarrow>
                 (\<exists>j. start < j \<and> j \<le> 99999 \<and> n = stem @ arg_padded j (length num) @ ext
                      \<and> (\<forall>k. start < k \<and> k < j \<longrightarrow>
                             stem @ arg_padded k (length num) @ ext \<in> set usedNames))))
       \<and> (\<forall>j. decimalValue (arg_padded j (length num)) = j
              \<and> length (arg_padded j (length num)) = max (length num) (length (showNat j)))
       \<and> (num \<noteq> [] \<longrightarrow> base0 = stem @ num)
       \<and> (sanitizeName name0 \<notin> set usedNames \<longrightarrow>
            renameToUnique name0 usedNames formatSettings
              = Some (sanitizeName name0, usedNames @ [sanitizeName name0]))
       \<and> base0 @ ext = sanitizeName name0
       \<and> sanitizeName [] = ''copyq_0000''
       \<and> (name0 \<noteq> [] \<longrightarrow> sanitizeName name0 = removeNewlines (replaceUnsafe name0))
       \<and> (name0 \<noteq> [] \<and> hd name0 \<noteq> CHR ''.''
            \<and> (\<forall>c \<in> set name0. \<not> unsafeChar c \<and> c \<noteq> CHR 0x0A \<and> c \<noteq> CHR 0x0D) \<longrightarrow>
            sanitizeName name0 = name0)"
proof (intro conjI allI impI)
  fix n used'
  assume "renameToUnique name0 usedNames formatSettings = Some (n, used')"
  then show "n \<notin> set usedNames" "used' = usedNames @ [n]"
    using renameToUnique_fresh by blast+
next
  assume u: "sanitizeName name0 \<in> set usedNames"
  note eq = renameToUnique_used_eq [OF u split num stem start]
  show "renameToUnique name0 usedNames formatSettings = None \<longleftrightarrow>
          (\<forall>j. start < j \<and> j \<le> 99999 \<longrightarrow>
               stem @ arg_padded j (length num) @ ext \<in> set usedNames)"
    using eq nextFreeName_None [of stem "length num" ext usedNames start]
    by (auto split: option.splits)
next
  fix n used'
  assume u: "sanitizeName name0 \<in> set usedNames"
    and r: "renameToUnique name0 usedNames formatSettings = Some (n, used')"
  note eq = renameToUnique_used_eq [OF u split num stem start]
  from eq r have "nextFreeName stem (length num) ext usedNames start = Some n"
    by (auto split: option.splits)
  then show "\<exists>j. start < j \<and> j \<le> 99999 \<and> n = stem @ arg_padded j (length num) @ ext
                \<and> (\<forall>k. start < k \<and> k < j \<longrightarrow>
                       stem @ arg_padded k (length num) @ ext \<in> set usedNames)"
    using nextFreeName_Some by blast
next
  fix j
  show "decimalValue (arg_padded j (length num)) = j" by (rule arg_padded_value)
  show "length (arg_padded j (length num)) = max (length num) (length (showNat j))"
    by (rule arg_padded_length)
next
  assume "num \<noteq> []"
  then show "base0 = stem @ num"
    using trailingDigits_split [of base0] num stem by simp
next
  assume "sanitizeName name0 \<notin> set usedNames"
  then show "renameToUnique name0 usedNames formatSettings
               = Some (sanitizeName name0, usedNames @ [sanitizeName name0])"
    by (rule renameToUnique_unused)
next
  show "base0 @ ext = sanitizeName name0" using split by (rule splitExtension_concat)
next
  show "sanitizeName [] = ''copyq_0000''" by (simp add: sanitizeName_def)
next
  assume "name0 \<noteq> []"
  then show "sanitizeName name0 = removeNewlines (replaceUnsafe name0)"
    by (simp add: sanitizeName_def)
next
  assume "name0 \<noteq> [] \<and> hd name0 \<noteq> CHR ''.''
            \<and> (\<forall>c \<in> set name0. \<not> unsafeChar c \<and> c \<noteq> CHR 0x0A \<and> c \<noteq> CHR 0x0D)"
  then show "sanitizeName name0 = name0" using sanitizeName_clean by blast
qed

theorem renameToUnique_disambiguates_witness:
  "renameToUnique ''foo001.txt'' [''foo001.txt''] []
     = Some (''foo002.txt'', [''foo001.txt'', ''foo002.txt''])
   \<and> ''foo002.txt'' \<notin> set [''foo001.txt'']
   \<and> renameToUnique ''foo.txt'' [''foo.txt''] [] = Some (''foo-1.txt'', [''foo.txt'', ''foo-1.txt''])
   \<and> ''foo-1.txt'' \<notin> set [''foo.txt'']
   \<and> ''foo001'' = ''foo'' @ ''001''
   \<and> ''foo001'' @ ''.txt'' = sanitizeName ''foo001.txt''
   \<and> sanitizeName ''foo001.txt'' = ''foo001.txt''
   \<and> renameToUnique ''a/b'' [''a/b''] [] = Some (''a_b'', [''a/b'', ''a_b''])
   \<and> renameToUnique [] [[]] [] = Some (''copyq_0000'', [[], ''copyq_0000''])"
proof -
  have s1: "splitExtension (sanitizeName ''foo001.txt'') [] = (''foo001'', ''.txt'')"
    by code_simp
  have n1: "trailingDigits ''foo001'' = ''001''" by code_simp
  have t1: "(if ''001'' \<noteq> [] then take (length ''foo001'' - length ''001'') ''foo001''
             else ''foo001'' @ ''-'') = ''foo''" by simp
  have i1: "(if ''001'' \<noteq> [] then toInt_digits ''001'' else 0) = 1"
    by (simp add: toInt_digits_def decimalValue_def digitVal_def)
  have r1: "renameToUnique ''foo001.txt'' [''foo001.txt''] []
              = Some (''foo002.txt'', [''foo001.txt'', ''foo002.txt''])" by code_simp
  have s2: "splitExtension (sanitizeName ''foo.txt'') [] = (''foo'', ''.txt'')"
    by code_simp
  have n2: "trailingDigits ''foo'' = []" by code_simp
  have t2: "(if ([]::string) \<noteq> [] then take (length ''foo'' - length ([]::string)) ''foo''
             else ''foo'' @ ''-'') = ''foo-''" by simp
  have i2: "(if ([]::string) \<noteq> [] then toInt_digits [] else 0) = 0" by simp
  have r2: "renameToUnique ''foo.txt'' [''foo.txt''] []
              = Some (''foo-1.txt'', [''foo.txt'', ''foo-1.txt''])" by code_simp
  have s3: "splitExtension (sanitizeName ''a/b'') [] = (''a_b'', [])" by code_simp
  have n3: "trailingDigits ''a_b'' = []" by code_simp
  have t3: "(if ([]::string) \<noteq> [] then take (length ''a_b'' - length ([]::string)) ''a_b''
             else ''a_b'' @ ''-'') = ''a_b-''" by simp
  have u3: "sanitizeName ''a/b'' = ''a_b''" by code_simp
  have s4: "splitExtension (sanitizeName []) [] = (''copyq_0000'', [])" by code_simp
  have n4: "trailingDigits ''copyq_0000'' = ''0000''" by code_simp
  have t4: "(if ''0000'' \<noteq> [] then take (length ''copyq_0000'' - length ''0000'') ''copyq_0000''
             else ''copyq_0000'' @ ''-'') = ''copyq_''" by simp
  have i4: "(if ''0000'' \<noteq> [] then toInt_digits ''0000'' else 0) = 0"
    by (simp add: toInt_digits_def decimalValue_def digitVal_def)
  have c1: "''foo001.txt'' \<noteq> [] \<and> hd ''foo001.txt'' \<noteq> CHR ''.''
            \<and> (\<forall>c \<in> set ''foo001.txt''. \<not> unsafeChar c \<and> c \<noteq> CHR 0x0A \<and> c \<noteq> CHR 0x0D)"
    by (simp add: unsafeChar_def)
  note a1 = renameToUnique_disambiguates [OF s1 n1 t1 i1, of "[''foo001.txt'']"]
  note a2 = renameToUnique_disambiguates [OF s2 n2 t2 i2, of "[''foo.txt'']"]
  note a3 = renameToUnique_disambiguates [OF s3 n3 t3 i2, of "[''a/b'']"]
  note a4 = renameToUnique_disambiguates [OF s4 n4 t4 i4, of "[[]]"]
  note p5 = conjunct2 [THEN conjunct2, THEN conjunct2, THEN conjunct2]
  have f1: "''foo002.txt'' \<notin> set [''foo001.txt'']"
    using a1 [THEN conjunct1] r1 by blast
  have f2: "''foo-1.txt'' \<notin> set [''foo.txt'']"
    using a2 [THEN conjunct1] r2 by blast
  have f3: "''foo001'' = ''foo'' @ ''001''"
    using a1 [THEN conjunct2, THEN conjunct2, THEN conjunct2, THEN conjunct1] by simp
  have f4: "''foo001'' @ ''.txt'' = sanitizeName ''foo001.txt''"
    using a1 [THEN p5, THEN conjunct2, THEN conjunct1] .
  have f5: "sanitizeName ''foo001.txt'' = ''foo001.txt''"
    using a1 [THEN p5, THEN conjunct2, THEN conjunct2, THEN conjunct2, THEN conjunct2,
        rule_format, OF c1] .
  have u3': "sanitizeName ''a/b'' \<notin> set [''a/b'']" by (simp add: u3)
  have f6: "renameToUnique ''a/b'' [''a/b''] [] = Some (''a_b'', [''a/b'', ''a_b''])"
    using a3 [THEN p5, THEN conjunct1, rule_format, OF u3'] unfolding u3 by simp
  have u4: "sanitizeName [] = ''copyq_0000''"
    using a4 [THEN p5, THEN conjunct2, THEN conjunct2, THEN conjunct1] .
  have u4': "sanitizeName [] \<notin> set [[]]" by (simp add: u4)
  have f7: "renameToUnique [] [[]] [] = Some (''copyq_0000'', [[], ''copyq_0000''])"
    using a4 [THEN p5, THEN conjunct1, rule_format, OF u4'] unfolding u4 by simp
  show ?thesis using r1 r2 f1 f2 f3 f4 f5 f6 f7 by (intro conjI)
qed

subsection \<open>Content hashes and write elision\<close>

text \<open>Maps and files: what a lookup finds after an insertion, a removal or a write.\<close>

lemma map_of_qinsert: "map_of (qinsert k v m) = (map_of m)(k \<mapsto> v)"
  by (induction m) (auto simp add: fun_eq_iff)

lemma map_of_qremove: "map_of (qremove k m) = (map_of m)(k := None)"
  by (induction m) (auto simp add: qremove_def fun_eq_iff)

lemma multiValues_member: "p \<in> set (multiValues m hash) \<longleftrightarrow> (hash, p) \<in> set m"
  by (auto simp add: multiValues_def image_iff)

lemma writeFile_lookup:
  assumes "writeFile fs path bytes = Some fs'"
  shows "map_option contents (lookupFile fs' path) = Some bytes"
    and "map_option lastModified (lookupFile fs' path) = Some (clock fs)"
    and "p \<noteq> path \<Longrightarrow> lookupFile fs' p = lookupFile fs p"
  using assms
  by (auto simp add: writeFile_def lookupFile_def map_of_qinsert split: option.splits if_splits)

lemma writeFile_None:
  "writeFile fs path bytes = None \<longleftrightarrow> (\<exists>f. lookupFile fs path = Some f \<and> \<not> writable f)"
  by (auto simp add: writeFile_def split: option.splits)

lemma saveItemFile_skip:
  "(calculateHash h bytes, filePath) \<in> set existingFiles \<Longrightarrow>
     saveItemFile h filePath bytes existingFiles fs
       = (True, multiRemove existingFiles (calculateHash h bytes) filePath, fs)"
  by (simp add: saveItemFile_def Let_def multiValues_member)

lemma saveItemFile_write:
  "(calculateHash h bytes, filePath) \<notin> set existingFiles \<Longrightarrow>
     saveItemFile h filePath bytes existingFiles fs
       = (case writeFile fs filePath bytes of
            None \<Rightarrow> (False, existingFiles, fs)
          | Some fs' \<Rightarrow> (True, existingFiles, fs'))"
  by (simp add: saveItemFile_def Let_def multiValues_member)

lemma renameRow_valid:
  "renameRow i (used, w, fs) = Some (used', w', fs') \<Longrightarrow> m_valid w' = m_valid w"
  by (auto simp add: renameRow_def Let_def split: option.splits prod.splits if_splits)

lemma renameRows_valid:
  "renameRows is (used, w, fs) = (ok, used', w', fs') \<Longrightarrow> m_valid w' = m_valid w"
proof (induction "is" arbitrary: used w fs)
  case Nil
  then show ?case by simp
next
  case (Cons i "is")
  show ?case
  proof (cases "renameRow i (used, w, fs)")
    case None
    then show ?thesis using Cons.prems by simp
  next
    case (Some st)
    obtain u1 w1 fs1 where st: "st = (u1, w1, fs1)" by (cases st) auto
    have "m_valid w1 = m_valid w" using Some st renameRow_valid by blast
    moreover have "m_valid w' = m_valid w1" using Cons.IH [of u1 w1 fs1] Cons.prems Some st by simp
    ultimately show ?thesis by simp
  qed
qed

lemma saveRow_valid:
  "saveRow h r (w, ex, fs) = (ok, w', ex', fs') \<Longrightarrow> m_valid w' = m_valid w"
  by (auto simp add: saveRow_def Let_def split: prod.splits if_splits)

lemma saveRows_valid:
  "saveRows h rs (w, ex, fs) = (ok, w', ex', fs') \<Longrightarrow> m_valid w' = m_valid w"
proof (induction rs arbitrary: w ex fs)
  case Nil
  then show ?case by simp
next
  case (Cons r rs)
  obtain ok1 w1 ex1 fs1 where s: "saveRow h r (w, ex, fs) = (ok1, w1, ex1, fs1)"
    by (cases "saveRow h r (w, ex, fs)") auto
  have v1: "m_valid w1 = m_valid w" using s saveRow_valid by blast
  show ?case
  proof (cases ok1)
    case True
    then have "saveRows h rs (w1, ex1, fs1) = (ok, w', ex', fs')" using Cons.prems s by simp
    then show ?thesis using Cons.IH v1 by simp
  next
    case False
    then show ?thesis using Cons.prems s v1 by simp
  qed
qed

lemma saveItems_valid_only_if_saved:
  assumes "m_valid (fst (saveItems h firstRow lastRow w fs))"
  shows "\<exists>w1 fs1 st. watcher_renameToUnique firstRow lastRow (disconnectModel w) fs = (True, w1, fs1)
           \<and> saveRows h [firstRow..<Suc lastRow] (w1, listFiles_dir h fs1 (m_path w1), fs1)
                = (True, st)"
proof -
  obtain ok1 w1 fs1 where r: "watcher_renameToUnique firstRow lastRow (disconnectModel w) fs = (ok1, w1, fs1)"
    by (cases "watcher_renameToUnique firstRow lastRow (disconnectModel w) fs") auto
  have v1: "\<not> m_valid w1"
    using r renameRows_valid [of "[firstRow..<Suc lastRow]" _ "disconnectModel w" fs]
    by (auto simp add: watcher_renameToUnique_def Let_def disconnectModel_def split: prod.splits)
  obtain ok2 w2 ex2 fs2 where
    s: "saveRows h [firstRow..<Suc lastRow] (w1, listFiles_dir h fs1 (m_path w1), fs1) = (ok2, w2, ex2, fs2)"
    by (cases "saveRows h [firstRow..<Suc lastRow] (w1, listFiles_dir h fs1 (m_path w1), fs1)") auto
  have v2: "\<not> m_valid w2" using saveRows_valid [OF s] v1 by simp
  have "ok1 \<and> ok2"
    using assms r s v1 v2
    by (auto simp add: saveItems_def Let_def connectModel_def split: if_splits)
  then show ?thesis using r s by auto
qed

text \<open>What one round of the loop over the formats does, by the kind of format.\<close>

lemma saveFormat_saved:
  assumes "formatIsSaved h old ns itemData fmt"
  shows "saveFormat h basePath old ns fmt (itemData, m2e, unk, ex, fs)
           = (case saveItemFile h (basePath @ formatExtension old fmt)
                     (toByteArray (mapValue itemData fmt)) ex fs of
                (ok, ex', fs') \<Rightarrow>
                  (ok, itemData, qinsert fmt (QVString (formatExtension old fmt)) m2e, unk,
                   ex', fs'))"
  using assms
  by (auto simp add: saveFormat_def formatIsSaved_def formatExtension_def Let_def
      split: prod.splits)

lemma saveFormat_not_saved:
  assumes "\<not> formatIsSaved h old ns itemData fmt"
  shows "\<exists>itemData' unk'.
           saveFormat h basePath old ns fmt (itemData, m2e, unk, ex, fs)
             = (True, itemData', m2e, unk', ex, fs)
           \<and> (itemData' = itemData \<or> itemData' = qremove fmt itemData)"
  using assms
  by (auto simp add: saveFormat_def formatIsSaved_def formatExtension_def Let_def
      split: prod.splits)

lemma mapValue_qremove: "k' \<noteq> k \<Longrightarrow> mapValue (qremove k m) k' = mapValue m k'"
  by (simp add: mapValue_def qvalue_def map_of_qremove)

lemma formatIsSaved_qremove:
  "f \<noteq> fmt \<Longrightarrow> formatIsSaved h old ns (qremove fmt itemData) f = formatIsSaved h old ns itemData f"
  by (simp add: formatIsSaved_def mapValue_qremove)

text \<open>
  The loop over the formats of a row writes nothing when the pair of every payload it
  saves is among the existing files and no two of these pairs are the same.
\<close>

lemma saveFormats_all_elided:
  assumes "distinct fmts"
    and "\<forall>fmt \<in> set fmts. formatIsSaved h old ns itemData fmt \<longrightarrow>
           (calculateHash h (toByteArray (mapValue itemData fmt)),
            basePath @ formatExtension old fmt) \<in> set ex"
    and "distinct (map (\<lambda>fmt. (calculateHash h (toByteArray (mapValue itemData fmt)),
                                basePath @ formatExtension old fmt))
                    (filter (formatIsSaved h old ns itemData) fmts))"
  shows "\<exists>itemData' m2e' unk'.
           saveFormats h basePath old ns fmts (itemData, m2e, unk, ex, fs)
             = (True, itemData', m2e', unk',
                filter (\<lambda>e. e \<notin> set (map (\<lambda>fmt. (calculateHash h (toByteArray (mapValue itemData fmt)),
                                                    basePath @ formatExtension old fmt))
                                        (filter (formatIsSaved h old ns itemData) fmts))) ex,
                fs)"
  using assms
proof (induction fmts arbitrary: itemData m2e unk ex)
  case Nil
  then show ?case by simp
next
  case (Cons fmt fmts)
  let ?pair = "\<lambda>d f. (calculateHash h (toByteArray (mapValue d f)), basePath @ formatExtension old f)"
  have nf: "fmt \<notin> set fmts" and df: "distinct fmts" using Cons.prems(1) by simp_all
  show ?case
  proof (cases "formatIsSaved h old ns itemData fmt")
    case True
    have inx: "?pair itemData fmt \<in> set ex" using Cons.prems(2) True by simp
    have step: "saveFormat h basePath old ns fmt (itemData, m2e, unk, ex, fs)
             = (True, itemData, qinsert fmt (QVString (formatExtension old fmt)) m2e, unk,
                multiRemove ex (calculateHash h (toByteArray (mapValue itemData fmt)))
                  (basePath @ formatExtension old fmt), fs)"
      using saveFormat_saved [OF True] saveItemFile_skip [OF inx] by simp
    let ?ex1 = "multiRemove ex (calculateHash h (toByteArray (mapValue itemData fmt)))
                  (basePath @ formatExtension old fmt)"
    have d2: "distinct (map (?pair itemData) (filter (formatIsSaved h old ns itemData) fmts))"
      and notin: "?pair itemData fmt \<notin> set (map (?pair itemData)
                                          (filter (formatIsSaved h old ns itemData) fmts))"
      using Cons.prems(3) True by simp_all
    have p2: "\<forall>f \<in> set fmts. formatIsSaved h old ns itemData f \<longrightarrow> ?pair itemData f \<in> set ?ex1"
    proof (intro ballI impI)
      fix f assume f: "f \<in> set fmts" and s: "formatIsSaved h old ns itemData f"
      then have "?pair itemData f \<in> set ex" using Cons.prems(2) by simp
      moreover have "?pair itemData f \<in> set (map (?pair itemData)
                                          (filter (formatIsSaved h old ns itemData) fmts))"
        using f s by (simp add: image_iff) blast
      then have "?pair itemData f \<noteq> ?pair itemData fmt" using notin by metis
      ultimately show "?pair itemData f \<in> set ?ex1" by (simp add: multiRemove_def)
    qed
    from Cons.IH [OF df p2 d2, of "qinsert fmt (QVString (formatExtension old fmt)) m2e" unk]
    obtain itemData' m2e' unk' where
      r: "saveFormats h basePath old ns fmts
            (itemData, qinsert fmt (QVString (formatExtension old fmt)) m2e, unk, ?ex1, fs)
          = (True, itemData', m2e', unk',
             filter (\<lambda>e. e \<notin> set (map (?pair itemData)
                                      (filter (formatIsSaved h old ns itemData) fmts))) ?ex1, fs)"
      by blast
    have e: "filter (\<lambda>e. e \<notin> set (map (?pair itemData)
                                      (filter (formatIsSaved h old ns itemData) fmts))) ?ex1
           = filter (\<lambda>e. e \<notin> set (map (?pair itemData)
                                      (filter (formatIsSaved h old ns itemData) (fmt # fmts)))) ex"
      using True by (auto simp add: multiRemove_def intro: filter_cong)
    show ?thesis using step r e by simp
  next
    case False
    from saveFormat_not_saved [OF False, of basePath m2e unk ex fs]
    obtain itemData1 unk1 where
      step: "saveFormat h basePath old ns fmt (itemData, m2e, unk, ex, fs)
             = (True, itemData1, m2e, unk1, ex, fs)"
      and i1: "itemData1 = itemData \<or> itemData1 = qremove fmt itemData" by blast
    have same: "\<forall>f \<in> set fmts. mapValue itemData1 f = mapValue itemData f"
      using i1 nf by (metis mapValue_qremove)
    have sv: "\<forall>f \<in> set fmts. formatIsSaved h old ns itemData1 f = formatIsSaved h old ns itemData f"
      using i1 nf by (metis formatIsSaved_qremove)
    have fl: "filter (formatIsSaved h old ns itemData1) fmts
                = filter (formatIsSaved h old ns itemData) fmts"
      using sv by (auto intro: filter_cong)
    have mp: "map (?pair itemData1) (filter (formatIsSaved h old ns itemData) fmts)
                = map (?pair itemData) (filter (formatIsSaved h old ns itemData) fmts)"
      using same by (auto intro: map_cong)
    have p2: "\<forall>f \<in> set fmts. formatIsSaved h old ns itemData1 f \<longrightarrow> ?pair itemData1 f \<in> set ex"
      using Cons.prems(2) same sv by simp
    have d0: "distinct (map (?pair itemData) (filter (formatIsSaved h old ns itemData) fmts))"
      using Cons.prems(3) False by simp
    have d2: "distinct (map (?pair itemData1) (filter (formatIsSaved h old ns itemData1) fmts))"
      unfolding fl mp by (rule d0)
    from Cons.IH [OF df p2 d2, of m2e unk1]
    obtain itemData' m2e' unk' where
      r: "saveFormats h basePath old ns fmts (itemData1, m2e, unk1, ex, fs)
          = (True, itemData', m2e', unk',
             filter (\<lambda>e. e \<notin> set (map (?pair itemData1)
                                      (filter (formatIsSaved h old ns itemData1) fmts))) ex, fs)"
      by blast
    have fl0: "filter (formatIsSaved h old ns itemData) (fmt # fmts)
                 = filter (formatIsSaved h old ns itemData) fmts"
      using False by simp
    show ?thesis unfolding fl0 using step r [unfolded fl mp] by simp
  qed
qed

text \<open>The loops, the rows and the pass.\<close>

lemma saveItemFile_skip_removed:
  "(hash, filePath) \<notin> set (multiRemove existingFiles hash filePath)"
  by (simp add: multiRemove_def)

lemma saveFormats_step:
  "saveFormats h basePath old ns (fmt # fmts) st
     = (if fst (saveFormat h basePath old ns fmt st)
        then saveFormats h basePath old ns fmts (snd (saveFormat h basePath old ns fmt st))
        else (False, snd (saveFormat h basePath old ns fmt st)))"
  by (cases "saveFormat h basePath old ns fmt st") (auto split: bool.splits)

lemma saveRows_step:
  "saveRows h (r # rs) st
     = (if fst (saveRow h r st) then saveRows h rs (snd (saveRow h r st))
        else (False, snd (saveRow h r st)))"
  by (cases "saveRow h r st") (auto split: bool.splits)

lemma saveRow_formats_failed:
  assumes "saveFormats h (absoluteFilePath (m_path w) (getBaseName (dataAt (m_model w) row)))
             (toMap (mapValue (dataAt (m_model w) row) mimeExtensionMap))
             (toMap (mapValue (dataAt (m_model w) row) mimeNoSave))
             (qkeys (dataAt (m_model w) row)) (dataAt (m_model w) row, [], [], ex, fs)
           = (False, itemData, m2e, unk, ex1, fs1)"
  shows "saveRow h row (w, ex, fs) = (False, w, ex1, fs1)"
  using assms by (simp add: saveRow_def Let_def)

lemma saveRow_sidecar:
  assumes "saveFormats h (absoluteFilePath (m_path w) (getBaseName (dataAt (m_model w) row)))
             (toMap (mapValue (dataAt (m_model w) row) mimeExtensionMap))
             (toMap (mapValue (dataAt (m_model w) row) mimeNoSave))
             (qkeys (dataAt (m_model w) row)) (dataAt (m_model w) row, [], [], ex, fs)
           = (True, itemData, m2e, unk, ex1, fs1)"
    and "unk \<noteq> []"
    and "saveItemFile h (absoluteFilePath (m_path w) (getBaseName (dataAt (m_model w) row))
                          @ dataFileSuffix) (serializeData h unk) ex1 fs1 = (ok2, ex2, fs2)"
  shows "fst (saveRow h row (w, ex, fs)) = ok2"
    and "fst (snd (snd (saveRow h row (w, ex, fs)))) = ex2"
    and "\<not> ok2 \<Longrightarrow> saveRow h row (w, ex, fs) = (False, w, ex2, fs2)"
  using assms by (simp_all add: saveRow_def Let_def)

lemma saveRow_no_sidecar:
  assumes "saveFormats h (absoluteFilePath (m_path w) (getBaseName (dataAt (m_model w) row)))
             (toMap (mapValue (dataAt (m_model w) row) mimeExtensionMap))
             (toMap (mapValue (dataAt (m_model w) row) mimeNoSave))
             (qkeys (dataAt (m_model w) row)) (dataAt (m_model w) row, [], [], ex, fs)
           = (True, itemData, m2e, unk, ex1, fs1)"
    and "unk = []"
  shows "fst (saveRow h row (w, ex, fs))"
    and "fst (snd (snd (saveRow h row (w, ex, fs)))) = ex1"
  using assms by (simp_all add: saveRow_def Let_def)

lemma saveItems_result:
  assumes r: "watcher_renameToUnique firstRow lastRow (disconnectModel w) fs0 = (True, w1, fs1)"
    and p: "m_path w1 \<noteq> []" and m: "mkpath h (m_path w1)"
    and s: "saveRows h [firstRow..<Suc lastRow] (w1, listFiles_dir h fs1 (m_path w1), fs1)
              = (ok, w2, ex2, fs2)"
  shows "saveItems h firstRow lastRow w fs0 = (if ok then connectModel w2 else w2, fs2)"
    and "m_valid (fst (saveItems h firstRow lastRow w fs0)) \<longleftrightarrow> ok"
proof -
  show e: "saveItems h firstRow lastRow w fs0 = (if ok then connectModel w2 else w2, fs2)"
    using r p m s by (simp add: saveItems_def Let_def)
  have v1: "\<not> m_valid w1"
    using r renameRows_valid [of "[firstRow..<Suc lastRow]" _ "disconnectModel w" fs0]
    by (auto simp add: watcher_renameToUnique_def Let_def disconnectModel_def split: prod.splits)
  have v2: "\<not> m_valid w2" using saveRows_valid [OF s] v1 by simp
  show "m_valid (fst (saveItems h firstRow lastRow w fs0)) \<longleftrightarrow> ok"
    using e v2 by (simp add: connectModel_def)
qed

lemma saveItems_not_saved:
  assumes r: "watcher_renameToUnique firstRow lastRow (disconnectModel w) fs0 = (renamed, w1, fs1)"
    and n: "\<not> renamed \<or> m_path w1 = [] \<or> \<not> mkpath h (m_path w1)"
  shows "saveItems h firstRow lastRow w fs0 = (w1, fs1)"
    and "\<not> m_valid (fst (saveItems h firstRow lastRow w fs0))"
proof -
  show e: "saveItems h firstRow lastRow w fs0 = (w1, fs1)"
    using r n by (auto simp add: saveItems_def Let_def)
  have "\<not> m_valid w1"
    using r renameRows_valid [of "[firstRow..<Suc lastRow]" _ "disconnectModel w" fs0]
    by (auto simp add: watcher_renameToUnique_def Let_def disconnectModel_def split: prod.splits)
  then show "\<not> m_valid (fst (saveItems h firstRow lastRow w fs0))" using e by simp
qed

text \<open>
  C5, as stated, fails: the multimap of the existing files has the pair of the hash and
  the target path of both payloads of the row, \<open>application/xml\<close> and \<open>text/xml\<close>, which
  are saved to the same file \<open>a.xml\<close> with the same bytes. The first is elided and its
  pair removed from the multimap; the second no longer finds the pair and is written.
  The pass completes, and the file, unchanged in content, has a new time of last write.
\<close>

theorem duplicate_target_rewritten:
  "listFiles_dir exampleHost xmlFs ''/d'' = [(calculateHash exampleHost ''<a/>'', ''/d/a.xml'')]
   \<and> (calculateHash exampleHost
          (toByteArray (mapValue (dataAt (m_model xmlWatcher) 0) ''application/xml'')),
        absoluteFilePath ''/d'' (getBaseName (dataAt (m_model xmlWatcher) 0))
          @ formatExtension (toMap (mapValue (dataAt (m_model xmlWatcher) 0) mimeExtensionMap))
              ''application/xml'')
       \<in> set (listFiles_dir exampleHost xmlFs ''/d'')
   \<and> (calculateHash exampleHost
          (toByteArray (mapValue (dataAt (m_model xmlWatcher) 0) ''text/xml'')),
        absoluteFilePath ''/d'' (getBaseName (dataAt (m_model xmlWatcher) 0))
          @ formatExtension (toMap (mapValue (dataAt (m_model xmlWatcher) 0) mimeExtensionMap))
              ''text/xml'')
       \<in> set (listFiles_dir exampleHost xmlFs ''/d'')
   \<and> lookupFile xmlFs ''/d/a.xml''
       = Some \<lparr>contents = ''<a/>'', lastModified = 3, readable = True, writable = True,
               hidden = False\<rparr>
   \<and> m_valid (fst (saveItems exampleHost 0 0 xmlWatcher xmlFs))
   \<and> lookupFile (snd (saveItems exampleHost 0 0 xmlWatcher xmlFs)) ''/d/a.xml''
       = Some \<lparr>contents = ''<a/>'', lastModified = 7, readable = True, writable = True,
               hidden = False\<rparr>"
  by code_simp

text \<open>
  C5, amended. The multimap of hashes and paths is computed once in a direction-W pass,
  from the listing of the directory after the rows are renamed, and handed from each
  call of \<open>saveItemFile\<close> to the next. A call whose pair of payload hash and target
  path is in the multimap as it is at that call writes nothing (the file system stays
  as it is) and removes the pair, so that the pair is then no longer there. A call whose
  pair is not there writes the file: it then holds exactly the payload, stamped with the
  current time, no other file changes and the multimap stays; when the file cannot be
  written the call fails and nothing changes.

  A format that is saved (not internal, not left out by its no-save hash, with a file
  or an extension) does exactly what its call of \<open>saveItemFile\<close> does, for the path of
  the base name followed by the extension; any other format writes nothing and leaves
  the multimap alone. The loop over the formats goes on after a format that succeeds
  and ends, failed, at one that fails. When the formats are distinct, the pair of every
  saved format is in the multimap and no two saved formats have the same pair, the loop
  succeeds, writes nothing and removes exactly these pairs.

  A row fails when its loop over the formats fails, or when the write of its sidecar
  fails, and then nothing of the row is stored in the model; the loop over the rows
  goes on after a row that succeeds and ends at one that fails. The pass, when the rows
  were renamed, the path is not empty and the directory exists or was made, has the
  watcher and the file system of the loop over the rows, and the watcher is valid
  exactly when no row failed; otherwise it stops after renaming, saving nothing, and
  the watcher is not valid. The watcher is valid after a pass only if the rows were
  renamed and every row was saved.
\<close>

theorem saveItemFile_elision:
  "((calculateHash h bytes, filePath) \<in> set existingFiles \<longrightarrow>
      saveItemFile h filePath bytes existingFiles fs
        = (True, multiRemove existingFiles (calculateHash h bytes) filePath, fs)
      \<and> (calculateHash h bytes, filePath)
          \<notin> set (multiRemove existingFiles (calculateHash h bytes) filePath))
   \<and> ((calculateHash h bytes, filePath) \<notin> set existingFiles \<longrightarrow>
        (\<forall>fs'. writeFile fs filePath bytes = Some fs' \<longrightarrow>
           saveItemFile h filePath bytes existingFiles fs = (True, existingFiles, fs')
           \<and> map_option contents (lookupFile fs' filePath) = Some bytes
           \<and> map_option lastModified (lookupFile fs' filePath) = Some (clock fs)
           \<and> (\<forall>p. p \<noteq> filePath \<longrightarrow> lookupFile fs' p = lookupFile fs p))
        \<and> (writeFile fs filePath bytes = None \<longrightarrow>
           saveItemFile h filePath bytes existingFiles fs = (False, existingFiles, fs)))
   \<and> (formatIsSaved h old noSaveData itemData fmt \<longrightarrow>
        saveFormat h basePath old noSaveData fmt (itemData, m2e, unknown, existingFiles, fs)
          = (case saveItemFile h (basePath @ formatExtension old fmt)
                    (toByteArray (mapValue itemData fmt)) existingFiles fs of
               (ok, existingFiles', fs') \<Rightarrow>
                 (ok, itemData, qinsert fmt (QVString (formatExtension old fmt)) m2e, unknown,
                  existingFiles', fs')))
   \<and> (\<not> formatIsSaved h old noSaveData itemData fmt \<longrightarrow>
        (\<exists>itemData' unknown'.
           saveFormat h basePath old noSaveData fmt (itemData, m2e, unknown, existingFiles, fs)
             = (True, itemData', m2e, unknown', existingFiles, fs)))
   \<and> saveFormats h basePath old noSaveData (fmt # fmts) st
       = (if fst (saveFormat h basePath old noSaveData fmt st)
          then saveFormats h basePath old noSaveData fmts
                 (snd (saveFormat h basePath old noSaveData fmt st))
          else (False, snd (saveFormat h basePath old noSaveData fmt st)))
   \<and> (distinct fmts
        \<and> (\<forall>f \<in> set fmts. formatIsSaved h old noSaveData itemData f \<longrightarrow>
               (calculateHash h (toByteArray (mapValue itemData f)),
                basePath @ formatExtension old f) \<in> set existingFiles)
        \<and> distinct (map (\<lambda>f. (calculateHash h (toByteArray (mapValue itemData f)),
                                  basePath @ formatExtension old f))
                      (filter (formatIsSaved h old noSaveData itemData) fmts)) \<longrightarrow>
        (\<exists>itemData' m2e' unknown'.
           saveFormats h basePath old noSaveData fmts (itemData, m2e, unknown, existingFiles, fs)
             = (True, itemData', m2e', unknown',
                filter (\<lambda>e. e \<notin> set (map (\<lambda>f. (calculateHash h (toByteArray (mapValue itemData f)),
                                                   basePath @ formatExtension old f))
                                        (filter (formatIsSaved h old noSaveData itemData) fmts)))
                  existingFiles,
                fs)))
   \<and> (saveFormats h (absoluteFilePath (m_path w) (getBaseName (dataAt (m_model w) row)))
          (toMap (mapValue (dataAt (m_model w) row) mimeExtensionMap))
          (toMap (mapValue (dataAt (m_model w) row) mimeNoSave))
          (qkeys (dataAt (m_model w) row)) (dataAt (m_model w) row, [], [], existingFiles, fs)
        = (False, itemData1, m2e1, unknown1, existingFiles1, fs1) \<longrightarrow>
        saveRow h row (w, existingFiles, fs) = (False, w, existingFiles1, fs1))
   \<and> (saveFormats h (absoluteFilePath (m_path w) (getBaseName (dataAt (m_model w) row)))
          (toMap (mapValue (dataAt (m_model w) row) mimeExtensionMap))
          (toMap (mapValue (dataAt (m_model w) row) mimeNoSave))
          (qkeys (dataAt (m_model w) row)) (dataAt (m_model w) row, [], [], existingFiles, fs)
        = (True, itemData1, m2e1, unknown1, existingFiles1, fs1)
        \<and> unknown1 \<noteq> []
        \<and> saveItemFile h (absoluteFilePath (m_path w) (getBaseName (dataAt (m_model w) row))
                            @ dataFileSuffix) (serializeData h unknown1) existingFiles1 fs1
            = (ok2, existingFiles2, fs2) \<longrightarrow>
        fst (saveRow h row (w, existingFiles, fs)) = ok2
        \<and> fst (snd (snd (saveRow h row (w, existingFiles, fs)))) = existingFiles2
        \<and> (\<not> ok2 \<longrightarrow> saveRow h row (w, existingFiles, fs) = (False, w, existingFiles2, fs2)))
   \<and> (saveFormats h (absoluteFilePath (m_path w) (getBaseName (dataAt (m_model w) row)))
          (toMap (mapValue (dataAt (m_model w) row) mimeExtensionMap))
          (toMap (mapValue (dataAt (m_model w) row) mimeNoSave))
          (qkeys (dataAt (m_model w) row)) (dataAt (m_model w) row, [], [], existingFiles, fs)
        = (True, itemData1, m2e1, unknown1, existingFiles1, fs1)
        \<and> unknown1 = [] \<longrightarrow>
        fst (saveRow h row (w, existingFiles, fs))
        \<and> fst (snd (snd (saveRow h row (w, existingFiles, fs)))) = existingFiles1)
   \<and> saveRows h (r # rs) rst
       = (if fst (saveRow h r rst) then saveRows h rs (snd (saveRow h r rst))
          else (False, snd (saveRow h r rst)))
   \<and> (watcher_renameToUnique firstRow lastRow (disconnectModel w0) fs0 = (True, w1, fs1')
        \<and> m_path w1 \<noteq> [] \<and> mkpath h (m_path w1)
        \<and> saveRows h [firstRow..<Suc lastRow] (w1, listFiles_dir h fs1' (m_path w1), fs1')
            = (saved, w2, existingFiles3, fs3) \<longrightarrow>
        saveItems h firstRow lastRow w0 fs0 = (if saved then connectModel w2 else w2, fs3)
        \<and> (m_valid (fst (saveItems h firstRow lastRow w0 fs0)) \<longleftrightarrow> saved))
   \<and> (watcher_renameToUnique firstRow lastRow (disconnectModel w0) fs0 = (renamed, w1, fs1')
        \<and> (\<not> renamed \<or> m_path w1 = [] \<or> \<not> mkpath h (m_path w1)) \<longrightarrow>
        saveItems h firstRow lastRow w0 fs0 = (w1, fs1')
        \<and> \<not> m_valid (fst (saveItems h firstRow lastRow w0 fs0)))
   \<and> (m_valid (fst (saveItems h firstRow lastRow w0 fs0)) \<longrightarrow>
        (\<exists>wr fsr st'.
           watcher_renameToUnique firstRow lastRow (disconnectModel w0) fs0 = (True, wr, fsr)
           \<and> saveRows h [firstRow..<Suc lastRow] (wr, listFiles_dir h fsr (m_path wr), fsr)
                = (True, st')))"
proof -
  have c1: "(calculateHash h bytes, filePath) \<in> set existingFiles \<longrightarrow>
      saveItemFile h filePath bytes existingFiles fs
        = (True, multiRemove existingFiles (calculateHash h bytes) filePath, fs)
      \<and> (calculateHash h bytes, filePath)
          \<notin> set (multiRemove existingFiles (calculateHash h bytes) filePath)"
    using saveItemFile_skip saveItemFile_skip_removed by blast
  have c2: "(calculateHash h bytes, filePath) \<notin> set existingFiles \<longrightarrow>
        (\<forall>fs'. writeFile fs filePath bytes = Some fs' \<longrightarrow>
           saveItemFile h filePath bytes existingFiles fs = (True, existingFiles, fs')
           \<and> map_option contents (lookupFile fs' filePath) = Some bytes
           \<and> map_option lastModified (lookupFile fs' filePath) = Some (clock fs)
           \<and> (\<forall>p. p \<noteq> filePath \<longrightarrow> lookupFile fs' p = lookupFile fs p))
        \<and> (writeFile fs filePath bytes = None \<longrightarrow>
           saveItemFile h filePath bytes existingFiles fs = (False, existingFiles, fs))"
  proof (intro impI conjI allI)
    fix fs'
    assume n: "(calculateHash h bytes, filePath) \<notin> set existingFiles"
      and w: "writeFile fs filePath bytes = Some fs'"
    show "saveItemFile h filePath bytes existingFiles fs = (True, existingFiles, fs')"
      using saveItemFile_write [OF n, of fs] w by simp
    show "map_option contents (lookupFile fs' filePath) = Some bytes"
      using w by (rule writeFile_lookup)
    show "map_option lastModified (lookupFile fs' filePath) = Some (clock fs)"
      using w by (rule writeFile_lookup)
  next
    fix fs' p
    assume "writeFile fs filePath bytes = Some fs'" and "p \<noteq> filePath"
    then show "lookupFile fs' p = lookupFile fs p" by (rule writeFile_lookup(3))
  next
    assume n: "(calculateHash h bytes, filePath) \<notin> set existingFiles"
      and w: "writeFile fs filePath bytes = None"
    show "saveItemFile h filePath bytes existingFiles fs = (False, existingFiles, fs)"
      using saveItemFile_write [OF n, of fs] w by simp
  qed
  have c3: "formatIsSaved h old noSaveData itemData fmt \<longrightarrow>
        saveFormat h basePath old noSaveData fmt (itemData, m2e, unknown, existingFiles, fs)
          = (case saveItemFile h (basePath @ formatExtension old fmt)
                    (toByteArray (mapValue itemData fmt)) existingFiles fs of
               (ok, existingFiles', fs') \<Rightarrow>
                 (ok, itemData, qinsert fmt (QVString (formatExtension old fmt)) m2e, unknown,
                  existingFiles', fs'))"
    using saveFormat_saved by blast
  have c4: "\<not> formatIsSaved h old noSaveData itemData fmt \<longrightarrow>
        (\<exists>itemData' unknown'.
           saveFormat h basePath old noSaveData fmt (itemData, m2e, unknown, existingFiles, fs)
             = (True, itemData', m2e, unknown', existingFiles, fs))"
    using saveFormat_not_saved by blast
  have c5: "saveFormats h basePath old noSaveData (fmt # fmts) st
       = (if fst (saveFormat h basePath old noSaveData fmt st)
          then saveFormats h basePath old noSaveData fmts
                 (snd (saveFormat h basePath old noSaveData fmt st))
          else (False, snd (saveFormat h basePath old noSaveData fmt st)))"
    by (rule saveFormats_step)
  have c6: "distinct fmts
        \<and> (\<forall>f \<in> set fmts. formatIsSaved h old noSaveData itemData f \<longrightarrow>
               (calculateHash h (toByteArray (mapValue itemData f)),
                basePath @ formatExtension old f) \<in> set existingFiles)
        \<and> distinct (map (\<lambda>f. (calculateHash h (toByteArray (mapValue itemData f)),
                                  basePath @ formatExtension old f))
                      (filter (formatIsSaved h old noSaveData itemData) fmts)) \<longrightarrow>
        (\<exists>itemData' m2e' unknown'.
           saveFormats h basePath old noSaveData fmts (itemData, m2e, unknown, existingFiles, fs)
             = (True, itemData', m2e', unknown',
                filter (\<lambda>e. e \<notin> set (map (\<lambda>f. (calculateHash h (toByteArray (mapValue itemData f)),
                                                   basePath @ formatExtension old f))
                                        (filter (formatIsSaved h old noSaveData itemData) fmts)))
                  existingFiles,
                fs))"
    using saveFormats_all_elided [of fmts h old noSaveData itemData basePath existingFiles m2e
        unknown fs] by blast
  have c7: "saveFormats h (absoluteFilePath (m_path w) (getBaseName (dataAt (m_model w) row)))
          (toMap (mapValue (dataAt (m_model w) row) mimeExtensionMap))
          (toMap (mapValue (dataAt (m_model w) row) mimeNoSave))
          (qkeys (dataAt (m_model w) row)) (dataAt (m_model w) row, [], [], existingFiles, fs)
        = (False, itemData1, m2e1, unknown1, existingFiles1, fs1) \<longrightarrow>
        saveRow h row (w, existingFiles, fs) = (False, w, existingFiles1, fs1)"
    using saveRow_formats_failed by blast
  have c8: "saveFormats h (absoluteFilePath (m_path w) (getBaseName (dataAt (m_model w) row)))
          (toMap (mapValue (dataAt (m_model w) row) mimeExtensionMap))
          (toMap (mapValue (dataAt (m_model w) row) mimeNoSave))
          (qkeys (dataAt (m_model w) row)) (dataAt (m_model w) row, [], [], existingFiles, fs)
        = (True, itemData1, m2e1, unknown1, existingFiles1, fs1)
        \<and> unknown1 \<noteq> []
        \<and> saveItemFile h (absoluteFilePath (m_path w) (getBaseName (dataAt (m_model w) row))
                            @ dataFileSuffix) (serializeData h unknown1) existingFiles1 fs1
            = (ok2, existingFiles2, fs2) \<longrightarrow>
        fst (saveRow h row (w, existingFiles, fs)) = ok2
        \<and> fst (snd (snd (saveRow h row (w, existingFiles, fs)))) = existingFiles2
        \<and> (\<not> ok2 \<longrightarrow> saveRow h row (w, existingFiles, fs) = (False, w, existingFiles2, fs2))"
    using saveRow_sidecar [of h w row existingFiles fs itemData1 m2e1 unknown1 existingFiles1 fs1
        ok2 existingFiles2 fs2] by blast
  have c9: "saveFormats h (absoluteFilePath (m_path w) (getBaseName (dataAt (m_model w) row)))
          (toMap (mapValue (dataAt (m_model w) row) mimeExtensionMap))
          (toMap (mapValue (dataAt (m_model w) row) mimeNoSave))
          (qkeys (dataAt (m_model w) row)) (dataAt (m_model w) row, [], [], existingFiles, fs)
        = (True, itemData1, m2e1, unknown1, existingFiles1, fs1)
        \<and> unknown1 = [] \<longrightarrow>
        fst (saveRow h row (w, existingFiles, fs))
        \<and> fst (snd (snd (saveRow h row (w, existingFiles, fs)))) = existingFiles1"
    using saveRow_no_sidecar [of h w row existingFiles fs itemData1 m2e1 unknown1 existingFiles1
        fs1] by blast
  have c10: "saveRows h (r # rs) rst
       = (if fst (saveRow h r rst) then saveRows h rs (snd (saveRow h r rst))
          else (False, snd (saveRow h r rst)))"
    by (rule saveRows_step)
  have c11: "watcher_renameToUnique firstRow lastRow (disconnectModel w0) fs0 = (True, w1, fs1')
        \<and> m_path w1 \<noteq> [] \<and> mkpath h (m_path w1)
        \<and> saveRows h [firstRow..<Suc lastRow] (w1, listFiles_dir h fs1' (m_path w1), fs1')
            = (saved, w2, existingFiles3, fs3) \<longrightarrow>
        saveItems h firstRow lastRow w0 fs0 = (if saved then connectModel w2 else w2, fs3)
        \<and> (m_valid (fst (saveItems h firstRow lastRow w0 fs0)) \<longleftrightarrow> saved)"
    using saveItems_result [of firstRow lastRow w0 fs0 w1 fs1' h saved w2 existingFiles3 fs3]
    by blast
  have c12: "watcher_renameToUnique firstRow lastRow (disconnectModel w0) fs0 = (renamed, w1, fs1')
        \<and> (\<not> renamed \<or> m_path w1 = [] \<or> \<not> mkpath h (m_path w1)) \<longrightarrow>
        saveItems h firstRow lastRow w0 fs0 = (w1, fs1')
        \<and> \<not> m_valid (fst (saveItems h firstRow lastRow w0 fs0))"
    using saveItems_not_saved [of firstRow lastRow w0 fs0 renamed w1 fs1' h] by blast
  have c13: "m_valid (fst (saveItems h firstRow lastRow w0 fs0)) \<longrightarrow>
        (\<exists>wr fsr st'.
           watcher_renameToUnique firstRow lastRow (disconnectModel w0) fs0 = (True, wr, fsr)
           \<and> saveRows h [firstRow..<Suc lastRow] (wr, listFiles_dir h fsr (m_path wr), fsr)
                = (True, st'))"
    using saveItems_valid_only_if_saved by blast
  show ?thesis using c1 c2 c3 c4 c5 c6 c7 c8 c9 c10 c11 c12 c13 by (intro conjI)
qed

theorem saveItemFile_elision_witness:
  "saveItemFile exampleHost ''/d/a.txt'' ''hello'' (listFiles_dir exampleHost exampleFs ''/d'')
     exampleFs = (True, [], exampleFs)
   \<and> map_option contents
        (lookupFile (snd (snd (saveItemFile exampleHost ''/d/a.txt'' ''world''
                     (listFiles_dir exampleHost exampleFs ''/d'') exampleFs))) ''/d/a.txt'')
       = Some ''world''
   \<and> saveItemFile exampleHost ''/d/locked.txt'' ''new'' (listFiles_dir exampleHost exampleFs ''/d'')
       exampleFs = (False, listFiles_dir exampleHost exampleFs ''/d'', exampleFs)
   \<and> saveItems exampleHost 0 0 (noteWatcher ''a'' ''hello'') exampleFs
       = (noteWatcher ''a'' ''hello'', exampleFs)
   \<and> m_valid (fst (saveItems exampleHost 0 0 (noteWatcher ''a'' ''world'') exampleFs))
   \<and> lookupFile (snd (saveItems exampleHost 0 0 (noteWatcher ''a'' ''world'') exampleFs))
         ''/d/a.txt''
       = Some \<lparr>contents = ''world'', lastModified = 7, readable = True, writable = True,
               hidden = False\<rparr>
   \<and> \<not> m_valid (fst (saveItems exampleHost 0 0 (noteWatcher ''locked'' ''new'') exampleFs))
   \<and> snd (saveItems exampleHost 0 0 (noteWatcher ''locked'' ''new'') exampleFs) = exampleFs
   \<and> (\<exists>itemData' m2e' unknown'.
         saveFormats exampleHost ''/d/a'' [(''text/plain'', QVString ''.txt'')] []
           [mimeBaseName, mimeExtensionMap, ''text/plain'']
           (dataAt (m_model (noteWatcher ''a'' ''hello'')) 0, [], [],
            listFiles_dir exampleHost exampleFs ''/d'', exampleFs)
         = (True, itemData', m2e', unknown', [], exampleFs))"
proof -
  let ?ex = "listFiles_dir exampleHost exampleFs ''/d''"
  have m: "(calculateHash exampleHost ''hello'', ''/d/a.txt'') \<in> set ?ex" by code_simp
  have r: "multiRemove ?ex (calculateHash exampleHost ''hello'') ''/d/a.txt'' = []" by code_simp
  have n: "(calculateHash exampleHost ''world'', ''/d/a.txt'') \<notin> set ?ex" by code_simp
  have w: "writeFile exampleFs ''/d/a.txt'' ''world''
             = Some \<lparr>files = [(''/d/a.txt'', \<lparr>contents = ''world'', lastModified = 7, readable = True,
                                 writable = True, hidden = False\<rparr>),
               (''/d/locked.txt'', \<lparr>contents = ''old'', lastModified = 5, readable = True,
                                      writable = False, hidden = False\<rparr>)], clock = 8\<rparr>"
    by code_simp
  have n2: "(calculateHash exampleHost ''new'', ''/d/locked.txt'') \<notin> set ?ex" by code_simp
  have w2: "writeFile exampleFs ''/d/locked.txt'' ''new'' = None" by code_simp
  note t1 = saveItemFile_elision [where h = exampleHost and bytes = "''hello''"
      and filePath = "''/d/a.txt''" and existingFiles = ?ex and fs = exampleFs,
      THEN conjunct1, rule_format, OF m, THEN conjunct1]
  note t2 = saveItemFile_elision [where h = exampleHost and bytes = "''world''"
      and filePath = "''/d/a.txt''" and existingFiles = ?ex and fs = exampleFs,
      THEN conjunct2, THEN conjunct1, rule_format, OF n, THEN conjunct1, rule_format, OF w]
  note t3 = saveItemFile_elision [where h = exampleHost and bytes = "''new''"
      and filePath = "''/d/locked.txt''" and existingFiles = ?ex and fs = exampleFs,
      THEN conjunct2, THEN conjunct1, rule_format, OF n2, THEN conjunct2, rule_format, OF w2]
  have a1: "saveItemFile exampleHost ''/d/a.txt'' ''hello'' ?ex exampleFs = (True, [], exampleFs)"
    using t1 r by simp
  have a2: "map_option contents
        (lookupFile (snd (snd (saveItemFile exampleHost ''/d/a.txt'' ''world'' ?ex exampleFs)))
           ''/d/a.txt'') = Some ''world''"
    using t2 by simp
  note p11 = conjunct2 [THEN conjunct2, THEN conjunct2, THEN conjunct2, THEN conjunct2,
      THEN conjunct2, THEN conjunct2, THEN conjunct2, THEN conjunct2, THEN conjunct2,
      THEN conjunct1]
  have h1: "watcher_renameToUnique 0 0 (disconnectModel (noteWatcher ''a'' ''hello'')) exampleFs
              = (True, disconnectModel (noteWatcher ''a'' ''hello''), exampleFs)
            \<and> m_path (disconnectModel (noteWatcher ''a'' ''hello'')) \<noteq> []
            \<and> mkpath exampleHost (m_path (disconnectModel (noteWatcher ''a'' ''hello'')))
            \<and> saveRows exampleHost [0..<Suc 0]
                 (disconnectModel (noteWatcher ''a'' ''hello''),
                  listFiles_dir exampleHost exampleFs
                    (m_path (disconnectModel (noteWatcher ''a'' ''hello''))), exampleFs)
                = (True, disconnectModel (noteWatcher ''a'' ''hello''), [], exampleFs)"
    by code_simp
  have v1: "connectModel (disconnectModel (noteWatcher ''a'' ''hello'')) = noteWatcher ''a'' ''hello''"
    by code_simp
  have a4: "saveItems exampleHost 0 0 (noteWatcher ''a'' ''hello'') exampleFs
       = (noteWatcher ''a'' ''hello'', exampleFs)"
    using saveItemFile_elision [where h = exampleHost and firstRow = 0 and lastRow = 0
        and ?w0.0 = "noteWatcher ''a'' ''hello''" and ?fs0.0 = exampleFs,
        THEN p11, rule_format, OF h1, THEN conjunct1] v1 by simp
  have h2: "watcher_renameToUnique 0 0 (disconnectModel (noteWatcher ''a'' ''world'')) exampleFs
              = (True, disconnectModel (noteWatcher ''a'' ''world''), exampleFs)
            \<and> m_path (disconnectModel (noteWatcher ''a'' ''world'')) \<noteq> []
            \<and> mkpath exampleHost (m_path (disconnectModel (noteWatcher ''a'' ''world'')))
            \<and> saveRows exampleHost [0..<Suc 0]
                 (disconnectModel (noteWatcher ''a'' ''world''),
                  listFiles_dir exampleHost exampleFs
                    (m_path (disconnectModel (noteWatcher ''a'' ''world''))), exampleFs)
                = (True, disconnectModel (noteWatcher ''a'' ''world''),
                   [(''hello###############'', ''/d/a.txt'')],
                   \<lparr>files = [(''/d/a.txt'', \<lparr>contents = ''world'', lastModified = 7,
                                                readable = True, writable = True, hidden = False\<rparr>),
                             (''/d/locked.txt'', \<lparr>contents = ''old'', lastModified = 5,
                                                   readable = True, writable = False,
                                                   hidden = False\<rparr>)], clock = 8\<rparr>)"
    by code_simp
  note s2 = saveItemFile_elision [where h = exampleHost and firstRow = 0 and lastRow = 0
        and ?w0.0 = "noteWatcher ''a'' ''world''" and ?fs0.0 = exampleFs,
        THEN p11, rule_format, OF h2]
  have a5: "m_valid (fst (saveItems exampleHost 0 0 (noteWatcher ''a'' ''world'') exampleFs))"
    using s2 [THEN conjunct2] by simp
  have a6: "lookupFile (snd (saveItems exampleHost 0 0 (noteWatcher ''a'' ''world'') exampleFs))
         ''/d/a.txt''
       = Some \<lparr>contents = ''world'', lastModified = 7, readable = True, writable = True,
               hidden = False\<rparr>"
    using s2 [THEN conjunct1] by (simp add: lookupFile_def)
  have h3: "watcher_renameToUnique 0 0 (disconnectModel (noteWatcher ''locked'' ''new'')) exampleFs
              = (True, disconnectModel (noteWatcher ''locked'' ''new''), exampleFs)
            \<and> m_path (disconnectModel (noteWatcher ''locked'' ''new'')) \<noteq> []
            \<and> mkpath exampleHost (m_path (disconnectModel (noteWatcher ''locked'' ''new'')))
            \<and> saveRows exampleHost [0..<Suc 0]
                 (disconnectModel (noteWatcher ''locked'' ''new''),
                  listFiles_dir exampleHost exampleFs
                    (m_path (disconnectModel (noteWatcher ''locked'' ''new''))), exampleFs)
                = (False, disconnectModel (noteWatcher ''locked'' ''new''),
                   [(''hello###############'', ''/d/a.txt'')], exampleFs)"
    by code_simp
  note s3 = saveItemFile_elision [where h = exampleHost and firstRow = 0 and lastRow = 0
        and ?w0.0 = "noteWatcher ''locked'' ''new''" and ?fs0.0 = exampleFs,
        THEN p11, rule_format, OF h3]
  have a7: "\<not> m_valid (fst (saveItems exampleHost 0 0 (noteWatcher ''locked'' ''new'') exampleFs))"
    using s3 [THEN conjunct2] by simp
  have a8: "snd (saveItems exampleHost 0 0 (noteWatcher ''locked'' ''new'') exampleFs) = exampleFs"
    using s3 [THEN conjunct1] by simp
  note p6 = conjunct2 [THEN conjunct2, THEN conjunct2, THEN conjunct2, THEN conjunct2,
      THEN conjunct1]
  have h6: "distinct [mimeBaseName, mimeExtensionMap, ''text/plain'']
        \<and> (\<forall>f \<in> set [mimeBaseName, mimeExtensionMap, ''text/plain''].
               formatIsSaved exampleHost [(''text/plain'', QVString ''.txt'')] []
                 (dataAt (m_model (noteWatcher ''a'' ''hello'')) 0) f \<longrightarrow>
               (calculateHash exampleHost
                  (toByteArray (mapValue (dataAt (m_model (noteWatcher ''a'' ''hello'')) 0) f)),
                ''/d/a'' @ formatExtension [(''text/plain'', QVString ''.txt'')] f)
               \<in> set (listFiles_dir exampleHost exampleFs ''/d''))
        \<and> distinct (map (\<lambda>f. (calculateHash exampleHost
                                   (toByteArray (mapValue
                                      (dataAt (m_model (noteWatcher ''a'' ''hello'')) 0) f)),
                                  ''/d/a'' @ formatExtension [(''text/plain'', QVString ''.txt'')] f))
                      (filter (formatIsSaved exampleHost [(''text/plain'', QVString ''.txt'')] []
                                 (dataAt (m_model (noteWatcher ''a'' ''hello'')) 0))
                         [mimeBaseName, mimeExtensionMap, ''text/plain'']))"
    by code_simp
  have f6: "filter (\<lambda>e. e \<notin> set (map (\<lambda>f. (calculateHash exampleHost
                                   (toByteArray (mapValue
                                      (dataAt (m_model (noteWatcher ''a'' ''hello'')) 0) f)),
                                  ''/d/a'' @ formatExtension [(''text/plain'', QVString ''.txt'')] f))
                      (filter (formatIsSaved exampleHost [(''text/plain'', QVString ''.txt'')] []
                                 (dataAt (m_model (noteWatcher ''a'' ''hello'')) 0))
                         [mimeBaseName, mimeExtensionMap, ''text/plain''])))
              (listFiles_dir exampleHost exampleFs ''/d'') = []"
    by code_simp
  have a9: "\<exists>itemData' m2e' unknown'.
         saveFormats exampleHost ''/d/a'' [(''text/plain'', QVString ''.txt'')] []
           [mimeBaseName, mimeExtensionMap, ''text/plain'']
           (dataAt (m_model (noteWatcher ''a'' ''hello'')) 0, [], [],
            listFiles_dir exampleHost exampleFs ''/d'', exampleFs)
         = (True, itemData', m2e', unknown', [], exampleFs)"
    using saveItemFile_elision [where h = exampleHost and basePath = "''/d/a''"
        and old = "[(''text/plain'', QVString ''.txt'')]" and noSaveData = "[]"
        and itemData = "dataAt (m_model (noteWatcher ''a'' ''hello'')) 0"
        and fmts = "[mimeBaseName, mimeExtensionMap, ''text/plain'']"
        and existingFiles = "listFiles_dir exampleHost exampleFs ''/d''" and fs = exampleFs
        and ?m2e.0 = "[]" and unknown = "[]",
        THEN p6, rule_format, OF h6]
    unfolding f6 .
  show ?thesis using a1 a2 t3 a4 a5 a6 a7 a8 a9 by (intro conjI)
qed












lemma bigFile_size: "length (contents bigFile) > sizeLimit"
  by (simp add: bigFile_def sizeLimit_def)


subsection \<open>The directory scanner\<close>

text \<open>A path whose round of the loop changes nothing may as well be left out.\<close>

lemma fold_skip:
  assumes "\<And>acc. step p acc = acc"
  shows "fold step xs acc = fold step (filter (\<lambda>x. x \<noteq> p) xs) acc"
  using assms by (induction xs arbitrary: acc) auto

lemma listFiles_skip:
  assumes "scanFile fs (userExtsOf formatSettings) filePath = None"
  shows "listFiles fs filePaths formatSettings
           = listFiles fs (filter (\<lambda>p. p \<noteq> filePath) filePaths) formatSettings"
proof -
  have "\<And>acc. listFiles_step fs (userExtsOf formatSettings) filePath acc = acc"
    using assms by (simp add: listFiles_step_def)
  then have "fold (listFiles_step fs (userExtsOf formatSettings)) filePaths ([], [])
      = fold (listFiles_step fs (userExtsOf formatSettings))
          (filter (\<lambda>p. p \<noteq> filePath) filePaths) ([], [])"
    by (rule fold_skip)
  then show ?thesis unfolding listFiles_def by (rule arg_cong)
qed

text \<open>
  The look-up among the extensions returns the first one, in the order of the list, the
  path ends with.
\<close>

lemma findByExtension_first:
  assumes "es = before @ ext # after"
    and "\<forall>e \<in> set before. \<not> endsWith filePath (extension e)"
    and "endsWith filePath (extension ext)"
  shows "findByExtension filePath es = ext"
  using assms by (induction before arbitrary: es) auto

lemma findByExtension_first_iff:
  "findByExtension filePath es = ext \<and> extension ext \<noteq> [] \<longleftrightarrow>
     (\<exists>before after. es = before @ ext # after
        \<and> (\<forall>e \<in> set before. \<not> endsWith filePath (extension e))
        \<and> endsWith filePath (extension ext)) \<and> extension ext \<noteq> []"
proof
  assume a: "findByExtension filePath es = ext \<and> extension ext \<noteq> []"
  have "findByExtension filePath es = ext \<Longrightarrow> extension ext \<noteq> [] \<Longrightarrow>
     (\<exists>before after. es = before @ ext # after
        \<and> (\<forall>e \<in> set before. \<not> endsWith filePath (extension e))
        \<and> endsWith filePath (extension ext))"
  proof (induction es)
    case Nil
    then show ?case by (auto simp add: mkExt_def)
  next
    case (Cons e es)
    show ?case
    proof (cases "endsWith filePath (extension e)")
      case True
      then have "e = ext" using Cons.prems by simp
      then show ?thesis using True by (intro exI [of _ "[]"] exI [of _ es]) simp
    next
      case False
      then have "findByExtension filePath es = ext" using Cons.prems by simp
      from Cons.IH [OF this Cons.prems(2)] obtain before after where
        b: "es = before @ ext # after" "\<forall>e \<in> set before. \<not> endsWith filePath (extension e)"
          "endsWith filePath (extension ext)" by blast
      show ?thesis using b False
        by (intro exI [of _ "e # before"] exI [of _ after]) simp
    qed
  qed
  then show "(\<exists>before after. es = before @ ext # after
        \<and> (\<forall>e \<in> set before. \<not> endsWith filePath (extension e))
        \<and> endsWith filePath (extension ext)) \<and> extension ext \<noteq> []"
    using a by blast
next
  assume "(\<exists>before after. es = before @ ext # after
        \<and> (\<forall>e \<in> set before. \<not> endsWith filePath (extension e))
        \<and> endsWith filePath (extension ext)) \<and> extension ext \<noteq> []"
  then show "findByExtension filePath es = ext \<and> extension ext \<noteq> []"
    using findByExtension_first by blast
qed

text \<open>
  C8, as stated, fails: the file \<open>a.bak.txt\<close> matches the user-registered extension
  \<open>.bak.txt\<close>, whose MIME is \<open>-\<close>, yet it also ends with \<open>.txt\<close>, registered earlier
  for \<open>text/x-foo\<close>; the scanner takes the earlier one, puts the file in a bucket, and a
  direction-R pass makes an item of it.
\<close>

theorem shadowed_ignore_becomes_item:
  "mkExt ''.bak.txt'' ''-'' \<in> set (userExtsOf shadowedIgnore)
   \<and> endsWith ''/d/a.bak.txt'' ''.bak.txt''
   \<and> listFiles bakFs [''/d/a.bak.txt''] shadowedIgnore
       = [\<lparr>baseName = ''a.bak.txt'', exts = [\<lparr>extension = [], format = ''text/x-foo''\<rparr>]\<rparr>]
   \<and> map rowData (m_model (updateItems exampleHost
                              (emptyWatcher\<lparr>m_formatSettings := shadowedIgnore\<rparr>) bakFs))
       = [[(''application/x-copyq-itemsync-basename'', QVString ''a.bak.txt''),
           (''application/x-copyq-itemsync-mime-to-extension-map'',
            QVMap [(''text/x-foo'', QVString [])]),
           (''text/x-foo'', QVByteArray ''old'')]]"
  by code_simp

text \<open>
  C8, amended. The scanner looks a path up among the user's extensions, taken format by
  format in the order of the settings and, within a format, in the order of its
  extensions, and settles on the first extension the path ends with (an empty
  extension is one every path ends with). A file for which that first extension is not
  empty and has the MIME \<open>-\<close> is skipped by the scanner: the buckets are those of the
  listing without the file, so it is in no bucket and no item is made from it.
\<close>

theorem ignored_extension_never_bucketed:
  assumes "userExtsOf formatSettings = before @ ext # after"
    and "\<forall>e \<in> set before. \<not> endsWith filePath (extension e)"
    and "endsWith filePath (extension ext)"
    and "extension ext \<noteq> []"
    and "format ext = ''-''"
  shows "findByExtension filePath (userExtsOf formatSettings) = ext
       \<and> scanFile fs (userExtsOf formatSettings) filePath = None
       \<and> listFiles fs filePaths formatSettings
           = listFiles fs (filter (\<lambda>p. p \<noteq> filePath) filePaths) formatSettings
       \<and> (\<forall>e. findByExtension filePath (userExtsOf formatSettings) = e \<and> extension e \<noteq> []
              \<longleftrightarrow> (\<exists>b a. userExtsOf formatSettings = b @ e # a
                          \<and> (\<forall>x \<in> set b. \<not> endsWith filePath (extension x))
                          \<and> endsWith filePath (extension e))
                   \<and> extension e \<noteq> [])"
proof -
  have f: "findByExtension filePath (userExtsOf formatSettings) = ext"
    using assms(1-3) by (rule findByExtension_first)
  have s: "scanFile fs (userExtsOf formatSettings) filePath = None"
    using f assms(4,5) by (simp add: scanFile_def Let_def)
  have l: "listFiles fs filePaths formatSettings
           = listFiles fs (filter (\<lambda>p. p \<noteq> filePath) filePaths) formatSettings"
    using s by (rule listFiles_skip)
  have c: "\<forall>e. findByExtension filePath (userExtsOf formatSettings) = e \<and> extension e \<noteq> []
              \<longleftrightarrow> (\<exists>b a. userExtsOf formatSettings = b @ e # a
                          \<and> (\<forall>x \<in> set b. \<not> endsWith filePath (extension x))
                          \<and> endsWith filePath (extension e))
                   \<and> extension e \<noteq> []"
    using findByExtension_first_iff by blast
  show ?thesis using f s l c by (intro conjI)
qed

theorem ignored_extension_never_bucketed_witness:
  "findByExtension ''/d/b.tmp'' (userExtsOf ignoreTmp) = \<lparr>extension = ''.tmp'', format = ''-''\<rparr>
   \<and> scanFile tmpFs (userExtsOf ignoreTmp) ''/d/b.tmp'' = None
   \<and> listFiles tmpFs [''/d/a.txt'', ''/d/b.tmp''] ignoreTmp
       = [\<lparr>baseName = ''a'', exts = [\<lparr>extension = ''.txt'', format = ''text/plain''\<rparr>]\<rparr>]
   \<and> scanFile bakFs (userExtsOf (rev shadowedIgnore)) ''/d/a.bak.txt'' = None
   \<and> listFiles bakFs [''/d/a.bak.txt''] (rev shadowedIgnore) = []
   \<and> map rowData (m_model (updateItems exampleHost
                              (emptyWatcher\<lparr>m_formatSettings := rev shadowedIgnore\<rparr>) bakFs))
       = []"
proof -
  have u1: "userExtsOf ignoreTmp = [] @ \<lparr>extension = ''.tmp'', format = ''-''\<rparr> # []"
    by code_simp
  have b1: "\<forall>e \<in> set []. \<not> endsWith ''/d/b.tmp'' (extension e)" by simp
  have m1: "endsWith ''/d/b.tmp'' (extension \<lparr>extension = ''.tmp'', format = ''-''\<rparr>)"
    by code_simp
  have e1: "extension \<lparr>extension = ''.tmp'', format = ''-''\<rparr> \<noteq> []"
    "format \<lparr>extension = ''.tmp'', format = ''-''\<rparr> = ''-''" by simp_all
  have r1: "listFiles tmpFs (filter (\<lambda>p. p \<noteq> ''/d/b.tmp'') [''/d/a.txt'', ''/d/b.tmp'']) ignoreTmp
             = [\<lparr>baseName = ''a'', exts = [\<lparr>extension = ''.txt'', format = ''text/plain''\<rparr>]\<rparr>]"
    by code_simp
  note t1 = ignored_extension_never_bucketed [OF u1 b1 m1 e1, of tmpFs
      "[''/d/a.txt'', ''/d/b.tmp'']"]
  have u2: "userExtsOf (rev shadowedIgnore)
              = [] @ \<lparr>extension = ''.bak.txt'', format = ''-''\<rparr>
                  # [\<lparr>extension = ''.txt'', format = ''text/x-foo''\<rparr>]"
    by code_simp
  have b2: "\<forall>e \<in> set []. \<not> endsWith ''/d/a.bak.txt'' (extension e)" by simp
  have m2: "endsWith ''/d/a.bak.txt'' (extension \<lparr>extension = ''.bak.txt'', format = ''-''\<rparr>)"
    by code_simp
  have e2: "extension \<lparr>extension = ''.bak.txt'', format = ''-''\<rparr> \<noteq> []"
    "format \<lparr>extension = ''.bak.txt'', format = ''-''\<rparr> = ''-''" by simp_all
  have r2: "listFiles bakFs (filter (\<lambda>p. p \<noteq> ''/d/a.bak.txt'') [''/d/a.bak.txt''])
              (rev shadowedIgnore) = []"
    by code_simp
  note t2 = ignored_extension_never_bucketed [OF u2 b2 m2 e2, of bakFs "[''/d/a.bak.txt'']"]
  have i2: "map rowData (m_model (updateItems exampleHost
                              (emptyWatcher\<lparr>m_formatSettings := rev shadowedIgnore\<rparr>) bakFs))
       = []" by code_simp
  have a1: "findByExtension ''/d/b.tmp'' (userExtsOf ignoreTmp)
              = \<lparr>extension = ''.tmp'', format = ''-''\<rparr>"
    using t1 by (rule conjunct1)
  have a2: "scanFile tmpFs (userExtsOf ignoreTmp) ''/d/b.tmp'' = None"
    using t1 [THEN conjunct2] by (rule conjunct1)
  have a3: "listFiles tmpFs [''/d/a.txt'', ''/d/b.tmp''] ignoreTmp
      = listFiles tmpFs (filter (\<lambda>p. p \<noteq> ''/d/b.tmp'') [''/d/a.txt'', ''/d/b.tmp'']) ignoreTmp"
    using t1 [THEN conjunct2, THEN conjunct2] by (rule conjunct1)
  have a4: "scanFile bakFs (userExtsOf (rev shadowedIgnore)) ''/d/a.bak.txt'' = None"
    using t2 [THEN conjunct2] by (rule conjunct1)
  have a5: "listFiles bakFs [''/d/a.bak.txt''] (rev shadowedIgnore)
      = listFiles bakFs (filter (\<lambda>p. p \<noteq> ''/d/a.bak.txt'') [''/d/a.bak.txt''])
          (rev shadowedIgnore)"
    using t2 [THEN conjunct2, THEN conjunct2] by (rule conjunct1)
  show ?thesis using a1 a2 trans [OF a3 r1] a4 trans [OF a5 r2] i2 by (intro conjI)
qed

subsection \<open>Hidden and oversized files\<close>

lemma scanFile_hidden:
  "isHidden fs filePath \<or> startsWith (fileNameOf filePath) ''.'' \<Longrightarrow>
     scanFile fs userExts filePath = None"
  by (auto simp add: scanFile_def)

lemma updateDataFromFile_oversized:
  assumes "openReadOnly fs (absoluteFilePath dir (basePath @ extension ext)) = Some f"
    and "length (contents f) > sizeLimit"
    and "\<not> endsWith (basePath @ extension ext) dataFileSuffix"
  shows "updateDataFromFile h fs dir basePath ext (dataMap, mimeToExtension, w)
           = (dataMap, qinsert [] (QVString []) mimeToExtension,
              watchPath (basePath @ extension ext) w)"
  using assms by (simp add: updateDataFromFile_def Let_def)

text \<open>
  The scanner and a full direction-R pass on a directory whose only file, \<open>big.txt\<close>, is
  above the size limit.
\<close>

lemma big_closed:
  "findByExtension ''/d/big.txt'' (userExtsOf []) = \<lparr>extension = [], format = []\<rparr>"
  "findByExtension ''/d/big.txt'' fileExtensionsAndFormats
     = \<lparr>extension = ''.txt'', format = ''text/plain''\<rparr>"
  "fileNameOf ''/d/big.txt'' = ''big.txt''"
  "left ''big.txt'' (int (length ''big.txt'') - int (length ''.txt'')) = ''big''"
  "startsWith ''big.txt'' ''.'' = False"
  "inDirectory ''/d'' ''/d/big.txt''"
  "absoluteFilePath ''/d'' ''big.txt'' = ''/d/big.txt''"
  "absoluteFilePath ''/d'' ''big'' = ''/d/big''"
  "absoluteFilePath ''/d'' ''/d/big.txt'' = ''/d/big.txt''"
  "endsWith ''/d/big.txt'' dataFileSuffix = False"
  "fileNameOf ''big'' = ''big''"
  by code_simp+

lemma single_big_file_scan:
  assumes "readable f" "writable f" "\<not> hidden f" "length (contents f) > sizeLimit"
  shows "listFiles \<lparr>files = [(''/d/big.txt'', f)], clock = n\<rparr> [''/d/big.txt''] []
           = [\<lparr>baseName = ''big'', exts = [\<lparr>extension = ''.txt'', format = ''text/plain''\<rparr>]\<rparr>]"
  using assms
  by (simp add: listFiles_def listFiles_step_def scanFile_def isHidden_def isReadable_def
      lookupFile_def big_closed Let_def left_def)

lemma big_item_closed:
  "qinsert mimeExtensionMap (QVMap [([], QVString [])])
     (qinsert mimeBaseName (QVString ''big'') [])
   = [(''application/x-copyq-itemsync-basename'', QVString ''big''),
      (''application/x-copyq-itemsync-mime-to-extension-map'', QVMap [([], QVString [])])]"
  "updateData [(''application/x-copyq-itemsync-basename'', QVString ''big''),
      (''application/x-copyq-itemsync-mime-to-extension-map'', QVMap [([], QVString [])])] []
   = [(''application/x-copyq-itemsync-basename'', QVString ''big''),
      (''application/x-copyq-itemsync-mime-to-extension-map'', QVMap [([], QVString [])])]"
  by code_simp+

lemma watchPath_fields:
  "m_model (watchPath p w) = m_model w"
  "maxItems (watchPath p w) = maxItems w"
  "m_path (watchPath p w) = m_path w"
  "m_valid (watchPath p w) = m_valid w"
  "m_formatSettings (watchPath p w) = m_formatSettings w"
  "modelDisabled (watchPath p w) = modelDisabled w"
  by (simp_all add: watchPath_def)

lemma exampleHost_insertRowOk: "insertRowOk exampleHost k"
  by (simp add: exampleHost_def)

lemma single_big_file_update:
  assumes "readable f" "writable f" "\<not> hidden f" "length (contents f) > sizeLimit"
  shows "map rowData (m_model (updateItems exampleHost emptyWatcher
                                 \<lparr>files = [(''/d/big.txt'', f)], clock = n\<rparr>))
           = [[(''application/x-copyq-itemsync-basename'', QVString ''big''),
               (''application/x-copyq-itemsync-mime-to-extension-map'', QVMap [([], QVString [])])]]"
proof -
  let ?fs = "\<lparr>files = [(''/d/big.txt'', f)], clock = n\<rparr>"
  have o: "openReadOnly ?fs ''/d/big.txt'' = Some f"
    using assms by (simp add: openReadOnly_def lookupFile_def)
  have u: "updateDataFromFile exampleHost ?fs ''/d'' ''/d/big''
             \<lparr>extension = ''.txt'', format = ''text/plain''\<rparr> ([], [], w)
           = ([], [([], QVString [])], watchPath ''/d/big.txt'' w)" for w
    using updateDataFromFile_oversized [of ?fs "''/d''" "''/d/big''"
        "\<lparr>extension = ''.txt'', format = ''text/plain''\<rparr>" f exampleHost "[]" "[]" w]
      o assms by (simp add: big_closed)
  have e: "entryListByTimeReversed ?fs ''/d'' = [''big.txt'']"
    using assms by (simp add: entryListByTimeReversed_def itemFiles_def big_closed)
  show ?thesis
    using assms
    by (simp add: updateItems_def Let_def e big_closed single_big_file_scan
        emptyWatcher_def disconnectModel_def connectModel_def createItemsFromFiles_def
        updateDataAndWatchFile_def u big_item_closed createItem_def watchPath_fields
        exampleHost_insertRowOk del: qinsert.simps)
qed

text \<open>
  C2, as stated, fails for files above the size limit: such a file is put in a bucket by
  the scanner like any other, and a direction-R pass on an empty model makes an item of
  it, with the base name and the presence marker and without the payload.
\<close>

theorem oversized_file_becomes_item:
  "sizeLimit < length (contents bigFile)
   \<and> listFiles bigFs [''/d/big.txt''] []
       = [\<lparr>baseName = ''big'', exts = [\<lparr>extension = ''.txt'', format = ''text/plain''\<rparr>]\<rparr>]
   \<and> map rowData (m_model (updateItems exampleHost emptyWatcher bigFs))
       = [[(''application/x-copyq-itemsync-basename'', QVString ''big''),
           (''application/x-copyq-itemsync-mime-to-extension-map'', QVMap [([], QVString [])])]]"
proof -
  have p: "readable bigFile" "writable bigFile" "\<not> hidden bigFile"
    by (simp_all add: bigFile_def)
  show ?thesis
    unfolding bigFs_def
    using bigFile_size single_big_file_scan [OF p bigFile_size, of 2]
      single_big_file_update [OF p bigFile_size, of 2]
    by (intro conjI)
qed

text \<open>
  C2, amended. A hidden file, or one whose name starts with a dot, is skipped by the
  scanner: the buckets are those of the listing without it. A file above the size limit
  whose name does not end in the sidecar suffix contributes no payload when its bucket
  is read: the data stays as it was and only the presence marker (empty MIME, empty
  extension) is recorded in the map from MIME to extension.
\<close>

theorem hidden_skipped_oversized_marked:
  "(isHidden fs filePath \<or> startsWith (fileNameOf filePath) ''.'' \<longrightarrow>
      scanFile fs (userExtsOf formatSettings) filePath = None
      \<and> listFiles fs filePaths formatSettings
          = listFiles fs (filter (\<lambda>p. p \<noteq> filePath) filePaths) formatSettings)
   \<and> (openReadOnly fs (absoluteFilePath dir (basePath @ extension ext)) = Some f
        \<and> length (contents f) > sizeLimit
        \<and> \<not> endsWith (basePath @ extension ext) dataFileSuffix \<longrightarrow>
        updateDataFromFile h fs dir basePath ext (dataMap, mimeToExtension, w)
          = (dataMap, qinsert [] (QVString []) mimeToExtension,
             watchPath (basePath @ extension ext) w))"
  using scanFile_hidden listFiles_skip updateDataFromFile_oversized by blast

theorem hidden_skipped_oversized_marked_witness:
  "scanFile hiddenFs (userExtsOf []) ''/d/.x.txt'' = None
   \<and> listFiles hiddenFs [''/d/.x.txt'', ''/d/a.txt''] []
       = [\<lparr>baseName = ''a'', exts = [\<lparr>extension = ''.txt'', format = ''text/plain''\<rparr>]\<rparr>]
   \<and> updateDataFromFile exampleHost bigFs ''/d'' ''/d/big''
         \<lparr>extension = ''.txt'', format = ''text/plain''\<rparr> ([], [], emptyWatcher)
       = ([], qinsert [] (QVString []) [], watchPath ''/d/big.txt'' emptyWatcher)"
proof -
  have h: "isHidden hiddenFs ''/d/.x.txt'' \<or> startsWith (fileNameOf ''/d/.x.txt'') ''.''"
    by code_simp
  have r: "listFiles hiddenFs (filter (\<lambda>p. p \<noteq> ''/d/.x.txt'') [''/d/.x.txt'', ''/d/a.txt'']) []
       = [\<lparr>baseName = ''a'', exts = [\<lparr>extension = ''.txt'', format = ''text/plain''\<rparr>]\<rparr>]"
    by code_simp
  note t1 = hidden_skipped_oversized_marked [where fs = hiddenFs and filePath = "''/d/.x.txt''"
      and formatSettings = "[]" and filePaths = "[''/d/.x.txt'', ''/d/a.txt'']",
      THEN conjunct1, rule_format, OF h]
  have o: "openReadOnly bigFs (absoluteFilePath ''/d''
             (''/d/big'' @ extension \<lparr>extension = ''.txt'', format = ''text/plain''\<rparr>))
           = Some bigFile
         \<and> sizeLimit < length (contents bigFile)
         \<and> \<not> endsWith (''/d/big'' @ extension \<lparr>extension = ''.txt'', format = ''text/plain''\<rparr>)
               dataFileSuffix"
    using bigFile_size
    by (simp add: big_closed openReadOnly_def lookupFile_def bigFs_def)
      (simp add: bigFile_def)
  note t2 = hidden_skipped_oversized_marked [where fs = bigFs and dir = "''/d''"
      and basePath = "''/d/big''"
      and ext = "\<lparr>extension = ''.txt'', format = ''text/plain''\<rparr>" and f = bigFile
      and h = exampleHost and dataMap = "[]" and mimeToExtension = "[]" and w = emptyWatcher,
      THEN conjunct2, rule_format, OF o]
  show ?thesis
    using conjunct1 [OF t1] trans [OF conjunct2 [OF t1] r] t2 by simp
qed

subsection \<open>Copying an item to another tab\<close>

lemma mime_distinct:
  "mimeText \<noteq> mimeUriList" "mimeText \<noteq> mimeSyncPath" "mimeText \<noteq> mimeNoSave"
  "mimeUriList \<noteq> mimeSyncPath" "mimeUriList \<noteq> mimeNoSave" "mimeSyncPath \<noteq> mimeNoSave"
  "mimeUriList \<noteq> mimeText" "mimeSyncPath \<noteq> mimeText" "mimeNoSave \<noteq> mimeText"
  "mimeSyncPath \<noteq> mimeUriList" "mimeNoSave \<noteq> mimeUriList" "mimeNoSave \<noteq> mimeSyncPath"
  by (simp_all add: mimeText_def mimeUriList_def mimeSyncPath_def mimeNoSave_def
      MIME_PREFIX_ITEMSYNC_def MIME_PREFIX_def)

lemma qcontains_qinsert: "qcontains (qinsert k v m) k' \<longleftrightarrow> k' = k \<or> qcontains m k'"
  by (simp add: qcontains_def map_of_qinsert)

lemma copyItem_both:
  assumes "qcontains itemData mimeUriList" "qcontains itemData mimeText"
  shows "copyItem h syncPath itemData = qinsert mimeSyncPath (QVString syncPath) itemData"
  using assms by (simp add: copyItem_def Let_def qcontains_qinsert)

lemma copyItem_map:
  "\<exists>uri text.
     map_of (copyItem h syncPath itemData) =
       (if qcontains itemData mimeUriList \<and> qcontains itemData mimeText
        then (map_of itemData)(mimeSyncPath \<mapsto> QVString syncPath)
        else if qcontains itemData mimeUriList
        then (map_of itemData)(mimeSyncPath \<mapsto> QVString syncPath,
               mimeText \<mapsto> QVByteArray text,
               mimeNoSave \<mapsto> QVMap [(mimeText, QVByteArray (calculateHash h text))])
        else if qcontains itemData mimeText
        then (map_of itemData)(mimeSyncPath \<mapsto> QVString syncPath,
               mimeUriList \<mapsto> QVByteArray uri,
               mimeNoSave \<mapsto> QVMap [(mimeUriList, QVByteArray (calculateHash h uri))])
        else (map_of itemData)(mimeSyncPath \<mapsto> QVString syncPath,
               mimeUriList \<mapsto> QVByteArray uri,
               mimeText \<mapsto> QVByteArray text,
               mimeNoSave \<mapsto> QVMap [(mimeText, QVByteArray (calculateHash h text)),
                                       (mimeUriList, QVByteArray (calculateHash h uri))]))"
proof -
  have lt: "mimeText < mimeUriList"
    by (simp add: mimeText_def mimeUriList_def less_char_def)
  show ?thesis
    using lt
    by (simp add: copyItem_def Let_def qcontains_qinsert mime_distinct map_of_qinsert) blast
qed

text \<open>
  C10, as stated, fails: \<open>sys:nosave\<close> is not the only key whose value may change. An
  item that already carries a sync path, \<open>/old\<close>, and both the text and the URI list
  comes out with the sync path \<open>/A\<close> of the tab it is copied from, and nothing else
  changed.
\<close>

theorem copyItem_overwrites_syncpath:
  "qcontains syncedNote mimeSyncPath
   \<and> map_of syncedNote mimeSyncPath = Some (QVString ''/old'')
   \<and> map_of (copyItem exampleHost ''/A'' syncedNote) mimeSyncPath = Some (QVString ''/A'')
   \<and> copyItem exampleHost ''/A'' syncedNote
       = [(''application/x-copyq-itemsync-basename'', QVString ''n''),
          (''application/x-copyq-itemsync-sync-path'', QVString ''/A''),
          (''text/plain'', QVByteArray ''hi''),
          (''text/uri-list'', QVByteArray ''file:///old/n.txt'')]"
  by code_simp

text \<open>
  C10, amended. \<open>copyItem\<close> removes no key of the item. Every key of the input other
  than the no-save key and the sync-path key keeps its value. The keys of the output are
  those of the input, the sync-path key, which is always set to the path of the source
  tab, whatever the input has for it, the text key and the URI-list key where the input
  lacks them, and, in that case, the no-save key. When the input has both the text and
  the URI list, the output is the input with the sync path set, and the no-save entry
  is as in the input. Otherwise the no-save entry is a map whose keys are exactly the
  synthesized ones, each with the hash of the bytes stored for that key in the output.
\<close>

theorem copyItem_additive:
  "(\<forall>k. qcontains itemData k \<longrightarrow> qcontains (copyItem h syncPath itemData) k)
   \<and> (\<forall>k. qcontains itemData k \<and> k \<noteq> mimeNoSave \<and> k \<noteq> mimeSyncPath \<longrightarrow>
          map_of (copyItem h syncPath itemData) k = map_of itemData k)
   \<and> (\<forall>k. qcontains (copyItem h syncPath itemData) k \<longrightarrow>
          qcontains itemData k \<or> k = mimeSyncPath
          \<or> (k = mimeText \<and> \<not> qcontains itemData mimeText)
          \<or> (k = mimeUriList \<and> \<not> qcontains itemData mimeUriList)
          \<or> (k = mimeNoSave
              \<and> (\<not> qcontains itemData mimeText \<or> \<not> qcontains itemData mimeUriList)))
   \<and> map_of (copyItem h syncPath itemData) mimeSyncPath = Some (QVString syncPath)
   \<and> (qcontains itemData mimeText \<and> qcontains itemData mimeUriList \<longrightarrow>
        copyItem h syncPath itemData = qinsert mimeSyncPath (QVString syncPath) itemData
        \<and> map_of (copyItem h syncPath itemData) mimeNoSave = map_of itemData mimeNoSave)
   \<and> (\<not> qcontains itemData mimeText \<or> \<not> qcontains itemData mimeUriList \<longrightarrow>
        (\<exists>noSave. map_of (copyItem h syncPath itemData) mimeNoSave = Some (QVMap noSave)
           \<and> (\<forall>k. qcontains noSave k \<longleftrightarrow>
                    (k = mimeText \<and> \<not> qcontains itemData mimeText)
                    \<or> (k = mimeUriList \<and> \<not> qcontains itemData mimeUriList))
           \<and> (\<forall>k. qcontains noSave k \<longrightarrow>
                    (\<exists>bytes. map_of (copyItem h syncPath itemData) k = Some (QVByteArray bytes)
                       \<and> map_of noSave k = Some (QVByteArray (calculateHash h bytes))))))"
proof -
  obtain uriData textData where m:
    "map_of (copyItem h syncPath itemData) =
       (if qcontains itemData mimeUriList \<and> qcontains itemData mimeText
        then (map_of itemData)(mimeSyncPath \<mapsto> QVString syncPath)
        else if qcontains itemData mimeUriList
        then (map_of itemData)(mimeSyncPath \<mapsto> QVString syncPath,
               mimeText \<mapsto> QVByteArray textData,
               mimeNoSave \<mapsto> QVMap [(mimeText, QVByteArray (calculateHash h textData))])
        else if qcontains itemData mimeText
        then (map_of itemData)(mimeSyncPath \<mapsto> QVString syncPath,
               mimeUriList \<mapsto> QVByteArray uriData,
               mimeNoSave \<mapsto> QVMap [(mimeUriList, QVByteArray (calculateHash h uriData))])
        else (map_of itemData)(mimeSyncPath \<mapsto> QVString syncPath,
               mimeUriList \<mapsto> QVByteArray uriData,
               mimeText \<mapsto> QVByteArray textData,
               mimeNoSave \<mapsto> QVMap [(mimeText, QVByteArray (calculateHash h textData)),
                                       (mimeUriList, QVByteArray (calculateHash h uriData))]))"
    using copyItem_map by blast
  have c1: "\<forall>k. qcontains itemData k \<longrightarrow> qcontains (copyItem h syncPath itemData) k"
    by (simp add: qcontains_def m)
  have c2: "\<forall>k. qcontains itemData k \<and> k \<noteq> mimeNoSave \<and> k \<noteq> mimeSyncPath \<longrightarrow>
          map_of (copyItem h syncPath itemData) k = map_of itemData k"
    by (auto simp add: qcontains_def m)
  have c3: "\<forall>k. qcontains (copyItem h syncPath itemData) k \<longrightarrow>
          qcontains itemData k \<or> k = mimeSyncPath
          \<or> (k = mimeText \<and> \<not> qcontains itemData mimeText)
          \<or> (k = mimeUriList \<and> \<not> qcontains itemData mimeUriList)
          \<or> (k = mimeNoSave
              \<and> (\<not> qcontains itemData mimeText \<or> \<not> qcontains itemData mimeUriList))"
    by (auto simp add: qcontains_def m split: if_splits)
  have c4: "map_of (copyItem h syncPath itemData) mimeSyncPath = Some (QVString syncPath)"
    by (simp add: m mime_distinct)
  have c5: "qcontains itemData mimeText \<and> qcontains itemData mimeUriList \<longrightarrow>
        copyItem h syncPath itemData = qinsert mimeSyncPath (QVString syncPath) itemData
        \<and> map_of (copyItem h syncPath itemData) mimeNoSave = map_of itemData mimeNoSave"
    using copyItem_both [of itemData h syncPath]
    by (auto simp add: map_of_qinsert mime_distinct)
  have c6: "\<not> qcontains itemData mimeText \<or> \<not> qcontains itemData mimeUriList \<longrightarrow>
        (\<exists>noSave. map_of (copyItem h syncPath itemData) mimeNoSave = Some (QVMap noSave)
           \<and> (\<forall>k. qcontains noSave k \<longleftrightarrow>
                    (k = mimeText \<and> \<not> qcontains itemData mimeText)
                    \<or> (k = mimeUriList \<and> \<not> qcontains itemData mimeUriList))
           \<and> (\<forall>k. qcontains noSave k \<longrightarrow>
                    (\<exists>bytes. map_of (copyItem h syncPath itemData) k = Some (QVByteArray bytes)
                       \<and> map_of noSave k = Some (QVByteArray (calculateHash h bytes)))))"
    by (auto simp add: m mime_distinct qcontains_def)
  show ?thesis using c1 c2 c3 c4 c5 c6 by blast
qed

theorem copyItem_additive_witness:
  "qcontains (copyItem exampleHost ''/A'' note42) mimeText
   \<and> map_of (copyItem exampleHost ''/A'' note42) mimeText = Some (QVByteArray ''hi'')
   \<and> map_of (copyItem exampleHost ''/A'' note42) mimeSyncPath = Some (QVString ''/A'')
   \<and> copyItem exampleHost ''/A'' note42
       = [(mimeBaseName, QVString ''note42''),
          (mimeExtensionMap, QVMap [(''text/plain'', QVString ''.txt'')]),
          (mimeNoSave, QVMap [(''text/uri-list'',
             QVByteArray (calculateHash exampleHost ''file:///A/note42.txt''))]),
          (mimeSyncPath, QVString ''/A''),
          (''text/plain'', QVByteArray ''hi''),
          (''text/uri-list'', QVByteArray ''file:///A/note42.txt'')]"
proof -
  have c: "qcontains note42 mimeText" by code_simp
  have v: "map_of note42 mimeText = Some (QVByteArray ''hi'')" by code_simp
  have e: "copyItem exampleHost ''/A'' note42
       = [(mimeBaseName, QVString ''note42''),
          (mimeExtensionMap, QVMap [(''text/plain'', QVString ''.txt'')]),
          (mimeNoSave, QVMap [(''text/uri-list'',
             QVByteArray (calculateHash exampleHost ''file:///A/note42.txt''))]),
          (mimeSyncPath, QVString ''/A''),
          (''text/plain'', QVByteArray ''hi''),
          (''text/uri-list'', QVByteArray ''file:///A/note42.txt'')]" by code_simp
  note t = copyItem_additive [of note42 exampleHost "''/A''"]
  have a1: "qcontains (copyItem exampleHost ''/A'' note42) mimeText"
    using t c by blast
  have a2: "map_of (copyItem exampleHost ''/A'' note42) mimeText = map_of note42 mimeText"
    using t c mime_distinct by blast
  have a3: "map_of (copyItem exampleHost ''/A'' note42) mimeSyncPath = Some (QVString ''/A'')"
    using t by blast
  show ?thesis using a1 a2 a3 v e by simp
qed

subsection \<open>Base names after a direction-W pass\<close>

text \<open>
  Renaming gives each row of the range a name that is not in use, and saving the rows
  changes no base name. So when the base names of the rows outside the range are
  distinct and the pass completes, the base names of all rows are distinct.
\<close>

lemma getBaseName_qinsert:
  "getBaseName (qinsert mimeBaseName (QVString n) d) = n"
  by (simp add: getBaseName_def mapValue_def qvalue_def map_of_qinsert)

lemma dataAt_setData:
  "dataAt (setData i d rows) j = (if j = i \<and> i < length rows then d else dataAt rows j)"
  by (simp add: dataAt_def setData_def)

lemma dataAt_indexInsert: "dataAt (indexInsert i n rows) j = dataAt rows j"
  by (simp add: dataAt_def indexInsert_def nth_list_update)

lemma length_setData: "length (setData i d rows) = length rows"
  by (simp add: setData_def)

lemma length_indexInsert: "length (indexInsert i n rows) = length rows"
  by (simp add: indexInsert_def)

lemma renameRow_effect:
  assumes r: "renameRow i (used, w, fs) = Some (used', w', fs')"
    and i: "i < length (m_model w)"
  shows "length (m_model w') = length (m_model w)"
    and "used' = used @ [getBaseName (dataAt (m_model w') i)]"
    and "getBaseName (dataAt (m_model w') i) \<notin> set used"
    and "j \<noteq> i \<Longrightarrow> dataAt (m_model w') j = dataAt (m_model w) j"
proof -
  obtain n u where a: "renameToUnique (getBaseName (dataAt (m_model w) i)) used (m_formatSettings w)
      = Some (n, u)"
    using r by (auto simp add: renameRow_def Let_def split: option.splits)
  have f: "n \<notin> set used" "u = used @ [n]" using renameToUnique_fresh [OF a] by simp_all
  have b: "used' = u \<and> length (m_model w') = length (m_model w)
      \<and> getBaseName (dataAt (m_model w') i) = n
      \<and> (\<forall>j. j \<noteq> i \<longrightarrow> dataAt (m_model w') j = dataAt (m_model w) j)"
    using r a i
    by (auto simp add: renameRow_def Let_def dataAt_setData dataAt_indexInsert length_setData
        length_indexInsert getBaseName_qinsert split: if_splits)
  show "length (m_model w') = length (m_model w)" using b by simp
  show "used' = used @ [getBaseName (dataAt (m_model w') i)]" using b f by simp
  show "getBaseName (dataAt (m_model w') i) \<notin> set used" using b f by simp
  show "j \<noteq> i \<Longrightarrow> dataAt (m_model w') j = dataAt (m_model w) j" using b by simp
qed

lemma renameRows_effect:
  assumes "renameRows is (used, w, fs) = (True, used', w', fs')"
    and "distinct is" and "\<forall>i \<in> set is. i < length (m_model w)"
  shows "length (m_model w') = length (m_model w)
       \<and> used' = used @ map (\<lambda>i. getBaseName (dataAt (m_model w') i)) is
       \<and> (distinct used \<longrightarrow> distinct used')
       \<and> (\<forall>j. j \<notin> set is \<longrightarrow> dataAt (m_model w') j = dataAt (m_model w) j)"
  using assms
proof (induction "is" arbitrary: used w fs)
  case Nil
  then show ?case by simp
next
  case (Cons i "is")
  obtain u1 w1 fs1 where s: "renameRow i (used, w, fs) = Some (u1, w1, fs1)"
    using Cons.prems(1) by (cases "renameRow i (used, w, fs)") auto
  have rest: "renameRows is (u1, w1, fs1) = (True, used', w', fs')"
    using Cons.prems(1) s by simp
  have i: "i < length (m_model w)" using Cons.prems(3) by simp
  note e = renameRow_effect [OF s i]
  have len1: "length (m_model w1) = length (m_model w)" by (rule e(1))
  have dis: "distinct is" using Cons.prems(2) by simp
  have bnd: "\<forall>k \<in> set is. k < length (m_model w1)" using Cons.prems(3) len1 by simp
  note ih = Cons.IH [OF rest dis bnd]
  have ih1: "length (m_model w') = length (m_model w1)" using ih by (rule conjunct1)
  have ih2: "used' = u1 @ map (\<lambda>i. getBaseName (dataAt (m_model w') i)) is"
    using ih by (elim conjE)
  have ih3: "distinct u1 \<longrightarrow> distinct used'" using ih by (elim conjE)
  have ih4: "\<forall>j. j \<notin> set is \<longrightarrow> dataAt (m_model w') j = dataAt (m_model w1) j"
    using ih by (elim conjE)
  have keep: "dataAt (m_model w') i = dataAt (m_model w1) i"
    using ih4 Cons.prems(2) by simp
  have u1: "u1 = used @ [getBaseName (dataAt (m_model w') i)]"
    using e(2) keep by simp
  have d1: "distinct used \<longrightarrow> distinct u1" using e(2,3) by auto
  have other: "\<forall>j. j \<notin> set (i # is) \<longrightarrow> dataAt (m_model w') j = dataAt (m_model w) j"
  proof (intro allI impI)
    fix j assume "j \<notin> set (i # is)"
    then have "j \<noteq> i" "j \<notin> set is" by simp_all
    then show "dataAt (m_model w') j = dataAt (m_model w) j" using ih4 e(4) by simp
  qed
  have c1: "length (m_model w') = length (m_model w)" using ih1 len1 by simp
  have c2: "used' = used @ map (\<lambda>i. getBaseName (dataAt (m_model w') i)) (i # is)"
    using ih2 u1 by simp
  have c3: "distinct used \<longrightarrow> distinct used'" using ih3 d1 by blast
  show ?case using c1 c2 c3 other by (intro conjI)
qed

lemma watcher_renameToUnique_distinct:
  assumes r: "watcher_renameToUnique firstRow lastRow w fs = (True, w', fs')"
    and l: "lastRow < length (m_model w)"
    and d: "distinct (usedBaseNamesOutside (m_model w) firstRow lastRow)"
  shows "length (m_model w') = length (m_model w)
       \<and> distinct (map (\<lambda>r. getBaseName (rowData r)) (m_model w'))"
proof -
  let ?n = "length (m_model w)"
  let ?P = "\<lambda>i. \<not> (firstRow \<le> i \<and> i \<le> lastRow)"
  let ?name = "\<lambda>i. getBaseName (dataAt (m_model w') i)"
  obtain used' where rr: "renameRows [firstRow..<Suc lastRow]
      (usedBaseNamesOutside (m_model w) firstRow lastRow, w, fs) = (True, used', w', fs')"
    using r by (auto simp add: watcher_renameToUnique_def Let_def split: prod.splits)
  have b: "\<forall>i \<in> set [firstRow..<Suc lastRow]. i < ?n" using l by auto
  note e = renameRows_effect [OF rr distinct_upt b]
  have len: "length (m_model w') = ?n" using e by (rule conjunct1)
  have app: "used' = usedBaseNamesOutside (m_model w) firstRow lastRow
      @ map ?name [firstRow..<Suc lastRow]" using e by (elim conjE)
  have dd: "distinct (usedBaseNamesOutside (m_model w) firstRow lastRow) \<longrightarrow> distinct used'"
    using e by (elim conjE)
  have same: "\<forall>j. j \<notin> set [firstRow..<Suc lastRow] \<longrightarrow>
      dataAt (m_model w') j = dataAt (m_model w) j" using e by (elim conjE)
  have outside: "usedBaseNamesOutside (m_model w) firstRow lastRow = map ?name (filter ?P [0..<?n])"
    unfolding usedBaseNamesOutside_def
  proof (rule map_cong [OF refl])
    fix j assume "j \<in> set (filter ?P [0..<?n])"
    then have "j \<notin> set [firstRow..<Suc lastRow]" by auto
    then show "getBaseName (dataAt (m_model w) j) = ?name j" using same by simp
  qed
  have used': "used' = map ?name (filter ?P [0..<?n] @ [firstRow..<Suc lastRow])"
    using app outside by (simp del: upt_Suc)
  have du: "distinct used'" using dd d by blast
  have inj: "inj_on ?name (set (filter ?P [0..<?n] @ [firstRow..<Suc lastRow]))"
    using du used' by (simp only: distinct_map)
  have "set (filter ?P [0..<?n] @ [firstRow..<Suc lastRow]) = {0..<?n}"
    using l by auto
  then have "inj_on ?name {0..<?n}" using inj by simp
  then have "distinct (map ?name [0..<?n])" by (simp add: distinct_map)
  moreover have "map ?name [0..<?n] = map (\<lambda>r. getBaseName (rowData r)) (m_model w')"
  proof -
    have "map ?name [0..<?n]
        = map (\<lambda>i. getBaseName (rowData (m_model w' ! i))) [0..<length (m_model w')]"
      unfolding len by (rule map_cong [OF refl]) (simp add: dataAt_def len)
    also have "\<dots> = map (\<lambda>r. getBaseName (rowData r))
        (map (\<lambda>i. m_model w' ! i) [0..<length (m_model w')])"
      by (simp add: comp_def)
    also have "\<dots> = map (\<lambda>r. getBaseName (rowData r)) (m_model w')"
      by (simp only: map_nth)
    finally show ?thesis .
  qed
  ultimately show ?thesis using len by simp
qed


lemma baseName_internal: "startsWith mimeBaseName MIME_PREFIX_ITEMSYNC"
  by (simp add: startsWith_def mimeBaseName_def)

lemma getBaseName_cong: "map_of d mimeBaseName = map_of d' mimeBaseName \<Longrightarrow>
    getBaseName d = getBaseName d'"
  by (simp add: getBaseName_def mapValue_def qvalue_def)

lemma saveFormat_baseName:
  "saveFormat h filePath old ns fmt (d, m, u, ex, fs) = (ok, d', m', u', ex', fs') \<Longrightarrow>
     map_of d' mimeBaseName = map_of d mimeBaseName"
  using baseName_internal
  by (auto simp add: saveFormat_def Let_def map_of_qremove split: if_splits prod.splits)

lemma saveFormats_baseName:
  "saveFormats h filePath old ns fmts (d, m, u, ex, fs) = (ok, d', m', u', ex', fs') \<Longrightarrow>
     map_of d' mimeBaseName = map_of d mimeBaseName"
proof (induction fmts arbitrary: d m u ex fs)
  case Nil
  then show ?case by simp
next
  case (Cons fmt fmts)
  obtain ok1 d1 m1 u1 ex1 fs1 where
    s: "saveFormat h filePath old ns fmt (d, m, u, ex, fs) = (ok1, d1, m1, u1, ex1, fs1)"
    by (cases "saveFormat h filePath old ns fmt (d, m, u, ex, fs)") auto
  have k: "map_of d1 mimeBaseName = map_of d mimeBaseName" using s by (rule saveFormat_baseName)
  show ?case
  proof (cases ok1)
    case True
    then have "saveFormats h filePath old ns fmts (d1, m1, u1, ex1, fs1)
        = (ok, d', m', u', ex', fs')" using Cons.prems s by simp
    then show ?thesis using Cons.IH k by simp
  next
    case False
    then show ?thesis using Cons.prems s k by simp
  qed
qed

lemma extmap_nosave_not_baseName:
  "mimeExtensionMap \<noteq> mimeBaseName" "mimeNoSave \<noteq> mimeBaseName"
  "mimeBaseName \<noteq> mimeExtensionMap" "mimeBaseName \<noteq> mimeNoSave"
  by (simp_all add: mimeExtensionMap_def mimeBaseName_def mimeNoSave_def)

lemma saveRow_baseNames:
  assumes "saveRow h row (w, ex, fs) = (ok, w', ex', fs')"
  shows "map (\<lambda>r. getBaseName (rowData r)) (m_model w')
       = map (\<lambda>r. getBaseName (rowData r)) (m_model w)"
proof -
  let ?d0 = "dataAt (m_model w) row"
  obtain ok1 d m u ex1 fs1 where
    f: "saveFormats h (absoluteFilePath (m_path w) (getBaseName ?d0))
          (toMap (mapValue ?d0 mimeExtensionMap)) (toMap (mapValue ?d0 mimeNoSave))
          (qkeys ?d0) (?d0, [], [], ex, fs) = (ok1, d, m, u, ex1, fs1)"
    by (cases "saveFormats h (absoluteFilePath (m_path w) (getBaseName ?d0))
          (toMap (mapValue ?d0 mimeExtensionMap)) (toMap (mapValue ?d0 mimeNoSave))
          (qkeys ?d0) (?d0, [], [], ex, fs)") auto
  have k: "map_of d mimeBaseName = map_of ?d0 mimeBaseName"
    using f by (rule saveFormats_baseName)
  have g: "getBaseName (qinsert mimeExtensionMap v (qremove mimeNoSave d)) = getBaseName ?d0" for v
    by (rule getBaseName_cong)
      (simp add: map_of_qinsert map_of_qremove extmap_nosave_not_baseName k)
  have "m_model w' = m_model w
      \<or> (\<exists>v. m_model w' = indexInsert row (getBaseName ?d0)
               (setData row (qinsert mimeExtensionMap v (qremove mimeNoSave d)) (m_model w)))"
    using assms f
    by (auto simp add: saveRow_def Let_def split: if_splits prod.splits)
  then show ?thesis
  proof
    assume "m_model w' = m_model w"
    then show ?thesis by simp
  next
    assume "\<exists>v. m_model w' = indexInsert row (getBaseName ?d0)
               (setData row (qinsert mimeExtensionMap v (qremove mimeNoSave d)) (m_model w))"
    then obtain v where m: "m_model w' = indexInsert row (getBaseName ?d0)
               (setData row (qinsert mimeExtensionMap v (qremove mimeNoSave d)) (m_model w))"
      by blast
    show ?thesis
      unfolding m
      by (auto simp add: list_eq_iff_nth_eq indexInsert_def setData_def nth_list_update g dataAt_def)
  qed
qed


lemma saveRows_baseNames:
  "saveRows h rows (w, ex, fs) = (ok, w', ex', fs') \<Longrightarrow>
     map (\<lambda>r. getBaseName (rowData r)) (m_model w')
       = map (\<lambda>r. getBaseName (rowData r)) (m_model w)"
proof (induction rows arbitrary: w ex fs)
  case Nil
  then show ?case by simp
next
  case (Cons row rows)
  obtain ok1 w1 ex1 fs1 where s: "saveRow h row (w, ex, fs) = (ok1, w1, ex1, fs1)"
    by (cases "saveRow h row (w, ex, fs)") auto
  have k: "map (\<lambda>r. getBaseName (rowData r)) (m_model w1)
       = map (\<lambda>r. getBaseName (rowData r)) (m_model w)" using s by (rule saveRow_baseNames)
  show ?case
  proof (cases ok1)
    case True
    then have "saveRows h rows (w1, ex1, fs1) = (ok, w', ex', fs')" using Cons.prems s by simp
    then show ?thesis using Cons.IH k by simp
  next
    case False
    then show ?thesis using Cons.prems s k by simp
  qed
qed

lemma saveItems_baseNames_distinct:
  assumes v: "m_valid (fst (saveItems h firstRow lastRow w fs))"
    and l: "lastRow < length (m_model w)"
    and d: "distinct (usedBaseNamesOutside (m_model w) firstRow lastRow)"
  shows "distinct (map (\<lambda>r. getBaseName (rowData r))
                   (m_model (fst (saveItems h firstRow lastRow w fs))))"
proof -
  obtain w1 fs1 st where
    r: "watcher_renameToUnique firstRow lastRow (disconnectModel w) fs = (True, w1, fs1)"
    and s: "saveRows h [firstRow..<Suc lastRow] (w1, listFiles_dir h fs1 (m_path w1), fs1)
              = (True, st)"
    using saveItems_valid_only_if_saved [OF v] by blast
  obtain w2 ex2 fs2 where st: "st = (w2, ex2, fs2)" by (cases st) auto
  have m: "m_model (disconnectModel w) = m_model w" by (simp add: disconnectModel_def)
  have d1: "distinct (map (\<lambda>r. getBaseName (rowData r)) (m_model w1))"
    using watcher_renameToUnique_distinct [OF r] l d m by simp
  have d2: "distinct (map (\<lambda>r. getBaseName (rowData r)) (m_model w2))"
    using saveRows_baseNames [OF s [unfolded st]] d1 by simp
  have "m_model (fst (saveItems h firstRow lastRow w fs)) = m_model w2
      \<or> m_model (fst (saveItems h firstRow lastRow w fs)) = m_model w1"
    using r s st
    by (simp add: saveItems_def Let_def connectModel_def del: upt_Suc)
  then show ?thesis using d1 d2 by auto
qed

text \<open>
  C3 does not hold of the code. A row whose base name is a single line feed, alone in
  its tab, goes through a direction-W pass that completes (the watcher is valid again),
  and its base name is empty afterwards: the allocator replaces an empty name before it
  strips line ends, and accepts what is left when it is not in use. (That no two rows
  share a base name holds, by \<open>saveItems_baseNames_distinct\<close>.)
\<close>

theorem saveItems_leaves_empty_basename:
  "map (\<lambda>r. getBaseName (rowData r)) (m_model newlineWatcher) = [[CHR 0x0A]]
   \<and> m_valid (fst (saveItems exampleHost 0 0 newlineWatcher emptyDir))
   \<and> map (\<lambda>r. getBaseName (rowData r))
         (m_model (fst (saveItems exampleHost 0 0 newlineWatcher emptyDir))) = [[]]"
  by code_simp

subsection \<open>Writing and reading back\<close>

text \<open>
  A path that ends in the sidecar suffix ends in no other extension of the built-in
  table, so the look-up there finds the sidecar's entry, whose MIME is empty. When no
  user extension matches the path, the scanner therefore passes the file over, whatever
  the file system holds.
\<close>

lemma endsWith_both:
  assumes "endsWith p a" and "endsWith p b" and "length b \<le> length a"
  shows "endsWith a b"
proof -
  have a: "drop (length p - length a) p = a" and la: "length a \<le> length p"
    using assms(1) by (simp_all add: endsWith_def)
  have b: "drop (length p - length b) p = b" and lb: "length b \<le> length p"
    using assms(2) by (simp_all add: endsWith_def)
  have "drop (length a - length b) a = drop (length a - length b) (drop (length p - length a) p)"
    using a by simp
  also have "\<dots> = drop (length p - length b) p"
    using la lb assms(3) by simp
  finally show ?thesis using b assms(3) by (simp add: endsWith_def)
qed

lemma sidecar_suffix_only:
  assumes "endsWith p dataFileSuffix"
    and "e \<in> set (butlast fileExtensionsAndFormats)"
  shows "\<not> endsWith p (extension e)"
proof
  assume m: "endsWith p (extension e)"
  have "endsWith dataFileSuffix (extension e) \<or> endsWith (extension e) dataFileSuffix"
    using endsWith_both [OF assms(1) m] endsWith_both [OF m assms(1)] by linarith
  moreover have "\<forall>x \<in> set (butlast fileExtensionsAndFormats).
      \<not> endsWith dataFileSuffix (extension x) \<and> \<not> endsWith (extension x) dataFileSuffix"
    by code_simp
  ultimately show False using assms(2) by blast
qed

lemma findByExtension_no_match:
  "\<forall>e \<in> set es. \<not> endsWith p (extension e) \<Longrightarrow>
     findByExtension p (es @ rest) = findByExtension p rest"
  by (induction es) auto

lemma findByExtension_sidecar:
  assumes "endsWith p dataFileSuffix"
  shows "findByExtension p fileExtensionsAndFormats = mkExt dataFileSuffix []"
proof -
  have s: "fileExtensionsAndFormats = butlast fileExtensionsAndFormats @ [mkExt dataFileSuffix []]"
    by code_simp
  have "findByExtension p (butlast fileExtensionsAndFormats @ [mkExt dataFileSuffix []])
      = findByExtension p [mkExt dataFileSuffix []]"
    using sidecar_suffix_only [OF assms] by (intro findByExtension_no_match) blast
  then show ?thesis using s assms by (simp add: mkExt_def)
qed

lemma sidecar_skipped_without_user_format:
  assumes "endsWith filePath dataFileSuffix"
    and "extension (findByExtension filePath (userExtsOf formatSettings)) = []"
  shows "scanFile fs (userExtsOf formatSettings) filePath = None"
  using assms findByExtension_sidecar [OF assms(1)]
  by (simp add: scanFile_def Let_def mkExt_def)

text \<open>
  An item with a text payload is written to \<open>copyq_0000.txt\<close> and read back unchanged.
\<close>

lemma text_item_survives_reread:
  "map rowData (m_model (fst (saveItems exampleHost 0 0 textWatcher emptyDir)))
     = [[(mimeBaseName, QVString ''copyq_0000''),
         (mimeExtensionMap, QVMap [(''text/plain'', QVString ''.txt'')]),
         (''text/plain'', QVByteArray ''hello'')]]
   \<and> map rowData
         (m_model (updateItems exampleHost (fst (saveItems exampleHost 0 0 textWatcher emptyDir))
                     (snd (saveItems exampleHost 0 0 textWatcher emptyDir))))
       = map rowData (m_model (fst (saveItems exampleHost 0 0 textWatcher emptyDir)))"
  by code_simp

text \<open>
  C1 does not hold of the code. An item whose only payload has a MIME with no extension
  is written to the sidecar \<open>copyq_0000_copyq.dat\<close>. With no user formats the scanner
  finds the sidecar's entry of the built-in table, whose MIME is empty, and passes the
  file over, so it is in no bucket: the direction-R pass that follows removes the row,
  and a fresh watcher on the directory creates none. With a user format for \<open>.dat\<close>
  with an empty MIME the same file is put in a bucket.
\<close>

theorem sidecar_item_lost_on_reread:
  "saveItems exampleHost 0 0 customWatcher emptyDir
     = (\<lparr>m_path = ''/d'', m_formatSettings = [], m_valid = True,
          m_model = [\<lparr>rowData = [(mimeBaseName, QVString ''copyq_0000''),
                                  (mimeExtensionMap, QVMap [([], QVString ''_copyq.dat'')]),
                                  (''application/x-custom'', QVByteArray ''abc'')],
                      indexBaseName = ''copyq_0000''\<rparr>],
          maxItems = 200, modelDisabled = False, watchedFiles = []\<rparr>,
        \<lparr>files = [(''/d/copyq_0000_copyq.dat'',
                     \<lparr>contents = serializeData exampleHost
                                     [(''application/x-custom'', QVByteArray ''abc'')],
                      lastModified = 0, readable = True, writable = True, hidden = False\<rparr>)],
          clock = 1\<rparr>)
   \<and> listFiles (snd (saveItems exampleHost 0 0 customWatcher emptyDir))
         [''/d/copyq_0000_copyq.dat''] [] = []
   \<and> listFiles (snd (saveItems exampleHost 0 0 customWatcher emptyDir))
         [''/d/copyq_0000_copyq.dat''] [\<lparr>extensions = [''.dat''], itemMime = [], icon = []\<rparr>]
       = [\<lparr>baseName = ''copyq_0000'', exts = [\<lparr>extension = ''_copyq.dat'', format = []\<rparr>]\<rparr>]
   \<and> m_model (updateItems exampleHost (fst (saveItems exampleHost 0 0 customWatcher emptyDir))
                (snd (saveItems exampleHost 0 0 customWatcher emptyDir))) = []
   \<and> m_model (fst (newFileWatcher exampleHost ''/d'' [''/d/copyq_0000_copyq.dat''] [] 200 []
                (snd (saveItems exampleHost 0 0 customWatcher emptyDir)))) = []"
  by code_simp

end
